(* ===== verification/Prelude.thy ===== *)
theory Prelude
  imports Main "HOL-Library.Word" "HOL-Library.Char_ord" "HOL-Library.List_Lexorder" "HOL-Library.Sublist"
begin

section \<open>Prelude: bytes, strings and the parts of the C++ library the program uses\<close>

text \<open>
  A \<open>std::string\<close> is a list of bytes. HOL's \<open>char\<close> is exactly a byte (256 values), so
  strings are HOL \<open>string\<close>s and \<open>length\<close> counts bytes, as \<open>size()\<close> does.
  This theory models the few library functions the sources call on them
  (\<open>std::to_string\<close>, \<open>starts_with\<close>, \<open>contains\<close>, \<open>c_str\<close>, the promotion of a
  \<open>char\<close> to \<open>int\<close>, \<open>rfind\<close>, \<open>substr\<close>) and collects the lemmas the components share.
\<close>

named_theorems cxx_simps \<open>unfolding rules for the models of C++ library functions\<close>

text \<open>
  The exceptions that leave a modelled function. A function that can throw returns a sum with the
  exception on the left.
\<close>

datatype exn = Bad_any_cast | Simdjson_error | Runtime_error string

text \<open>A loop over a list whose body may run into undefined behaviour.\<close>

fun fold_opt :: "('x \<Rightarrow> 's \<Rightarrow> 's option) \<Rightarrow> 'x list \<Rightarrow> 's \<Rightarrow> 's option" where
  "fold_opt f [] s = Some s"
| "fold_opt f (x # xs) s = (case f x s of None \<Rightarrow> None | Some s1 \<Rightarrow> fold_opt f xs s1)"

lemma fold_opt_cong [fundef_cong]:
  "xs = ys \<Longrightarrow> s = t \<Longrightarrow> (\<And>x u. x \<in> set ys \<Longrightarrow> f x u = g x u) \<Longrightarrow> fold_opt f xs s = fold_opt g ys t"
proof (induction xs arbitrary: ys s t)
  case (Cons x xs)
  then show ?case by (auto split: option.split)
qed simp

lemma fold_opt_append:
  "fold_opt f (xs @ ys) s = (case fold_opt f xs s of None \<Rightarrow> None | Some s1 \<Rightarrow> fold_opt f ys s1)"
  by (induction xs arbitrary: s) (simp_all split: option.split)

subsection \<open>Bytes\<close>

type_synonym u8 = "8 word"
type_synonym u16 = "16 word"
type_synonym u32 = "32 word"
type_synonym u64 = "64 word"

text \<open>The promotion of a (signed, as on x86) \<open>char\<close> to \<open>int\<close>.\<close>

definition char_int :: "char \<Rightarrow> int" where
  "char_int c = (let n = (of_char c :: int) in if n < 128 then n else n - 256)"

abbreviation (input) NUL :: char where "NUL \<equiv> CHR 0x00"
abbreviation (input) TAB :: char where "TAB \<equiv> CHR 0x09"
abbreviation (input) LF :: char where "LF \<equiv> CHR 0x0A"
abbreviation (input) CR :: char where "CR \<equiv> CHR 0x0D"
abbreviation (input) SP :: char where "SP \<equiv> CHR '' ''"

lemma char_int_nat: "char_int c = (let n = (of_char c :: nat) in if n < 128 then int n else int n - 256)"
proof -
  have "(of_char c :: int) = int (of_char c)" by (simp add: of_nat_of_char)
  then show ?thesis by (simp add: char_int_def Let_def)
qed

lemma char_int_range: "- 128 \<le> char_int c" "char_int c < 128"
proof -
  have "(of_char c :: nat) \<le> 255" using nat_of_char_less_256 [of c] by linarith
  then show "- 128 \<le> char_int c" "char_int c < 128"
    unfolding char_int_nat Let_def by (simp_all split: if_splits)
qed

lemma char_int_inj: "char_int c = char_int d \<longleftrightarrow> c = d"
proof
  assume eq: "char_int c = char_int d"
  have "(of_char c :: nat) \<le> 255" "(of_char d :: nat) \<le> 255"
    using nat_of_char_less_256 [of c] nat_of_char_less_256 [of d] by linarith+
  with eq have "(of_char c :: nat) = of_char d"
    unfolding char_int_nat Let_def by (simp split: if_splits)
  then show "c = d" by simp
qed simp

text \<open>The byte value of a character as an 8-bit word, and back.\<close>

definition byte_of :: "char \<Rightarrow> u8" where
  "byte_of c = of_char c"

definition char_of_byte :: "u8 \<Rightarrow> char" where
  "char_of_byte w = char_of (unat w)"

subsection \<open>Decimal output: \<open>std::to_string\<close> on unsigned values\<close>

definition digit_char :: "nat \<Rightarrow> char" where
  "digit_char d = char_of (48 + d)"

fun dec_string :: "nat \<Rightarrow> string" where
  "dec_string n =
     (if n < 10 then [digit_char n] else dec_string (n div 10) @ [digit_char (n mod 10)])"

declare dec_string.simps [simp del]

definition digit_val :: "char \<Rightarrow> nat" where
  "digit_val c = of_char c - 48"

definition is_dec_digit :: "char \<Rightarrow> bool" where
  "is_dec_digit c \<longleftrightarrow> 48 \<le> (of_char c :: nat) \<and> (of_char c :: nat) \<le> 57"

definition dec_value :: "string \<Rightarrow> nat" where
  "dec_value s = foldl (\<lambda>n c. n * 10 + digit_val c) 0 s"

lemma digit_char_props:
  assumes "d < 10"
  shows "is_dec_digit (digit_char d)" "digit_val (digit_char d) = d"
  using assms by (simp_all add: digit_char_def is_dec_digit_def digit_val_def)

lemma dec_string_nonempty [simp]: "dec_string n \<noteq> []"
  by (subst dec_string.simps) simp

lemma dec_string_digits: "c \<in> set (dec_string n) \<Longrightarrow> is_dec_digit c"
proof (induction n rule: dec_string.induct)
  case (1 n)
  then show ?case
    by (cases "n < 10") (auto simp: dec_string.simps [of n] digit_char_props)
qed

lemma list_all_dec_string [simp]: "list_all is_dec_digit (dec_string n)"
  by (simp add: list_all_iff dec_string_digits)

lemma dec_value_snoc: "dec_value (s @ [c]) = dec_value s * 10 + digit_val c"
  by (simp add: dec_value_def)

lemma dec_value_dec_string [simp]: "dec_value (dec_string n) = n"
proof (induction n rule: dec_string.induct)
  case (1 n)
  then show ?case
    by (cases "n < 10")
       (auto simp: dec_string.simps [of n] dec_value_snoc digit_char_props dec_value_def)
qed

lemma dec_string_inj: "dec_string m = dec_string n \<longleftrightarrow> m = n"
  by (metis dec_value_dec_string)

subsection \<open>Searching in strings\<close>

definition starts_with :: "string \<Rightarrow> string \<Rightarrow> bool" where
  "starts_with s p \<longleftrightarrow> take (length p) s = p"

fun contains :: "string \<Rightarrow> string \<Rightarrow> bool" where
  "contains [] p \<longleftrightarrow> p = []"
| "contains (c # s) p \<longleftrightarrow> starts_with (c # s) p \<or> contains s p"

lemma starts_with_prefix: "starts_with s p \<longleftrightarrow> prefix p s"
  by (auto simp: starts_with_def prefix_def) (metis append_take_drop_id)

lemma contains_iff: "contains s p \<longleftrightarrow> (\<exists>a b. s = a @ p @ b)"
proof (induction s)
  case Nil
  then show ?case by auto
next
  case (Cons c s)
  have "(\<exists>a b. c # s = a @ p @ b) \<longleftrightarrow> prefix p (c # s) \<or> (\<exists>a b. s = a @ p @ b)"
    by (auto simp: prefix_def Cons_eq_append_conv)
  with Cons show ?case by (simp add: starts_with_prefix)
qed

text \<open>What \<open>c_str()\<close> hands to a C function: the bytes before the first NUL.\<close>

definition c_str :: "string \<Rightarrow> string" where
  "c_str s = takeWhile (\<lambda>c. c \<noteq> NUL) s"

lemma c_str_prefix: "prefix (c_str s) s"
  by (simp add: c_str_def takeWhile_is_prefix)

lemma c_str_NUL: "c_str (a @ NUL # b) = c_str a"
  by (induction a) (simp_all add: c_str_def)

lemma c_str_append: "c_str a = a \<Longrightarrow> c_str (a @ b) = a @ c_str b"
  by (simp add: c_str_def takeWhile_append takeWhile_eq_all_conv)

text \<open>
  \<open>s.rfind(c, pos)\<close>: the greatest index at most \<open>pos\<close> that holds \<open>c\<close>; \<open>None\<close> is
  \<open>npos\<close>. The one-argument form is \<open>rfind\<close> from the end.
\<close>

fun rfind_upto :: "string \<Rightarrow> char \<Rightarrow> nat \<Rightarrow> nat option" where
  "rfind_upto s c n =
     (if n < length s \<and> s ! n = c then Some n
      else case n of 0 \<Rightarrow> None | Suc m \<Rightarrow> rfind_upto s c m)"

declare rfind_upto.simps [simp del]

definition rfind :: "string \<Rightarrow> char \<Rightarrow> nat option" where
  "rfind s c = rfind_upto s c (length s)"

text \<open>\<open>s.substr(pos, n)\<close> for \<open>pos \<le> s.size()\<close>; the library throws \<open>out_of_range\<close> beyond.\<close>

definition substr :: "string \<Rightarrow> nat \<Rightarrow> nat \<Rightarrow> string option" where
  "substr s pos n = (if length s < pos then None else Some (take n (drop pos s)))"

lemma rfind_upto_Some:
  "rfind_upto s c n = Some i \<Longrightarrow> i \<le> n \<and> i < length s \<and> s ! i = c \<and> (\<forall>j. i < j \<and> j \<le> n \<and> j < length s \<longrightarrow> s ! j \<noteq> c)"
proof (induction s c n rule: rfind_upto.induct)
  case (1 s c n)
  then show ?case
    by (subst (asm) (2) rfind_upto.simps)
       (auto split: if_splits nat.splits simp: le_Suc_eq)
qed

lemma rfind_upto_None:
  "rfind_upto s c n = None \<Longrightarrow> j \<le> n \<Longrightarrow> j < length s \<Longrightarrow> s ! j \<noteq> c"
proof (induction s c n rule: rfind_upto.induct)
  case (1 s c n)
  then show ?case
    by (subst (asm) (2) rfind_upto.simps)
       (auto split: if_splits nat.splits simp: le_Suc_eq)
qed

lemma rfind_append: "c \<notin> set b \<Longrightarrow> rfind (a @ c # b) c = Some (length a)"
proof -
  assume nb: "c \<notin> set b"
  obtain i where i: "rfind (a @ c # b) c = Some i"
    using rfind_upto_None [of "a @ c # b" c "length (a @ c # b)" "length a"]
    by (cases "rfind (a @ c # b) c") (auto simp: rfind_def nth_append)
  then have *: "i < length (a @ c # b)" "(a @ c # b) ! i = c"
    "\<forall>j. i < j \<and> j \<le> length (a @ c # b) \<and> j < length (a @ c # b) \<longrightarrow> (a @ c # b) ! j \<noteq> c"
    using rfind_upto_Some [of "a @ c # b" c "length (a @ c # b)" i] by (auto simp: rfind_def)
  have "\<not> i < length a" using *(3) [rule_format, of "length a"] by (auto simp: nth_append)
  moreover have "\<not> length a < i"
  proof
    assume "length a < i"
    then obtain k where "i = Suc (length a + k)" using less_imp_Suc_add by blast
    with * have "k < length b" "b ! k = c" by (simp_all add: nth_append)
    with nb show False by (metis nth_mem)
  qed
  ultimately show ?thesis using i by simp
qed

lemma rfind_None: "rfind s c = None \<longleftrightarrow> c \<notin> set s"
proof
  show "c \<notin> set s" if "rfind s c = None"
    using rfind_upto_None [of s c "length s"] that by (metis in_set_conv_nth less_imp_le rfind_def)
  show "rfind s c = None" if "c \<notin> set s"
    using rfind_upto_Some [of s c "length s"] that by (cases "rfind s c") (auto simp: rfind_def)
qed

subsection \<open>Paths\<close>

text \<open>
  \<open>std::filesystem::path\<close>: the file name behind the last slash, and the extension, which runs from the last dot of the file name, if
  that is not its first character and the name is not two dots.
\<close>

definition file_name :: "string \<Rightarrow> string" where
  "file_name p = (case rfind p (CHR ''/'') of None \<Rightarrow> p | Some i \<Rightarrow> drop (Suc i) p)"

definition path_extension :: "string \<Rightarrow> string" where
  "path_extension p =
     (let n = file_name p
      in if n = ''..'' then []
         else case rfind n (CHR ''.'') of
                None \<Rightarrow> [] | Some i \<Rightarrow> (if i = 0 then [] else drop i n))"

text \<open>The directory of a path, without the slashes at its end, and the operator \<open>/\<close>.\<close>

definition parent_path :: "string \<Rightarrow> string" where
  "parent_path p =
     (case rfind p (CHR ''/'') of
        None \<Rightarrow> []
      | Some i \<Rightarrow>
          (let d = rev (dropWhile (\<lambda>c. c = CHR ''/'') (rev (take i p))) in if d = [] then ''/'' else d))"

definition path_join :: "string \<Rightarrow> string \<Rightarrow> string" where
  "path_join d n =
     (if starts_with n ''/'' then n
      else if d = [] \<or> last d = CHR ''/'' then d @ n
      else d @ ''/'' @ n)"

lemma path_join_absolute: "starts_with n ''/'' \<Longrightarrow> path_join d n = n"
  by (simp add: path_join_def)

lemma path_join_inj: "\<not> starts_with m ''/'' \<Longrightarrow> \<not> starts_with n ''/'' \<Longrightarrow> path_join d m = path_join d n \<Longrightarrow> m = n"
  by (cases "d = [] \<or> last d = CHR ''/''") (simp_all only: path_join_def if_True if_False append_same_eq same_append_eq simp_thms)

lemma file_name_no_slash: "CHR ''/'' \<notin> set (file_name p)"
proof (cases "rfind p (CHR ''/'')")
  case None
  then have "CHR ''/'' \<notin> set p" "file_name p = p" unfolding rfind_None by (simp_all add: file_name_def None)
  then show ?thesis by simp
next
  case (Some i)
  then have "rfind_upto p (CHR ''/'') (length p) = Some i" by (simp only: rfind_def)
  from rfind_upto_Some [OF this]
  have i: "\<forall>j. i < j \<and> j \<le> length p \<and> j < length p \<longrightarrow> p ! j \<noteq> CHR ''/''" by blast
  show ?thesis
  proof
    assume "CHR ''/'' \<in> set (file_name p)"
    then obtain k where k: "k < length (drop (Suc i) p)" "drop (Suc i) p ! k = CHR ''/''"
      unfolding file_name_def Some option.case in_set_conv_nth by blast
    then have "p ! (Suc i + k) = CHR ''/''" by simp
    moreover have "Suc i + k < length p" using k(1) by simp
    ultimately show False using i by auto
  qed
qed

lemma file_name_relative: "\<not> starts_with (file_name p) ''/''"
  using file_name_no_slash [of p] by (cases "file_name p") (auto simp: starts_with_def)

text \<open>What the file system says about a path, and how a function that asks it can end.\<close>

datatype file_status = Missing | Regular | Directory | Other_kind | Stat_error

datatype outcome = Returns bool | Filesystem_error | Length_error

end
