(* ===== verification/Framing.thy ===== *)
theory Framing
  imports Prelude
begin

section \<open>Encodings of values as text, and self-delimiting ones\<close>

text \<open>
  The contract of an encoding and a reader that gives back what it can see of an encoded value, its
  \<open>view\<close>: percent encoding, base64 and vCards keep it.
\<close>

locale text_codec =
  fixes enc :: "'a \<Rightarrow> string"
    and dec :: "string \<Rightarrow> 'b option"
    and view :: "'a \<Rightarrow> 'b"
    and valid :: "'a \<Rightarrow> bool"
  assumes dec_enc: "valid x \<Longrightarrow> dec (enc x) = Some (view x)"
begin

lemma enc_inj: "valid x \<Longrightarrow> valid y \<Longrightarrow> enc x = enc y \<Longrightarrow> view x = view y"
  using dec_enc [of x] dec_enc [of y] by simp

lemma enc_eq_iff: "inj_on view {x. valid x} \<Longrightarrow> valid x \<Longrightarrow> valid y \<Longrightarrow> enc x = enc y \<longleftrightarrow> x = y"
  using enc_inj [of x y] by (auto dest: inj_onD)

end

text \<open>
  Three parts of the program write records into a byte stream that a reader has to cut up
  again: HTTP requests, HTTP replies, and the file the template cache writes. The contract is
  the same each time and is stated once here: decoding an encoded value that is followed by
  arbitrary bytes gives the value back (as far as the reader can see it, its \<open>view\<close>) and leaves exactly those bytes. The consequences
  (the encoding is injective, no encoding is a proper prefix of another, a sequence of encoded
  values is read back in order) are proved from the contract alone.
\<close>

text \<open>Reading \<open>n\<close> values one after another.\<close>

fun decode_n :: "(string \<Rightarrow> ('a \<times> string) option) \<Rightarrow> nat \<Rightarrow> string \<Rightarrow> ('a list \<times> string) option" where
  "decode_n dec 0 s = Some ([], s)"
| "decode_n dec (Suc n) s =
     (case dec s of
        None \<Rightarrow> None
      | Some (x, s') \<Rightarrow> (case decode_n dec n s' of
                         None \<Rightarrow> None
                       | Some (xs, r) \<Rightarrow> Some (x # xs, r)))"

locale framed_codec =
  fixes enc :: "'a \<Rightarrow> string"
    and dec :: "string \<Rightarrow> ('b \<times> string) option"
    and view :: "'a \<Rightarrow> 'b"
    and valid :: "'a \<Rightarrow> bool"
  assumes dec_enc: "valid x \<Longrightarrow> dec (enc x @ rest) = Some (view x, rest)"
begin

lemma dec_enc_only: "valid x \<Longrightarrow> dec (enc x) = Some (view x, [])"
  using dec_enc [of x "[]"] by simp

lemma enc_prefix_free:
  assumes "valid x" "valid y" "enc x @ a = enc y @ b"
  shows "view x = view y \<and> a = b"
proof -
  have "Some (view x, a) = dec (enc x @ a)" using assms(1) by (simp add: dec_enc)
  also have "\<dots> = Some (view y, b)" using assms(2,3) by (simp add: dec_enc)
  finally show ?thesis by simp
qed

lemma decode_n_concat:
  "(\<And>x. x \<in> set xs \<Longrightarrow> valid x) \<Longrightarrow>
   decode_n dec (length xs) (concat (map enc xs) @ rest) = Some (map view xs, rest)"
  by (induction xs) (simp_all add: dec_enc)

end

text \<open>A framed encoding is an encoding of its values when nothing follows.\<close>

sublocale framed_codec \<subseteq> whole: text_codec enc "\<lambda>s. case dec s of Some (x, []) \<Rightarrow> Some x | _ \<Rightarrow> None" view valid
  by unfold_locales (simp add: dec_enc_only)

end
