(* ===== verification/Http_Common.thy ===== *)
theory Http_Common
  imports Framing
begin

section \<open>Requests, replies and their serialisation (\<open>whz_common.hpp\<close>, \<open>whz_common.cpp\<close>)\<close>

text \<open>
  The data the HTTP components exchange, the canned replies and the byte sequence a reply is
  sent as. A \<open>const_buffer\<close> is a view of bytes, so \<open>to_buffers\<close> returns the list of the byte
  strings that \<open>async_write\<close> gathers.
\<close>

subsection \<open>Data\<close>

record header =
  hname :: string
  hvalue :: string

record request =
  req_method :: string
  req_uri :: string
  http_version_major :: u8
  http_version_minor :: u8
  req_headers :: "header list"

text \<open>
  The enumeration has a fixed underlying type, so an object of it can hold any 16-bit value;
  \<open>other_status\<close> stands for the values without an enumerator, which the \<open>default\<close> branches
  of the source handle.
\<close>

datatype status_type =
    ok | created | accepted | no_content
  | multiple_choices | moved_permanently | moved_temporarily | not_modified
  | bad_request | unauthorized | forbidden | not_found
  | internal_server_error | not_implemented | bad_gateway | service_unavailable
  | other_status u16

fun status_code :: "status_type \<Rightarrow> nat" where
  "status_code ok = 200"
| "status_code created = 201"
| "status_code accepted = 202"
| "status_code no_content = 204"
| "status_code multiple_choices = 300"
| "status_code moved_permanently = 301"
| "status_code moved_temporarily = 302"
| "status_code not_modified = 304"
| "status_code bad_request = 400"
| "status_code unauthorized = 401"
| "status_code forbidden = 403"
| "status_code not_found = 404"
| "status_code internal_server_error = 500"
| "status_code not_implemented = 501"
| "status_code bad_gateway = 502"
| "status_code service_unavailable = 503"
| "status_code (other_status w) = unat w"

record reply =
  status :: status_type
  rep_headers :: "header list"
  content :: string

definition empty_header :: header where
  "empty_header = \<lparr>hname = [], hvalue = []\<rparr>"

subsection \<open>Literals\<close>

definition name_value_separator :: string where
  "name_value_separator = '': ''"

definition crlf :: string where
  "crlf = [CR, LF]"

fun status_string :: "status_type \<Rightarrow> string" where
  "status_string ok = ''HTTP/1.0 200 OK'' @ crlf"
| "status_string created = ''HTTP/1.0 201 Created'' @ crlf"
| "status_string accepted = ''HTTP/1.0 202 Accepted'' @ crlf"
| "status_string no_content = ''HTTP/1.0 204 No Content'' @ crlf"
| "status_string multiple_choices = ''HTTP/1.0 300 Multiple Choices'' @ crlf"
| "status_string moved_permanently = ''HTTP/1.0 301 Moved Permanently'' @ crlf"
| "status_string moved_temporarily = ''HTTP/1.0 302 Moved Temporarily'' @ crlf"
| "status_string not_modified = ''HTTP/1.0 304 Not Modified'' @ crlf"
| "status_string bad_request = ''HTTP/1.0 400 Bad Request'' @ crlf"
| "status_string unauthorized = ''HTTP/1.0 401 Unauthorized'' @ crlf"
| "status_string forbidden = ''HTTP/1.0 403 Forbidden'' @ crlf"
| "status_string not_found = ''HTTP/1.0 404 Not Found'' @ crlf"
| "status_string internal_server_error = ''HTTP/1.0 500 Internal Server Error'' @ crlf"
| "status_string not_implemented = ''HTTP/1.0 501 Not Implemented'' @ crlf"
| "status_string bad_gateway = ''HTTP/1.0 502 Bad Gateway'' @ crlf"
| "status_string service_unavailable = ''HTTP/1.0 503 Service Unavailable'' @ crlf"
| "status_string (other_status w) = ''HTTP/1.0 500 Internal Server Error'' @ crlf"

fun reply_to_string :: "status_type \<Rightarrow> string" where
  "reply_to_string ok = ''''"
| "reply_to_string created =
     ''<html>'' @ ''<head><title>Created</title></head>'' @
     ''<body><h1>201 Created</h1></body>'' @ ''</html>''"
| "reply_to_string accepted =
     ''<html>'' @ ''<head><title>Accepted</title></head>'' @
     ''<body><h1>202 Accepted</h1></body>'' @ ''</html>''"
| "reply_to_string no_content =
     ''<html>'' @ ''<head><title>No Content</title></head>'' @
     ''<body><h1>204 Content</h1></body>'' @ ''</html>''"
| "reply_to_string multiple_choices =
     ''<html>'' @ ''<head><title>Multiple Choices</title></head>'' @
     ''<body><h1>300 Multiple Choices</h1></body>'' @ ''</html>''"
| "reply_to_string moved_permanently =
     ''<html>'' @ ''<head><title>Moved Permanently</title></head>'' @
     ''<body><h1>301 Moved Permanently</h1></body>'' @ ''</html>''"
| "reply_to_string moved_temporarily =
     ''<html>'' @ ''<head><title>Moved Temporarily</title></head>'' @
     ''<body><h1>302 Moved Temporarily</h1></body>'' @ ''</html>''"
| "reply_to_string not_modified =
     ''<html>'' @ ''<head><title>Not Modified</title></head>'' @
     ''<body><h1>304 Not Modified</h1></body>'' @ ''</html>''"
| "reply_to_string bad_request =
     ''<html>'' @ ''<head><title>Bad Request</title></head>'' @
     ''<body><h1>400 Bad Request</h1></body>'' @ ''</html>''"
| "reply_to_string unauthorized =
     ''<html>'' @ ''<head><title>Unauthorized</title></head>'' @
     ''<body><h1>401 Unauthorized</h1></body>'' @ ''</html>''"
| "reply_to_string forbidden =
     ''<html>'' @ ''<head><title>Forbidden</title></head>'' @
     ''<body><h1>403 Forbidden</h1></body>'' @ ''</html>''"
| "reply_to_string not_found =
     ''<html>'' @ ''<head><title>Not Found</title></head>'' @
     ''<body><h1>200 Default Text</h1></body>'' @ ''</html>''"
| "reply_to_string internal_server_error =
     ''<html>'' @ ''<head><title>Internal Server Error</title></head>'' @
     ''<body><h1>500 Internal Server Error</h1></body>'' @ ''</html>''"
| "reply_to_string not_implemented =
     ''<html>'' @ ''<head><title>Not Implemented</title></head>'' @
     ''<body><h1>501 Not Implemented</h1></body>'' @ ''</html>''"
| "reply_to_string bad_gateway =
     ''<html>'' @ ''<head><title>Bad Gateway</title></head>'' @
     ''<body><h1>502 Bad Gateway</h1></body>'' @ ''</html>''"
| "reply_to_string service_unavailable =
     ''<html>'' @ ''<head><title>Service Unavailable</title></head>'' @
     ''<body><h1>503 Service Unavailable</h1></body>'' @ ''</html>''"
| "reply_to_string (other_status w) =
     ''<html>'' @ ''<head><title>Internal Server Error</title></head>'' @
     ''<body><h1>500 Internal Server Error</h1></body>'' @ ''</html>''"

subsection \<open>Operations\<close>

text \<open>\<open>headers.resize(n)\<close>: cut to \<open>n\<close> elements, or fill up with empty headers.\<close>

definition resize_headers :: "nat \<Rightarrow> header list \<Rightarrow> header list" where
  "resize_headers n hs = take n hs @ replicate (n - length hs) empty_header"

text \<open>The four assignments \<open>headers[0].name = \<dots>\<close> to \<open>headers[1].value = \<dots>\<close> after \<open>resize(2)\<close>.\<close>

definition set_content_headers :: "nat \<Rightarrow> header list \<Rightarrow> header list" where
  "set_content_headers len hs =
     (let hs0 = resize_headers 2 hs;
          hs1 = hs0[0 := (hs0 ! 0)\<lparr>hname := ''Content-Length''\<rparr>];
          hs2 = hs1[0 := (hs1 ! 0)\<lparr>hvalue := dec_string len\<rparr>];
          hs3 = hs2[1 := (hs2 ! 1)\<lparr>hname := ''Content-Type''\<rparr>]
      in hs3[1 := (hs3 ! 1)\<lparr>hvalue := ''text/html''\<rparr>])"

definition stock_reply :: "status_type \<Rightarrow> reply" where
  "stock_reply st =
     (let body = reply_to_string st
      in \<lparr>status = st, rep_headers = set_content_headers (length body) [], content = body\<rparr>)"

definition header_buffers :: "header \<Rightarrow> string list" where
  "header_buffers h = [hname h, name_value_separator, hvalue h, crlf]"

definition to_buffers :: "reply \<Rightarrow> string list" where
  "to_buffers r =
     [status_string (status r)] @ concat (map header_buffers (rep_headers r)) @ [crlf] @ [content r]"

text \<open>The bytes \<open>async_write\<close> sends for a reply.\<close>

definition reply_bytes :: "reply \<Rightarrow> string" where
  "reply_bytes r = concat (to_buffers r)"

lemma set_content_headers_eq:
  "set_content_headers len hs =
     [\<lparr>hname = ''Content-Length'', hvalue = dec_string len\<rparr>,
      \<lparr>hname = ''Content-Type'', hvalue = ''text/html''\<rparr>]"
proof -
  obtain a b where ab: "resize_headers 2 hs = [a, b]"
    by (cases hs; cases "tl hs") (auto simp: resize_headers_def numeral_2_eq_2)
  show ?thesis
    by (cases a; cases b) (simp add: set_content_headers_def ab Let_def)
qed

subsection \<open>A reference reader of replies\<close>

text \<open>
  What a client does with the bytes: the status line up to the first CRLF, header lines split at
  the first colon-space up to an empty line, then \<open>Content-Length\<close> bytes of body.
\<close>

fun take_line :: "string \<Rightarrow> (string \<times> string) option" where
  "take_line [] = None"
| "take_line [c] = None"
| "take_line (c # d # s) =
     (if c = CR \<and> d = LF then Some ([], s)
      else map_option (\<lambda>(l, r). (c # l, r)) (take_line (d # s)))"

lemma take_line_length: "take_line s = Some (l, r) \<Longrightarrow> length r < length s"
  by (induction s arbitrary: l rule: take_line.induct) (auto split: if_splits)

lemma take_line_append:
  "CR \<notin> set l \<Longrightarrow> take_line (l @ CR # LF # s) = Some (l, s)"
proof (induction l)
  case (Cons c l)
  then show ?case by (cases l) auto
qed simp

definition split_header :: "string \<Rightarrow> header option" where
  "split_header l =
     (let n = takeWhile (\<lambda>c. c \<noteq> CHR '':'') l; r = dropWhile (\<lambda>c. c \<noteq> CHR '':'') l
      in if starts_with r name_value_separator
         then Some \<lparr>hname = n, hvalue = drop 2 r\<rparr> else None)"

function read_headers :: "string \<Rightarrow> (header list \<times> string) option" where
  "read_headers s =
     (case take_line s of
        None \<Rightarrow> None
      | Some (l, r) \<Rightarrow>
          (if l = [] then Some ([], r)
           else case split_header l of
                  None \<Rightarrow> None
                | Some h \<Rightarrow> map_option (\<lambda>(hs, t). (h # hs, t)) (read_headers r)))"
  by pat_completeness auto
termination
  by (relation "measure length") (auto simp: take_line_length)

declare read_headers.simps [simp del]

definition header_value_of :: "string \<Rightarrow> header list \<Rightarrow> string option" where
  "header_value_of n hs = map_option hvalue (find (\<lambda>h. hname h = n) hs)"

definition read_reply :: "string \<Rightarrow> ((string \<times> header list \<times> string) \<times> string) option" where
  "read_reply s =
     (case take_line s of
        None \<Rightarrow> None
      | Some (line, s1) \<Rightarrow>
          (case read_headers s1 of
             None \<Rightarrow> None
           | Some (hs, s2) \<Rightarrow>
               (case header_value_of ''Content-Length'' hs of
                  None \<Rightarrow> None
                | Some v \<Rightarrow>
                    (let n = dec_value v
                     in if length s2 < n then None
                        else Some ((line, hs, take n s2), drop n s2)))))"

text \<open>
  The well-formedness a reply needs so that its framing cannot be broken: no CR in a header and
  no colon in a header name, and a \<open>Content-Length\<close> that counts the content.
\<close>

definition header_ok :: "header \<Rightarrow> bool" where
  "header_ok h \<longleftrightarrow> CR \<notin> set (hname h) \<and> CHR '':'' \<notin> set (hname h) \<and> CR \<notin> set (hvalue h)"

definition reply_ok :: "reply \<Rightarrow> bool" where
  "reply_ok r \<longleftrightarrow>
     list_all header_ok (rep_headers r) \<and>
     header_value_of ''Content-Length'' (rep_headers r) = Some (dec_string (length (content r)))"

text \<open>The triple a client sees: status line without its CRLF, headers, content.\<close>

definition reply_view :: "reply \<Rightarrow> string \<times> header list \<times> string" where
  "reply_view r = (butlast (butlast (status_string (status r))), rep_headers r, content r)"

lemma split_header_ok:
  assumes "CHR '':'' \<notin> set (hname h)"
  shows "split_header (hname h @ name_value_separator @ hvalue h) = Some h"
proof -
  have "takeWhile (\<lambda>c. c \<noteq> CHR '':'') (hname h @ name_value_separator @ hvalue h) = hname h"
       "dropWhile (\<lambda>c. c \<noteq> CHR '':'') (hname h @ name_value_separator @ hvalue h)
          = name_value_separator @ hvalue h"
    using assms by (auto simp: takeWhile_append dropWhile_append name_value_separator_def)
  then show ?thesis
    by (simp add: split_header_def name_value_separator_def starts_with_def)
qed

lemma read_headers_append:
  assumes "list_all header_ok hs"
  shows "read_headers (concat (concat (map header_buffers hs)) @ crlf @ rest) = Some (hs, rest)"
  using assms
proof (induction hs)
  case Nil
  show ?case by (subst read_headers.simps) (simp add: crlf_def)
next
  case (Cons h hs)
  let ?l = "hname h @ name_value_separator @ hvalue h"
  let ?r = "concat (concat (map header_buffers hs)) @ crlf @ rest"
  have "take_line (?l @ CR # LF # ?r) = Some (?l, ?r)"
    using Cons.prems by (intro take_line_append) (auto simp: header_ok_def name_value_separator_def)
  moreover have "?l \<noteq> []" by (simp add: name_value_separator_def)
  moreover have "split_header ?l = Some h"
    using Cons.prems by (intro split_header_ok) (simp add: header_ok_def)
  moreover have "concat (concat (map header_buffers (h # hs))) @ crlf @ rest = ?l @ CR # LF # ?r"
    by (simp add: header_buffers_def crlf_def)
  moreover have "read_headers ?r = Some (hs, rest)"
    using Cons by simp
  ultimately show ?case
    by (subst read_headers.simps) simp
qed

lemma status_string_line:
  "\<exists>l. status_string st = l @ crlf \<and> CR \<notin> set l \<and> butlast (butlast (status_string st)) = l"
  by (cases st) (simp_all add: crlf_def)

lemma read_reply_bytes:
  assumes "reply_ok r"
  shows "read_reply (reply_bytes r @ rest) = Some (reply_view r, rest)"
proof -
  obtain l where l: "status_string (status r) = l @ crlf" "CR \<notin> set l"
      "butlast (butlast (status_string (status r))) = l"
    using status_string_line by blast
  let ?hs = "concat (concat (map header_buffers (rep_headers r)))"
  have "reply_bytes r @ rest = l @ CR # LF # (?hs @ crlf @ content r @ rest)"
    by (simp add: reply_bytes_def to_buffers_def l(1) crlf_def)
  moreover have "take_line (l @ CR # LF # (?hs @ crlf @ content r @ rest))
      = Some (l, ?hs @ crlf @ content r @ rest)"
    by (rule take_line_append [OF l(2)])
  moreover have "read_headers (?hs @ crlf @ content r @ rest) = Some (rep_headers r, content r @ rest)"
    using assms by (intro read_headers_append) (simp add: reply_ok_def)
  ultimately show ?thesis
    using assms by (simp add: read_reply_def reply_ok_def reply_view_def l(3))
qed

interpretation reply_wire: framed_codec reply_bytes read_reply reply_view reply_ok
  by unfold_locales (rule read_reply_bytes)

lemma content_headers_ok:
  "rep_headers r = set_content_headers (length (content r)) hs \<Longrightarrow> reply_ok r"
  by (auto simp: reply_ok_def set_content_headers_eq header_ok_def header_value_of_def
           dest!: dec_string_digits simp: is_dec_digit_def)

lemma stock_reply_ok [simp]: "reply_ok (stock_reply st)"
  by (rule content_headers_ok [where hs = "[]"]) (simp add: stock_reply_def Let_def)

lemma stock_reply_simps [simp]:
  "status (stock_reply st) = st" "content (stock_reply st) = reply_to_string st"
  by (simp_all add: stock_reply_def Let_def)

subsection \<open>Properties\<close>

text \<open>The enumerators of \<open>status_type\<close>, in the order of the header file.\<close>

definition all_status :: "status_type list" where
  "all_status =
     [ok, created, accepted, no_content, multiple_choices, moved_permanently, moved_temporarily,
      not_modified, bad_request, unauthorized, forbidden, not_found, internal_server_error,
      not_implemented, bad_gateway, service_unavailable]"

text \<open>C23 (reply_roundtrip). Replies whose headers hold no CR, whose header names hold no colon and whose
  Content-Length counts the content can be sent back to back on one connection: a client reading
  the concatenated output of \<open>to_buffers\<close> recovers every status line, header list and body in
  order and is left with exactly the bytes that follow.\<close>

theorem reply_roundtrip:
  assumes "\<And>r. r \<in> set rs \<Longrightarrow> reply_ok r"
  shows "decode_n read_reply (length rs) (concat (map reply_bytes rs) @ rest) = Some (map reply_view rs, rest)"
  using assms by (rule reply_wire.decode_n_concat)

theorem reply_roundtrip_witness:
  "decode_n read_reply (length [stock_reply not_found, stock_reply ok])
     (concat (map reply_bytes [stock_reply not_found, stock_reply ok]) @ ''tail'') =
     Some (map reply_view [stock_reply not_found, stock_reply ok], ''tail'')"
  by (rule reply_roundtrip) auto

text \<open>(stock_reply_wire). Every stock reply, whatever the 16-bit status, is sent as a well-framed message: the
  client reads the status line of the status, a Content-Length that is the length of the page,
  the type text/html and the page itself, and nothing is left over.\<close>

theorem stock_reply_wire:
  "read_reply (reply_bytes (stock_reply st)) =
     Some ((butlast (butlast (status_string st)),
            [\<lparr>hname = ''Content-Length'', hvalue = dec_string (length (reply_to_string st))\<rparr>,
             \<lparr>hname = ''Content-Type'', hvalue = ''text/html''\<rparr>],
            reply_to_string st), [])"
  using reply_wire.dec_enc_only [OF stock_reply_ok [of st]]
  by (simp add: reply_view_def stock_reply_def Let_def set_content_headers_eq)

text \<open>(stock_page_status). The pages that do not show the code of their own status are those of \<open>ok\<close> (which is
  empty) and of \<open>not_found\<close> (which says 200 Default Text); every status line shows it.\<close>

theorem stock_page_status:
  "filter (\<lambda>st. \<not> contains (reply_to_string st) (dec_string (status_code st))) all_status = [ok, not_found] \<and>
   list_all (\<lambda>st. contains (status_string st) (dec_string (status_code st))) all_status"
  by code_simp

end
