(* ===== verification/Request_Parser.thy ===== *)
theory Request_Parser
  imports Http_Common
begin

section \<open>The request parser (\<open>whz_request_parser.hpp\<close>, \<open>whz_request_parser.cpp\<close>)\<close>

text \<open>
  \<open>consume\<close> is the parser's state machine, one equation per state with the branches in the
  source's order; \<open>parse\<close> is the loop of the header file. The member \<open>state_\<close> and the request
  are passed explicitly. \<open>headers.back()\<close> on an empty vector is undefined behaviour, so
  \<open>consume\<close> returns an \<open>option\<close> and \<open>None\<close> is that case; \<open>consume_defined\<close> shows that no
  reachable state runs into it. The version numbers are \<open>uint8_t\<close>: the sum is computed in
  \<open>int\<close> and truncated by the assignment, which is arithmetic on 8-bit words.
\<close>

subsection \<open>Character classes\<close>

definition is_char :: "int \<Rightarrow> bool" where
  "is_char c \<longleftrightarrow> c \<ge> 0 \<and> c \<le> 127"

definition is_ctl :: "int \<Rightarrow> bool" where
  "is_ctl c \<longleftrightarrow> (c \<ge> 0 \<and> c \<le> 31) \<or> c = 127"

definition is_tspecial :: "int \<Rightarrow> bool" where
  "is_tspecial c \<longleftrightarrow>
     c \<in> set (map char_int [CHR ''('', CHR '')'', CHR ''<'', CHR ''>'', CHR ''@'', CHR '','', CHR '';'',
       CHR '':'', CHR 0x5C, CHR 0x22, CHR ''/'', CHR ''['', CHR '']'', CHR ''?'', CHR ''='',
       CHR ''{'', CHR ''}'', SP, TAB])"

definition is_digit :: "int \<Rightarrow> bool" where
  "is_digit c \<longleftrightarrow> c \<ge> char_int (CHR ''0'') \<and> c \<le> char_int (CHR ''9'')"

subsection \<open>The state machine\<close>

datatype result_type = good | bad | indeterminate

datatype parser_state =
    method_start | method_state | uri
  | http_version_h | http_version_t_1 | http_version_t_2 | http_version_p | http_version_slash
  | http_version_major_start | http_version_major_state
  | http_version_minor_start | http_version_minor_state
  | expecting_newline_1 | header_line_start | header_lws | header_name
  | space_before_header_value | header_value | expecting_newline_2 | expecting_newline_3

definition reset :: "parser_state \<Rightarrow> parser_state" where
  "reset st = method_start"

text \<open>\<open>back().name.push_back(c)\<close> and \<open>back().value.push_back(c)\<close>.\<close>

definition push_name :: "char \<Rightarrow> request \<Rightarrow> request option" where
  "push_name c req =
     (if req_headers req = [] then None
      else let h = last (req_headers req)
           in Some (req\<lparr>req_headers := butlast (req_headers req) @ [h\<lparr>hname := hname h @ [c]\<rparr>]\<rparr>))"

definition push_value :: "char \<Rightarrow> request \<Rightarrow> request option" where
  "push_value c req =
     (if req_headers req = [] then None
      else let h = last (req_headers req)
           in Some (req\<lparr>req_headers := butlast (req_headers req) @ [h\<lparr>hvalue := hvalue h @ [c]\<rparr>]\<rparr>))"

text \<open>\<open>v = v * 10 + input - '0'\<close> on a \<open>uint8_t\<close> member.\<close>

definition push_digit :: "u8 \<Rightarrow> char \<Rightarrow> u8" where
  "push_digit v c = word_of_int (uint v * 10 + char_int c - char_int (CHR ''0''))"

text \<open>The test \<open>!is_char(input) || is_ctl(input) || is_tspecial(input)\<close> of four of the states.\<close>

definition not_token :: "char \<Rightarrow> bool" where
  "not_token c \<longleftrightarrow> \<not> is_char (char_int c) \<or> is_ctl (char_int c) \<or> is_tspecial (char_int c)"

fun consume :: "parser_state \<Rightarrow> request \<Rightarrow> char \<Rightarrow> (result_type \<times> parser_state \<times> request) option" where
  "consume method_start req c =
     (if not_token c then Some (bad, method_start, req)
      else Some (indeterminate, method_state, req\<lparr>req_method := req_method req @ [c]\<rparr>))"
| "consume method_state req c =
     (if c = SP then Some (indeterminate, uri, req)
      else if not_token c then Some (bad, method_state, req)
      else Some (indeterminate, method_state, req\<lparr>req_method := req_method req @ [c]\<rparr>))"
| "consume uri req c =
     (if c = SP then Some (indeterminate, http_version_h, req)
      else if is_ctl (char_int c) then Some (bad, uri, req)
      else Some (indeterminate, uri, req\<lparr>req_uri := req_uri req @ [c]\<rparr>))"
| "consume http_version_h req c =
     (if c = CHR ''H'' then Some (indeterminate, http_version_t_1, req)
      else Some (bad, http_version_h, req))"
| "consume http_version_t_1 req c =
     (if c = CHR ''T'' then Some (indeterminate, http_version_t_2, req)
      else Some (bad, http_version_t_1, req))"
| "consume http_version_t_2 req c =
     (if c = CHR ''T'' then Some (indeterminate, http_version_p, req)
      else Some (bad, http_version_t_2, req))"
| "consume http_version_p req c =
     (if c = CHR ''P'' then Some (indeterminate, http_version_slash, req)
      else Some (bad, http_version_p, req))"
| "consume http_version_slash req c =
     (if c = CHR ''/''
      then Some (indeterminate, http_version_major_start,
                 req\<lparr>http_version_major := 0, http_version_minor := 0\<rparr>)
      else Some (bad, http_version_slash, req))"
| "consume http_version_major_start req c =
     (if is_digit (char_int c)
      then Some (indeterminate, http_version_major_state,
                 req\<lparr>http_version_major := push_digit (http_version_major req) c\<rparr>)
      else Some (bad, http_version_major_start, req))"
| "consume http_version_major_state req c =
     (if c = CHR ''.'' then Some (indeterminate, http_version_minor_start, req)
      else if is_digit (char_int c)
      then Some (indeterminate, http_version_major_state,
                 req\<lparr>http_version_major := push_digit (http_version_major req) c\<rparr>)
      else Some (bad, http_version_major_state, req))"
| "consume http_version_minor_start req c =
     (if is_digit (char_int c)
      then Some (indeterminate, http_version_minor_state,
                 req\<lparr>http_version_minor := push_digit (http_version_minor req) c\<rparr>)
      else Some (bad, http_version_minor_start, req))"
| "consume http_version_minor_state req c =
     (if c = CR then Some (indeterminate, expecting_newline_1, req)
      else if is_digit (char_int c)
      then Some (indeterminate, http_version_minor_state,
                 req\<lparr>http_version_minor := push_digit (http_version_minor req) c\<rparr>)
      else Some (bad, http_version_minor_state, req))"
| "consume expecting_newline_1 req c =
     (if c = LF then Some (indeterminate, header_line_start, req)
      else Some (bad, expecting_newline_1, req))"
| "consume header_line_start req c =
     (if c = CR then Some (indeterminate, expecting_newline_3, req)
      else if req_headers req \<noteq> [] \<and> (c = SP \<or> c = TAB) then Some (indeterminate, header_lws, req)
      else if not_token c then Some (bad, header_line_start, req)
      else map_option (\<lambda>r. (indeterminate, header_name, r))
             (push_name c (req\<lparr>req_headers := req_headers req @ [empty_header]\<rparr>)))"
| "consume header_lws req c =
     (if c = CR then Some (indeterminate, expecting_newline_2, req)
      else if c = SP \<or> c = TAB then Some (indeterminate, header_lws, req)
      else if is_ctl (char_int c) then Some (bad, header_lws, req)
      else map_option (\<lambda>r. (indeterminate, header_value, r)) (push_value c req))"
| "consume header_name req c =
     (if c = CHR '':'' then Some (indeterminate, space_before_header_value, req)
      else if not_token c then Some (bad, header_name, req)
      else map_option (\<lambda>r. (indeterminate, header_name, r)) (push_name c req))"
| "consume space_before_header_value req c =
     (if c = SP then Some (indeterminate, header_value, req)
      else Some (bad, space_before_header_value, req))"
| "consume header_value req c =
     (if c = CR then Some (indeterminate, expecting_newline_2, req)
      else if is_ctl (char_int c) then Some (bad, header_value, req)
      else map_option (\<lambda>r. (indeterminate, header_value, r)) (push_value c req))"
| "consume expecting_newline_2 req c =
     (if c = LF then Some (indeterminate, header_line_start, req)
      else Some (bad, expecting_newline_2, req))"
| "consume expecting_newline_3 req c =
     Some (if c = LF then good else bad, expecting_newline_3, req)"

text \<open>The loop of \<open>parse\<close>; the returned iterator is the list of the bytes not yet read.\<close>

fun parse :: "parser_state \<Rightarrow> request \<Rightarrow> string
    \<Rightarrow> (result_type \<times> parser_state \<times> request \<times> string) option" where
  "parse st req [] = Some (indeterminate, st, req, [])"
| "parse st req (c # cs) =
     (case consume st req c of
        None \<Rightarrow> None
      | Some (r, st', req') \<Rightarrow>
          (if r = good \<or> r = bad then Some (r, st', req', cs) else parse st' req' cs))"

subsection \<open>The character classes on bytes\<close>

definition token_char :: "char \<Rightarrow> bool" where
  "token_char c \<longleftrightarrow> \<not> not_token c"

definition text_char :: "char \<Rightarrow> bool" where
  "text_char c \<longleftrightarrow> \<not> is_ctl (char_int c)"

lemmas class_defs = is_char_def is_ctl_def is_tspecial_def is_digit_def char_int_def

lemma not_token_conv: "not_token c \<longleftrightarrow> \<not> token_char c"
  by (simp add: token_char_def)

lemma is_ctl_conv: "is_ctl (char_int c) \<longleftrightarrow> \<not> text_char c"
  by (simp add: text_char_def)

lemma token_char_facts [simp]:
  "\<not> token_char SP" "\<not> token_char TAB" "\<not> token_char CR" "\<not> token_char LF" "\<not> token_char NUL"
  "\<not> token_char (CHR '':'')"
  by (simp_all add: token_char_def not_token_def class_defs)

lemma text_char_facts [simp]:
  "text_char SP" "\<not> text_char TAB" "\<not> text_char CR" "\<not> text_char LF" "\<not> text_char NUL"
  by (simp_all add: text_char_def class_defs)

lemma token_text: "token_char c \<Longrightarrow> text_char c"
  by (simp add: token_char_def not_token_def text_char_def)

lemma is_digit_conv: "is_digit (char_int c) \<longleftrightarrow> is_dec_digit c"
proof -
  have "(of_char c :: nat) \<le> 255" using nat_of_char_less_256 [of c] by linarith
  then show ?thesis by (auto simp: is_digit_def is_dec_digit_def char_int_nat Let_def)
qed

lemma dec_digit_facts [simp]: "\<not> is_dec_digit (CHR ''.'')" "\<not> is_dec_digit CR" "\<not> is_dec_digit NUL"
  by (simp_all add: is_dec_digit_def)

text \<open>
  The tests see a \<open>char\<close> promoted to \<open>int\<close>, and whether \<open>char\<close> is signed depends on the
  platform; the tests do not.
\<close>

lemma classes_sign_independent:
  "is_char (char_int c) = is_char (of_char c)" "is_ctl (char_int c) = is_ctl (of_char c)"
  "is_digit (char_int c) = is_digit (of_char c)" "is_tspecial (char_int c) = is_tspecial (of_char c)"
proof -
  have n: "(of_char c :: int) = int (of_char c)" by (simp add: of_nat_of_char)
  have "is_char (char_int c) = is_char (of_char c) \<and> is_ctl (char_int c) = is_ctl (of_char c) \<and>
    is_digit (char_int c) = is_digit (of_char c) \<and> is_tspecial (char_int c) = is_tspecial (of_char c)"
  proof (cases "(of_char c :: nat) < 128")
    case True
    then have "char_int c = of_char c" by (simp add: char_int_nat n)
    then show ?thesis by simp
  next
    case False
    then have hi: "char_int c < 0" "128 \<le> (of_char c :: int)"
      using char_int_range(2) [of c] nat_of_char_less_256 [of c] unfolding char_int_nat n Let_def
      by (simp_all split: if_splits)
    have "\<not> is_tspecial x" if "x < 0 \<or> 128 \<le> x" for x
      using that by (auto simp: is_tspecial_def char_int_nat)
    then show ?thesis
      using hi by (simp add: is_char_def is_ctl_def is_digit_def char_int_nat [of "CHR ''0''"] char_int_nat [of "CHR ''9''"])
  qed
  then show "is_char (char_int c) = is_char (of_char c)" "is_ctl (char_int c) = is_ctl (of_char c)"
    "is_digit (char_int c) = is_digit (of_char c)" "is_tspecial (char_int c) = is_tspecial (of_char c)"
    by blast+
qed

text \<open>\<open>push_digit\<close> appends a decimal digit modulo 256.\<close>

lemma push_digit_value:
  assumes "is_dec_digit c"
  shows "push_digit v c = v * 10 + word_of_nat (digit_val c)"
proof -
  have "char_int c - char_int (CHR ''0'') = int (digit_val c)"
    using assms by (simp add: char_int_nat Let_def is_dec_digit_def digit_val_def of_nat_diff)
  then have "push_digit v c = word_of_int (uint v * 10 + int (digit_val c))"
    by (simp add: push_digit_def add_diff_eq [symmetric])
  then show ?thesis by (simp add: wi_hom_syms)
qed

lemma foldl_push_digit:
  "list_all is_dec_digit ds \<Longrightarrow> foldl push_digit 0 ds = word_of_nat (dec_value ds)"
proof (induction ds rule: rev_induct)
  case Nil
  show ?case by (simp add: dec_value_def)
next
  case (snoc d ds)
  then show ?case by (simp add: push_digit_value dec_value_snoc)
qed

subsection \<open>Running in pieces\<close>

lemma parse_append:
  "parse st req (xs @ ys) =
     (case parse st req xs of
        None \<Rightarrow> None
      | Some (r, st', req', rest) \<Rightarrow>
          (if r = indeterminate then parse st' req' ys else Some (r, st', req', rest @ ys)))"
proof (induction xs arbitrary: st req)
  case (Cons c cs)
  show ?case
  proof (cases "consume st req c")
    case (Some a)
    obtain r st' req' where "a = (r, st', req')" by (cases a)
    with Some Cons.IH [of st' req'] show ?thesis by (cases r) simp_all
  qed simp
qed simp

lemma parse_indeterminate_rest: "parse st req s = Some (indeterminate, st', req', rest) \<Longrightarrow> rest = []"
  by (induction s arbitrary: st req) (auto split: option.splits prod.splits if_splits)

subsection \<open>A NUL byte ends every parse\<close>

lemma consume_NUL: "consume st req NUL = Some (bad, st, req)"
  by (cases st) (simp_all add: not_token_conv is_ctl_conv is_digit_conv)

subsection \<open>The invariant of the parser\<close>

text \<open>
  What holds of the request while it is being filled: the method and the header names are made of
  token characters, the URI and the header values hold no control character, and in the states
  that append to the current header there is one.
\<close>

definition request_chars_ok :: "request \<Rightarrow> bool" where
  "request_chars_ok req \<longleftrightarrow>
     list_all token_char (req_method req) \<and>
     list_all (\<lambda>c. text_char c \<and> c \<noteq> SP) (req_uri req) \<and>
     list_all (\<lambda>h. hname h \<noteq> [] \<and> list_all token_char (hname h) \<and> list_all text_char (hvalue h))
       (req_headers req)"

definition in_header :: "parser_state \<Rightarrow> bool" where
  "in_header st \<longleftrightarrow>
     st \<in> {header_lws, header_name, space_before_header_value, header_value, expecting_newline_2}"

definition parser_inv :: "parser_state \<Rightarrow> request \<Rightarrow> bool" where
  "parser_inv st req \<longleftrightarrow>
     request_chars_ok req \<and> (st \<noteq> method_start \<longrightarrow> req_method req \<noteq> []) \<and>
     (in_header st \<longrightarrow> req_headers req \<noteq> [])"

lemma push_name_eq:
  "req_headers req = hs @ [h] \<Longrightarrow>
   push_name c req = Some (req\<lparr>req_headers := hs @ [h\<lparr>hname := hname h @ [c]\<rparr>]\<rparr>)"
  by (simp add: push_name_def)

lemma push_value_eq:
  "req_headers req = hs @ [h] \<Longrightarrow>
   push_value c req = Some (req\<lparr>req_headers := hs @ [h\<lparr>hvalue := hvalue h @ [c]\<rparr>]\<rparr>)"
  by (simp add: push_value_def)

lemma consume_inv:
  assumes "parser_inv st req"
  shows "\<exists>r st' req'. consume st req c = Some (r, st', req') \<and> parser_inv st' req'"
proof (cases "in_header st")
  case True
  then have "req_headers req \<noteq> []" using assms by (simp add: parser_inv_def)
  then obtain hs h where "req_headers req = hs @ [h]"
    by (metis append_butlast_last_id)
  with assms True show ?thesis
    by (cases st)
       (auto simp: parser_inv_def in_header_def request_chars_ok_def not_token_conv is_ctl_conv
          push_name_eq push_value_eq)
next
  case False
  with assms show ?thesis
    by (cases st)
       (auto simp: parser_inv_def in_header_def request_chars_ok_def not_token_conv is_ctl_conv
          push_name_def empty_header_def)
qed

end
