(* ===== verification/Request_Grammar.thy ===== *)
theory Request_Grammar
  imports Request_Parser
begin

section \<open>The language of the request parser\<close>

text \<open>
  The abstract specification of the parser: request trees (with folded header lines), their
  rendering as bytes and the request they denote. The two halves of this theory show that the
  state machine accepts exactly the renderings, with the denoted request, and leaves the bytes
  after the final newline unread.
\<close>

subsection \<open>Trees, rendering, meaning\<close>

record header_tree =
  ht_name :: string
  ht_value :: string
  ht_folds :: "(string \<times> string) list"

record request_tree =
  rt_method :: string
  rt_uri :: string
  rt_major :: string
  rt_minor :: string
  rt_headers :: "header_tree list"

definition fold_ok :: "string \<times> string \<Rightarrow> bool" where
  "fold_ok f \<longleftrightarrow>
     fst f \<noteq> [] \<and> list_all (\<lambda>c. c = SP \<or> c = TAB) (fst f) \<and>
     list_all text_char (snd f) \<and> (snd f \<noteq> [] \<longrightarrow> hd (snd f) \<noteq> SP)"

definition header_tree_ok :: "header_tree \<Rightarrow> bool" where
  "header_tree_ok t \<longleftrightarrow>
     ht_name t \<noteq> [] \<and> list_all token_char (ht_name t) \<and> list_all text_char (ht_value t) \<and>
     list_all fold_ok (ht_folds t)"

definition request_tree_ok :: "request_tree \<Rightarrow> bool" where
  "request_tree_ok t \<longleftrightarrow>
     rt_method t \<noteq> [] \<and> list_all token_char (rt_method t) \<and>
     list_all (\<lambda>c. text_char c \<and> c \<noteq> SP) (rt_uri t) \<and>
     rt_major t \<noteq> [] \<and> list_all is_dec_digit (rt_major t) \<and>
     rt_minor t \<noteq> [] \<and> list_all is_dec_digit (rt_minor t) \<and>
     list_all header_tree_ok (rt_headers t)"

definition render_folds :: "(string \<times> string) list \<Rightarrow> string" where
  "render_folds fs = concat (map (\<lambda>f. fst f @ snd f @ crlf) fs)"

definition render_header :: "header_tree \<Rightarrow> string" where
  "render_header t = ht_name t @ '': '' @ ht_value t @ crlf @ render_folds (ht_folds t)"

definition render_headers :: "header_tree list \<Rightarrow> string" where
  "render_headers ts = concat (map render_header ts)"

definition render_request :: "request_tree \<Rightarrow> string" where
  "render_request t =
     rt_method t @ '' '' @ rt_uri t @ '' HTTP/'' @ rt_major t @ ''.'' @ rt_minor t @ crlf @
     render_headers (rt_headers t) @ crlf"

definition denote_header :: "header_tree \<Rightarrow> header" where
  "denote_header t = \<lparr>hname = ht_name t, hvalue = ht_value t @ concat (map snd (ht_folds t))\<rparr>"

definition denote_request :: "request_tree \<Rightarrow> request" where
  "denote_request t =
     \<lparr>req_method = rt_method t, req_uri = rt_uri t,
      http_version_major = word_of_nat (dec_value (rt_major t)),
      http_version_minor = word_of_nat (dec_value (rt_minor t)),
      req_headers = map denote_header (rt_headers t)\<rparr>"

subsection \<open>States that collect characters up to a stop character\<close>

abbreviation accepts :: "parser_state \<Rightarrow> request \<Rightarrow> string \<Rightarrow> request \<Rightarrow> string \<Rightarrow> bool" where
  "accepts st req s r rest \<equiv> parse st req s = Some (good, expecting_newline_3, r, rest)"

text \<open>
  Six states of the machine have the same shape: append the characters of a class to one field
  and leave at a stop character. The contract, and what it gives for whole strings.
\<close>

locale scan_state =
  fixes st :: parser_state
    and stop :: char
    and next_st :: parser_state
    and cls :: "char \<Rightarrow> bool"
    and upd :: "string \<Rightarrow> request \<Rightarrow> request"
    and pre :: "request \<Rightarrow> bool"
  assumes stop_step: "pre r \<Longrightarrow> consume st r stop = Some (indeterminate, next_st, r)"
    and class_step: "pre r \<Longrightarrow> c \<noteq> stop \<Longrightarrow> cls c \<Longrightarrow> consume st r c = Some (indeterminate, st, upd [c] r)"
    and reject_step: "pre r \<Longrightarrow> c \<noteq> stop \<Longrightarrow> \<not> cls c \<Longrightarrow> consume st r c = Some (bad, st, r)"
    and stop_class: "\<not> cls stop"
    and upd_Nil: "pre r \<Longrightarrow> upd [] r = r"
    and upd_Cons: "pre r \<Longrightarrow> upd (c # w) r = upd w (upd [c] r)"
    and upd_pre: "pre r \<Longrightarrow> pre (upd [c] r)"
begin

lemma scan_forward:
  "pre r \<Longrightarrow> list_all cls w \<Longrightarrow> parse st r (w @ stop # s) = parse next_st (upd w r) s"
proof (induction w arbitrary: r)
  case Nil
  then show ?case by (simp add: stop_step upd_Nil)
next
  case (Cons c w)
  then have "c \<noteq> stop" using stop_class by auto
  with Cons show ?case by (simp add: class_step upd_Cons [of r c w] upd_pre)
qed

lemma scan_backward:
  "pre r \<Longrightarrow> accepts st r s q rest \<Longrightarrow>
   \<exists>w s'. s = w @ stop # s' \<and> list_all cls w \<and> accepts next_st (upd w r) s' q rest"
proof (induction s arbitrary: r)
  case Nil
  then show ?case by simp
next
  case (Cons c s)
  consider "c = stop" | "c \<noteq> stop" "cls c" | "c \<noteq> stop" "\<not> cls c" by blast
  then show ?case
  proof cases
    case 1
    with Cons.prems show ?thesis
      by (intro exI [of _ "[]"] exI [of _ s]) (simp add: stop_step upd_Nil)
  next
    case 2
    with Cons.prems have "accepts st (upd [c] r) s q rest" by (simp add: class_step)
    then obtain w s' where "s = w @ stop # s'" "list_all cls w"
        "accepts next_st (upd w (upd [c] r)) s' q rest"
      using Cons.IH Cons.prems(1) upd_pre by blast
    with 2 Cons.prems(1) show ?thesis
      by (intro exI [of _ "c # w"] exI [of _ s']) (simp add: upd_Cons [of r c w])
  next
    case 3
    with Cons.prems show ?thesis by (simp add: reject_step)
  qed
qed

lemma scan_iff:
  "pre r \<Longrightarrow>
   accepts st r s q rest \<longleftrightarrow>
   (\<exists>w s'. s = w @ stop # s' \<and> list_all cls w \<and> accepts next_st (upd w r) s' q rest)"
  by (auto simp: scan_forward dest: scan_backward)

end

definition add_name :: "string \<Rightarrow> request \<Rightarrow> request" where
  "add_name w r =
     (let h = last (req_headers r)
      in r\<lparr>req_headers := butlast (req_headers r) @ [h\<lparr>hname := hname h @ w\<rparr>]\<rparr>)"

definition add_value :: "string \<Rightarrow> request \<Rightarrow> request" where
  "add_value w r =
     (let h = last (req_headers r)
      in r\<lparr>req_headers := butlast (req_headers r) @ [h\<lparr>hvalue := hvalue h @ w\<rparr>]\<rparr>)"

lemma push_name_add: "req_headers r \<noteq> [] \<Longrightarrow> push_name c r = Some (add_name [c] r)"
  by (simp add: push_name_def add_name_def Let_def)

lemma push_value_add: "req_headers r \<noteq> [] \<Longrightarrow> push_value c r = Some (add_value [c] r)"
  by (simp add: push_value_def add_value_def Let_def)

lemma add_headers_nonempty [simp]:
  "req_headers (add_name w r) \<noteq> []" "req_headers (add_value w r) \<noteq> []"
  by (simp_all add: add_name_def add_value_def Let_def)

lemma header_update_id [simp]: "h\<lparr>hname := hname h\<rparr> = h" "h\<lparr>hvalue := hvalue h\<rparr> = h"
  by (cases h; simp)+

lemma add_value_simps:
  "req_headers r \<noteq> [] \<Longrightarrow> add_value [] r = r"
  "add_value v (add_value w r) = add_value (w @ v) r"
  by (simp_all add: add_value_def Let_def)

lemma add_name_simps:
  "req_headers r \<noteq> [] \<Longrightarrow> add_name [] r = r"
  "add_name v (add_name w r) = add_name (w @ v) r"
  by (simp_all add: add_name_def Let_def)

interpretation sc_method: scan_state method_state SP uri token_char
    "\<lambda>w r. r\<lparr>req_method := req_method r @ w\<rparr>" "\<lambda>_. True"
  by unfold_locales (simp_all add: not_token_conv)

interpretation sc_uri: scan_state uri SP http_version_h "\<lambda>c. text_char c \<and> c \<noteq> SP"
    "\<lambda>w r. r\<lparr>req_uri := req_uri r @ w\<rparr>" "\<lambda>_. True"
  by unfold_locales (simp_all add: is_ctl_conv)

interpretation sc_major: scan_state http_version_major_state "CHR ''.''" http_version_minor_start is_dec_digit
    "\<lambda>w r. r\<lparr>http_version_major := foldl push_digit (http_version_major r) w\<rparr>" "\<lambda>_. True"
  by unfold_locales (simp_all add: is_digit_conv)

interpretation sc_minor: scan_state http_version_minor_state CR expecting_newline_1 is_dec_digit
    "\<lambda>w r. r\<lparr>http_version_minor := foldl push_digit (http_version_minor r) w\<rparr>" "\<lambda>_. True"
  by unfold_locales (simp_all add: is_digit_conv)

interpretation sc_name: scan_state header_name "CHR '':''" space_before_header_value token_char
    add_name "\<lambda>r. req_headers r \<noteq> []"
  by unfold_locales (simp_all add: not_token_conv push_name_add add_name_simps)

interpretation sc_value: scan_state header_value CR expecting_newline_2 text_char
    add_value "\<lambda>r. req_headers r \<noteq> []"
  by unfold_locales (simp_all add: is_ctl_conv push_value_add add_value_simps)

subsection \<open>States that expect one character\<close>

lemma accepts_literals:
  "accepts http_version_h r s q rest \<longleftrightarrow> (\<exists>s'. s = CHR ''H'' # s' \<and> accepts http_version_t_1 r s' q rest)"
  "accepts http_version_t_1 r s q rest \<longleftrightarrow> (\<exists>s'. s = CHR ''T'' # s' \<and> accepts http_version_t_2 r s' q rest)"
  "accepts http_version_t_2 r s q rest \<longleftrightarrow> (\<exists>s'. s = CHR ''T'' # s' \<and> accepts http_version_p r s' q rest)"
  "accepts http_version_p r s q rest \<longleftrightarrow> (\<exists>s'. s = CHR ''P'' # s' \<and> accepts http_version_slash r s' q rest)"
  "accepts http_version_slash r s q rest \<longleftrightarrow>
     (\<exists>s'. s = CHR ''/'' # s' \<and>
        accepts http_version_major_start (r\<lparr>http_version_major := 0, http_version_minor := 0\<rparr>) s' q rest)"
  "accepts expecting_newline_1 r s q rest \<longleftrightarrow> (\<exists>s'. s = LF # s' \<and> accepts header_line_start r s' q rest)"
  "accepts expecting_newline_2 r s q rest \<longleftrightarrow> (\<exists>s'. s = LF # s' \<and> accepts header_line_start r s' q rest)"
  "accepts expecting_newline_3 r s q rest \<longleftrightarrow> s = LF # rest \<and> q = r"
  "accepts space_before_header_value r s q rest \<longleftrightarrow> (\<exists>s'. s = SP # s' \<and> accepts header_value r s' q rest)"
  by (cases s; auto)+

lemma accepts_start:
  "accepts method_start r s q rest \<longleftrightarrow>
     (\<exists>c s'. s = c # s' \<and> token_char c \<and> accepts method_state (r\<lparr>req_method := req_method r @ [c]\<rparr>) s' q rest)"
  by (cases s) (auto simp: not_token_conv)

lemma accepts_version_start:
  "accepts http_version_major_start r s q rest \<longleftrightarrow>
     (\<exists>c s'. s = c # s' \<and> is_dec_digit c \<and>
        accepts http_version_major_state (r\<lparr>http_version_major := push_digit (http_version_major r) c\<rparr>) s' q rest)"
  "accepts http_version_minor_start r s q rest \<longleftrightarrow>
     (\<exists>c s'. s = c # s' \<and> is_dec_digit c \<and>
        accepts http_version_minor_state (r\<lparr>http_version_minor := push_digit (http_version_minor r) c\<rparr>) s' q rest)"
  by (cases s; auto simp: is_digit_conv)+

text \<open>The same peeled over the whole word, so that a state's word is never empty.\<close>

lemma accepts_method:
  "accepts method_start r s q rest \<longleftrightarrow>
     (\<exists>w s'. s = w @ SP # s' \<and> w \<noteq> [] \<and> list_all token_char w \<and>
        accepts uri (r\<lparr>req_method := req_method r @ w\<rparr>) s' q rest)" (is "?L = ?R")
proof
  assume ?L
  then obtain c w s' where "s = c # w @ SP # s'" "token_char c" "list_all token_char w"
      "accepts uri (r\<lparr>req_method := req_method r @ c # w\<rparr>) s' q rest"
    by (auto simp: accepts_start sc_method.scan_iff)
  then show ?R by (intro exI [of _ "c # w"] exI [of _ s']) simp
next
  assume ?R
  then obtain w s' where w: "s = w @ SP # s'" "w \<noteq> []" "list_all token_char w"
      "accepts uri (r\<lparr>req_method := req_method r @ w\<rparr>) s' q rest"
    by blast
  then show ?L by (cases w) (auto simp: not_token_conv sc_method.scan_iff)
qed

lemma accepts_major:
  "accepts http_version_major_start r s q rest \<longleftrightarrow>
     (\<exists>w s'. s = w @ CHR ''.'' # s' \<and> w \<noteq> [] \<and> list_all is_dec_digit w \<and>
        accepts http_version_minor_start
          (r\<lparr>http_version_major := foldl push_digit (http_version_major r) w\<rparr>) s' q rest)" (is "?L = ?R")
proof
  assume ?L
  then obtain c w s' where "s = c # w @ CHR ''.'' # s'" "is_dec_digit c" "list_all is_dec_digit w"
      "accepts http_version_minor_start
         (r\<lparr>http_version_major := foldl push_digit (http_version_major r) (c # w)\<rparr>) s' q rest"
    by (auto simp: accepts_version_start sc_major.scan_iff)
  then show ?R by (intro exI [of _ "c # w"] exI [of _ s']) simp
next
  assume ?R
  then obtain w s' where "s = w @ CHR ''.'' # s'" "w \<noteq> []" "list_all is_dec_digit w"
      "accepts http_version_minor_start
         (r\<lparr>http_version_major := foldl push_digit (http_version_major r) w\<rparr>) s' q rest"
    by blast
  then show ?L by (cases w) (auto simp: is_digit_conv sc_major.scan_iff)
qed

lemma accepts_minor:
  "accepts http_version_minor_start r s q rest \<longleftrightarrow>
     (\<exists>w s'. s = w @ CR # s' \<and> w \<noteq> [] \<and> list_all is_dec_digit w \<and>
        accepts expecting_newline_1
          (r\<lparr>http_version_minor := foldl push_digit (http_version_minor r) w\<rparr>) s' q rest)" (is "?L = ?R")
proof
  assume ?L
  then obtain c w s' where "s = c # w @ CR # s'" "is_dec_digit c" "list_all is_dec_digit w"
      "accepts expecting_newline_1
         (r\<lparr>http_version_minor := foldl push_digit (http_version_minor r) (c # w)\<rparr>) s' q rest"
    by (auto simp: accepts_version_start sc_minor.scan_iff)
  then show ?R by (intro exI [of _ "c # w"] exI [of _ s']) simp
next
  assume ?R
  then obtain w s' where "s = w @ CR # s'" "w \<noteq> []" "list_all is_dec_digit w"
      "accepts expecting_newline_1
         (r\<lparr>http_version_minor := foldl push_digit (http_version_minor r) w\<rparr>) s' q rest"
    by blast
  then show ?L by (cases w) (auto simp: is_digit_conv sc_minor.scan_iff)
qed

subsection \<open>Header lines and their folds\<close>

lemma accepts_lws:
  assumes "req_headers r \<noteq> []"
  shows "accepts header_lws r s q rest \<longleftrightarrow>
     (\<exists>ws tx s'. s = ws @ tx @ CR # LF # s' \<and> list_all (\<lambda>c. c = SP \<or> c = TAB) ws \<and>
        list_all text_char tx \<and> (tx \<noteq> [] \<longrightarrow> hd tx \<noteq> SP) \<and>
        accepts header_line_start (add_value tx r) s' q rest)" (is "?L s \<longleftrightarrow> ?R s")
proof (induction s)
  case Nil
  show ?case by simp
next
  case (Cons c s)
  consider "c = CR" | "c = SP \<or> c = TAB" | "c \<noteq> SP" "text_char c" | "c \<noteq> CR" "c \<noteq> TAB" "\<not> text_char c"
    by (metis text_char_facts(2,3))
  then show ?case
  proof cases
    case 1
    have "?R (c # s) \<longleftrightarrow> (\<exists>s'. s = LF # s' \<and> accepts header_line_start r s' q rest)"
    proof
      assume "?R (c # s)"
      then obtain ws tx s' where *: "c # s = ws @ tx @ CR # LF # s'"
          "list_all (\<lambda>c. c = SP \<or> c = TAB) ws" "list_all text_char tx"
          "accepts header_line_start (add_value tx r) s' q rest"
        by blast
      with 1 have "ws = []" "tx = []" by (cases ws; cases tx; auto)+
      with * show "\<exists>s'. s = LF # s' \<and> accepts header_line_start r s' q rest"
        using assms by (simp add: add_value_simps)
    next
      assume "\<exists>s'. s = LF # s' \<and> accepts header_line_start r s' q rest"
      then obtain s' where "s = LF # s'" "accepts header_line_start r s' q rest" by blast
      with 1 assms show "?R (c # s)"
        by (intro exI [of _ "[]"] exI [of _ s']) (simp add: add_value_simps)
    qed
    with 1 show ?thesis by (simp add: accepts_literals)
  next
    case 2
    then have "?L (c # s) \<longleftrightarrow> ?L s" by auto
    also have "\<dots> \<longleftrightarrow> ?R s" by (rule Cons.IH)
    also have "\<dots> \<longleftrightarrow> ?R (c # s)"
    proof
      assume "?R s"
      then obtain ws tx s' where "s = ws @ tx @ CR # LF # s'" "list_all (\<lambda>c. c = SP \<or> c = TAB) ws"
          "list_all text_char tx" "tx \<noteq> [] \<longrightarrow> hd tx \<noteq> SP"
          "accepts header_line_start (add_value tx r) s' q rest"
        by blast
      with 2 show "?R (c # s)" by (intro exI [of _ "c # ws"] exI [of _ tx] exI [of _ s']) simp
    next
      assume "?R (c # s)"
      then obtain ws tx s' where *: "c # s = ws @ tx @ CR # LF # s'"
          "list_all (\<lambda>c. c = SP \<or> c = TAB) ws" "list_all text_char tx" "tx \<noteq> [] \<longrightarrow> hd tx \<noteq> SP"
          "accepts header_line_start (add_value tx r) s' q rest"
        by blast
      with 2 have "ws \<noteq> []" by (cases tx) auto
      then obtain w ws' where "ws = w # ws'" by (cases ws) auto
      with * show "?R s" by (intro exI [of _ ws'] exI [of _ tx] exI [of _ s']) simp
    qed
    finally show ?thesis .
  next
    case 3
    then have "?L (c # s) \<longleftrightarrow> accepts header_value (add_value [c] r) s q rest"
      using assms by (cases "c = CR"; cases "c = TAB") (simp_all add: is_ctl_conv push_value_add)
    also have "\<dots> \<longleftrightarrow> (\<exists>w s'. s = w @ CR # LF # s' \<and> list_all text_char w \<and>
        accepts header_line_start (add_value (c # w) r) s' q rest)"
      by (auto simp: sc_value.scan_iff accepts_literals add_value_simps)
    also have "\<dots> \<longleftrightarrow> ?R (c # s)"
    proof
      assume "\<exists>w s'. s = w @ CR # LF # s' \<and> list_all text_char w \<and>
        accepts header_line_start (add_value (c # w) r) s' q rest"
      then obtain w s' where "s = w @ CR # LF # s'" "list_all text_char w"
        "accepts header_line_start (add_value (c # w) r) s' q rest" by blast
      with 3 show "?R (c # s)" by (intro exI [of _ "[]"] exI [of _ "c # w"] exI [of _ s']) simp
    next
      assume "?R (c # s)"
      then obtain ws tx s' where *: "c # s = ws @ tx @ CR # LF # s'"
          "list_all (\<lambda>c. c = SP \<or> c = TAB) ws" "list_all text_char tx"
          "accepts header_line_start (add_value tx r) s' q rest"
        by blast
      with 3 have "ws = []" by (cases ws) auto
      with * 3 obtain w where "tx = c # w" by (cases tx) auto
      with * \<open>ws = []\<close> show "\<exists>w s'. s = w @ CR # LF # s' \<and> list_all text_char w \<and>
        accepts header_line_start (add_value (c # w) r) s' q rest"
        by (intro exI [of _ w] exI [of _ s']) simp
    qed
    finally show ?thesis .
  next
    case 4
    have "\<not> ?R (c # s)"
      using 4 by (auto simp: Cons_eq_append_conv)
    moreover have "\<not> ?L (c # s)" using 4 by (cases "c = SP") (simp_all add: is_ctl_conv)
    ultimately show ?thesis by blast
  qed
qed

definition add_header :: "string \<Rightarrow> string \<Rightarrow> request \<Rightarrow> request" where
  "add_header n v r = r\<lparr>req_headers := req_headers r @ [\<lparr>hname = n, hvalue = v\<rparr>]\<rparr>"

lemma add_header_simps [simp]:
  "req_headers (add_header n v r) = req_headers r @ [\<lparr>hname = n, hvalue = v\<rparr>]"
  "add_name w (add_header n v r) = add_header (n @ w) v r"
  "add_value w (add_header n v r) = add_header n (v @ w) r"
  by (simp_all add: add_header_def add_name_def add_value_def)

lemma accepts_name:
  "accepts header_name (add_header n [] r) s q rest \<longleftrightarrow>
     (\<exists>w v s'. s = w @ '': '' @ v @ crlf @ s' \<and> list_all token_char w \<and> list_all text_char v \<and>
        accepts header_line_start (add_header (n @ w) v r) s' q rest)"
  by (simp add: sc_name.scan_iff accepts_literals sc_value.scan_iff crlf_def) blast

text \<open>One line: the final empty line, a fold of the current header, or a new header.\<close>

lemma accepts_line_split:
  "accepts header_line_start r s q rest \<longleftrightarrow>
     (s = CR # LF # rest \<and> q = r) \<or>
     (\<exists>c s'. s = c # s' \<and> req_headers r \<noteq> [] \<and> (c = SP \<or> c = TAB) \<and> accepts header_lws r s' q rest) \<or>
     (\<exists>c s'. s = c # s' \<and> token_char c \<and> accepts header_name (add_header [c] [] r) s' q rest)"
proof (cases s)
  case Nil
  then show ?thesis by simp
next
  case (Cons c s')
  consider "c = CR" | "req_headers r \<noteq> []" "c = SP \<or> c = TAB" | "req_headers r = []" "c = SP \<or> c = TAB"
    | "c \<noteq> CR" "c \<noteq> SP" "c \<noteq> TAB"
    by blast
  then show ?thesis
    by cases (use Cons in \<open>auto simp: accepts_literals not_token_conv push_name_def add_header_def empty_header_def\<close>)
qed

lemma accepts_line:
  "accepts header_line_start r s q rest \<longleftrightarrow>
     (s = crlf @ rest \<and> q = r) \<or>
     (\<exists>f s'. fold_ok f \<and> req_headers r \<noteq> [] \<and> s = fst f @ snd f @ crlf @ s' \<and>
        accepts header_line_start (add_value (snd f) r) s' q rest) \<or>
     (\<exists>n v s'. n \<noteq> [] \<and> list_all token_char n \<and> list_all text_char v \<and> s = n @ '': '' @ v @ crlf @ s' \<and>
        accepts header_line_start (add_header n v r) s' q rest)"
proof -
  have A: "(\<exists>c s'. s = c # s' \<and> req_headers r \<noteq> [] \<and> (c = SP \<or> c = TAB) \<and> accepts header_lws r s' q rest) \<longleftrightarrow>
    (\<exists>f s'. fold_ok f \<and> req_headers r \<noteq> [] \<and> s = fst f @ snd f @ crlf @ s' \<and>
        accepts header_line_start (add_value (snd f) r) s' q rest)" (is "?L \<longleftrightarrow> ?R")
  proof
    assume ?L
    then obtain c s0 where c: "s = c # s0" "c = SP \<or> c = TAB" "req_headers r \<noteq> []"
        "accepts header_lws r s0 q rest"
      by blast
    from c(4) obtain ws tx s' where "s0 = ws @ tx @ CR # LF # s'"
        "list_all (\<lambda>c. c = SP \<or> c = TAB) ws" "list_all text_char tx" "tx \<noteq> [] \<longrightarrow> hd tx \<noteq> SP"
        "accepts header_line_start (add_value tx r) s' q rest"
      unfolding accepts_lws [OF c(3)] by blast
    with c(1-3) show ?R by (intro exI [of _ "(c # ws, tx)"] exI [of _ s']) (simp add: fold_ok_def crlf_def)
  next
    assume ?R
    then obtain ws tx s' where *: "fold_ok (ws, tx)" "req_headers r \<noteq> []" "s = ws @ tx @ crlf @ s'"
        "accepts header_line_start (add_value tx r) s' q rest"
      by auto
    then obtain c ws' where "ws = c # ws'" by (cases ws) (auto simp: fold_ok_def)
    moreover from * this have "accepts header_lws r (ws' @ tx @ CR # LF # s') q rest"
      unfolding accepts_lws [OF *(2)]
      by (intro exI [of _ ws'] exI [of _ tx] exI [of _ s']) (simp add: fold_ok_def)
    ultimately show ?L
      using * by (intro exI [of _ c] exI [of _ "ws' @ tx @ CR # LF # s'"]) (simp add: fold_ok_def crlf_def)
  qed
  have B: "(\<exists>c s'. s = c # s' \<and> token_char c \<and> accepts header_name (add_header [c] [] r) s' q rest) \<longleftrightarrow>
    (\<exists>n v s'. n \<noteq> [] \<and> list_all token_char n \<and> list_all text_char v \<and> s = n @ '': '' @ v @ crlf @ s' \<and>
        accepts header_line_start (add_header n v r) s' q rest)" (is "?L' \<longleftrightarrow> ?R'")
  proof
    assume ?L'
    then obtain c w v s' where "s = c # w @ '': '' @ v @ crlf @ s'" "token_char c" "list_all token_char w"
        "list_all text_char v" "accepts header_line_start (add_header (c # w) v r) s' q rest"
      by (auto simp: accepts_name)
    then show ?R' by (intro exI [of _ "c # w"] exI [of _ v] exI [of _ s']) simp
  next
    assume ?R'
    then obtain n v s' where *: "n \<noteq> []" "list_all token_char n" "list_all text_char v"
        "s = n @ '': '' @ v @ crlf @ s'" "accepts header_line_start (add_header n v r) s' q rest"
      by blast
    then obtain c w where "n = c # w" by (cases n) auto
    with * show ?L'
      by (intro exI [of _ c] exI [of _ "w @ '': '' @ v @ crlf @ s'"]) (simp add: accepts_name, blast)
  qed
  show ?thesis
    unfolding accepts_line_split [of r s] A B by (simp add: crlf_def)
qed

definition add_folds :: "(string \<times> string) list \<Rightarrow> request \<Rightarrow> request" where
  "add_folds fs r = (if fs = [] then r else add_value (concat (map snd fs)) r)"

definition add_headers :: "header_tree list \<Rightarrow> request \<Rightarrow> request" where
  "add_headers ts r = r\<lparr>req_headers := req_headers r @ map denote_header ts\<rparr>"

lemma add_folds_simps [simp]:
  "add_folds [] r = r"
  "req_headers r \<noteq> [] \<Longrightarrow> add_folds fs (add_value v r) = add_value (v @ concat (map snd fs)) r"
  "add_folds fs (add_header n v r) = add_header n (v @ concat (map snd fs)) r"
  by (auto simp: add_folds_def add_value_simps)

lemma add_headers_simps [simp]:
  "add_headers [] r = r"
  "add_headers (t # ts) r =
     add_headers ts (add_header (ht_name t) (ht_value t @ concat (map snd (ht_folds t))) r)"
  by (simp_all add: add_headers_def add_header_def denote_header_def)

lemma accepts_folds:
  "list_all fold_ok fs \<Longrightarrow> fs \<noteq> [] \<longrightarrow> req_headers r \<noteq> [] \<Longrightarrow>
   accepts header_line_start (add_folds fs r) s q rest \<Longrightarrow>
   accepts header_line_start r (render_folds fs @ s) q rest"
proof (induction fs arbitrary: r)
  case Nil
  then show ?case by (simp add: render_folds_def)
next
  case (Cons f fs)
  then have "accepts header_line_start (add_value (snd f) r) (render_folds fs @ s) q rest"
    by (intro Cons.IH) (auto simp: add_folds_def add_value_simps)
  moreover have "fold_ok f" "req_headers r \<noteq> []" using Cons.prems by simp_all
  ultimately show ?case
    unfolding accepts_line [of r "render_folds (f # fs) @ s"]
    by (intro disjI2 [OF disjI1] exI [of _ f] exI [of _ "render_folds fs @ s"])
       (simp add: render_folds_def)
qed

lemma accepts_headers_forward:
  "list_all header_tree_ok ts \<Longrightarrow>
   accepts header_line_start r (render_headers ts @ crlf @ rest) (add_headers ts r) rest"
proof (induction ts arbitrary: r)
  case Nil
  show ?case by (subst accepts_line) (simp add: render_headers_def)
next
  case (Cons t ts)
  let ?r = "add_folds (ht_folds t) (add_header (ht_name t) (ht_value t) r)"
  have "add_headers ts ?r = add_headers (t # ts) r"
    by simp
  moreover have "accepts header_line_start ?r (render_headers ts @ crlf @ rest) (add_headers ts ?r) rest"
    using Cons by simp
  ultimately have "accepts header_line_start (add_header (ht_name t) (ht_value t) r)
      (render_folds (ht_folds t) @ render_headers ts @ crlf @ rest) (add_headers (t # ts) r) rest"
    using Cons.prems by (intro accepts_folds) (simp_all add: header_tree_ok_def)
  with Cons.prems show ?case
    unfolding accepts_line [of r "render_headers (t # ts) @ crlf @ rest"]
    by (intro disjI2 [OF disjI2] exI [of _ "ht_name t"] exI [of _ "ht_value t"]
          exI [of _ "render_folds (ht_folds t) @ render_headers ts @ crlf @ rest"])
       (simp add: header_tree_ok_def render_headers_def render_header_def)
qed

lemma accepts_headers_backward:
  "accepts header_line_start r s q rest \<Longrightarrow>
   \<exists>fs ts. (fs \<noteq> [] \<longrightarrow> req_headers r \<noteq> []) \<and> list_all fold_ok fs \<and> list_all header_tree_ok ts \<and>
     s = render_folds fs @ render_headers ts @ crlf @ rest \<and> q = add_headers ts (add_folds fs r)"
proof (induction s arbitrary: r rule: length_induct)
  case (1 s)
  from 1(2) consider "s = crlf @ rest" "q = r"
    | f s' where "fold_ok f" "req_headers r \<noteq> []" "s = fst f @ snd f @ crlf @ s'"
        "accepts header_line_start (add_value (snd f) r) s' q rest"
    | n v s' where "n \<noteq> []" "list_all token_char n" "list_all text_char v" "s = n @ '': '' @ v @ crlf @ s'"
        "accepts header_line_start (add_header n v r) s' q rest"
    unfolding accepts_line [of r s] by blast
  then show ?case
  proof cases
    case 1
    then show ?thesis
      by (intro exI [of _ "[]"]) (simp add: render_folds_def render_headers_def)
  next
    case 2
    then have "length s' < length s" by (simp add: crlf_def)
    with 1(1) 2(4) obtain fs ts where "list_all fold_ok fs" "list_all header_tree_ok ts"
        "s' = render_folds fs @ render_headers ts @ crlf @ rest"
        "q = add_headers ts (add_folds fs (add_value (snd f) r))"
      by blast
    with 2 show ?thesis
      by (intro exI [of _ "f # fs"] exI [of _ ts]) (simp add: render_folds_def, simp add: add_folds_def)
  next
    case 3
    then have "length s' < length s" by simp
    with 1(1) 3(5) obtain fs ts where "list_all fold_ok fs" "list_all header_tree_ok ts"
        "s' = render_folds fs @ render_headers ts @ crlf @ rest"
        "q = add_headers ts (add_folds fs (add_header n v r))"
      by blast
    with 3 show ?thesis
      by (intro exI [of _ "[] :: (string \<times> string) list"] exI [of _ "\<lparr>ht_name = n, ht_value = v, ht_folds = fs\<rparr> # ts"])
         (simp add: render_folds_def render_headers_def render_header_def
            header_tree_ok_def [of "\<lparr>ht_name = n, ht_value = v, ht_folds = fs\<rparr>"])
  qed
qed

subsection \<open>The whole request\<close>

definition blank_request :: "request \<Rightarrow> bool" where
  "blank_request r \<longleftrightarrow> req_method r = [] \<and> req_uri r = [] \<and> req_headers r = []"

lemma version_swap:
  "r\<lparr>req_method := m, req_uri := u, http_version_minor := a, http_version_major := b\<rparr>
     = r\<lparr>req_method := m, req_uri := u, http_version_major := b, http_version_minor := a\<rparr>"
  by (cases r) simp

lemma accepts_request:
  assumes "blank_request r"
  shows "accepts method_start r s q rest \<longleftrightarrow>
    (\<exists>m u j n s'. s = m @ '' '' @ u @ '' HTTP/'' @ j @ ''.'' @ n @ crlf @ s' \<and>
       m \<noteq> [] \<and> list_all token_char m \<and> list_all (\<lambda>c. text_char c \<and> c \<noteq> SP) u \<and>
       j \<noteq> [] \<and> list_all is_dec_digit j \<and> n \<noteq> [] \<and> list_all is_dec_digit n \<and>
       accepts header_line_start
         (r\<lparr>req_method := m, req_uri := u, http_version_major := word_of_nat (dec_value j),
            http_version_minor := word_of_nat (dec_value n)\<rparr>) s' q rest)" (is "_ \<longleftrightarrow> ?rhs")
proof
  assume "accepts method_start r s q rest"
  then obtain m s1 where m: "s = m @ SP # s1" "m \<noteq> []" "list_all token_char m"
      "accepts uri (r\<lparr>req_method := m\<rparr>) s1 q rest"
    using assms unfolding accepts_method by (auto simp: blank_request_def)
  from m(4) obtain u s2 where u: "s1 = u @ SP # s2" "list_all (\<lambda>c. text_char c \<and> c \<noteq> SP) u"
      "accepts http_version_h (r\<lparr>req_method := m, req_uri := u\<rparr>) s2 q rest"
    using assms by (auto simp: sc_uri.scan_iff blank_request_def)
  from u(3) obtain s3 where s3: "s2 = ''HTTP/'' @ s3"
      "accepts http_version_major_start
         (r\<lparr>req_method := m, req_uri := u, http_version_major := 0, http_version_minor := 0\<rparr>) s3 q rest"
    by (auto simp: accepts_literals)
  from s3(2) obtain j s4 where j: "s3 = j @ CHR ''.'' # s4" "j \<noteq> []" "list_all is_dec_digit j"
      "accepts http_version_minor_start
         (r\<lparr>req_method := m, req_uri := u, http_version_major := word_of_nat (dec_value j),
            http_version_minor := 0\<rparr>) s4 q rest"
    unfolding accepts_major by (auto simp: foldl_push_digit version_swap)
  from j(4) obtain n s5 where n: "s4 = n @ CR # LF # s5" "n \<noteq> []" "list_all is_dec_digit n"
      "accepts header_line_start
         (r\<lparr>req_method := m, req_uri := u, http_version_major := word_of_nat (dec_value j),
            http_version_minor := word_of_nat (dec_value n)\<rparr>) s5 q rest"
    unfolding accepts_minor by (auto simp: foldl_push_digit accepts_literals)
  show ?rhs
    by (intro exI [of _ m] exI [of _ u] exI [of _ j] exI [of _ n] exI [of _ s5])
       (use m(1-3) u(1,2) s3(1) j(1-3) n in \<open>simp add: crlf_def\<close>)
next
  assume ?rhs
  then obtain m u j n s' where *: "s = m @ '' '' @ u @ '' HTTP/'' @ j @ ''.'' @ n @ crlf @ s'"
      "m \<noteq> []" "list_all token_char m" "list_all (\<lambda>c. text_char c \<and> c \<noteq> SP) u"
      "j \<noteq> []" "list_all is_dec_digit j" "n \<noteq> []" "list_all is_dec_digit n"
    and acc: "accepts header_line_start
         (r\<lparr>req_method := m, req_uri := u, http_version_major := word_of_nat (dec_value j),
            http_version_minor := word_of_nat (dec_value n)\<rparr>) s' q rest"
    by blast
  have "accepts http_version_minor_start
         (r\<lparr>req_method := m, req_uri := u, http_version_major := word_of_nat (dec_value j),
            http_version_minor := 0\<rparr>) (n @ crlf @ s') q rest"
    unfolding accepts_minor
    by (intro exI [of _ n] exI [of _ "LF # s'"])
       (use * acc in \<open>simp add: crlf_def foldl_push_digit accepts_literals\<close>)
  then have "accepts http_version_major_start
         (r\<lparr>req_method := m, req_uri := u, http_version_major := 0, http_version_minor := 0\<rparr>)
         (j @ ''.'' @ n @ crlf @ s') q rest"
    unfolding accepts_major
    by (intro exI [of _ j] exI [of _ "n @ crlf @ s'"]) (use * in \<open>simp add: foldl_push_digit version_swap\<close>)
  then have "accepts http_version_h (r\<lparr>req_method := m, req_uri := u\<rparr>)
      (''HTTP/'' @ j @ ''.'' @ n @ crlf @ s') q rest"
    by (simp add: accepts_literals)
  moreover have "parse uri (r\<lparr>req_method := m\<rparr>) (u @ SP # (''HTTP/'' @ j @ ''.'' @ n @ crlf @ s'))
      = parse http_version_h (r\<lparr>req_method := m, req_uri := req_uri (r\<lparr>req_method := m\<rparr>) @ u\<rparr>)
          (''HTTP/'' @ j @ ''.'' @ n @ crlf @ s')"
    by (rule sc_uri.scan_forward [OF TrueI *(4)])
  ultimately have "accepts uri (r\<lparr>req_method := m\<rparr>) (u @ '' HTTP/'' @ j @ ''.'' @ n @ crlf @ s') q rest"
    using assms by (simp add: blank_request_def)
  then show "accepts method_start r s q rest"
    unfolding accepts_method using * assms
    by (intro exI [of _ m] exI [of _ "u @ '' HTTP/'' @ j @ ''.'' @ n @ crlf @ s'"])
       (simp add: blank_request_def)
qed

lemma accepts_iff_tree:
  assumes "blank_request r"
  shows "accepts method_start r s q rest \<longleftrightarrow>
    (\<exists>t. request_tree_ok t \<and> s = render_request t @ rest \<and> q = denote_request t)"
proof
  assume "accepts method_start r s q rest"
  then obtain m u j n s' where *: "s = m @ '' '' @ u @ '' HTTP/'' @ j @ ''.'' @ n @ crlf @ s'"
      "m \<noteq> []" "list_all token_char m" "list_all (\<lambda>c. text_char c \<and> c \<noteq> SP) u"
      "j \<noteq> []" "list_all is_dec_digit j" "n \<noteq> []" "list_all is_dec_digit n"
    and acc: "accepts header_line_start
         (r\<lparr>req_method := m, req_uri := u, http_version_major := word_of_nat (dec_value j),
            http_version_minor := word_of_nat (dec_value n)\<rparr>) s' q rest"
    unfolding accepts_request [OF assms] by blast
  from accepts_headers_backward [OF acc] obtain ts where ts: "list_all header_tree_ok ts"
      "s' = render_headers ts @ crlf @ rest"
      "q = add_headers ts (r\<lparr>req_method := m, req_uri := u, http_version_major := word_of_nat (dec_value j),
            http_version_minor := word_of_nat (dec_value n)\<rparr>)"
    using assms by (auto simp: blank_request_def render_folds_def)
  let ?t = "\<lparr>rt_method = m, rt_uri = u, rt_major = j, rt_minor = n, rt_headers = ts\<rparr>"
  have "request_tree_ok ?t" using * ts(1) by (simp add: request_tree_ok_def)
  moreover have "s = render_request ?t @ rest" using * ts(2) by (simp add: render_request_def)
  moreover have "q = denote_request ?t"
    using assms by (cases r) (simp add: ts(3) add_headers_def denote_request_def blank_request_def)
  ultimately show "\<exists>t. request_tree_ok t \<and> s = render_request t @ rest \<and> q = denote_request t"
    by blast
next
  assume "\<exists>t. request_tree_ok t \<and> s = render_request t @ rest \<and> q = denote_request t"
  then obtain t where t: "request_tree_ok t" "s = render_request t @ rest" "q = denote_request t" by blast
  let ?r = "r\<lparr>req_method := rt_method t, req_uri := rt_uri t,
      http_version_major := word_of_nat (dec_value (rt_major t)),
      http_version_minor := word_of_nat (dec_value (rt_minor t))\<rparr>"
  have "accepts header_line_start ?r (render_headers (rt_headers t) @ crlf @ rest)
      (add_headers (rt_headers t) ?r) rest"
    using t(1) by (intro accepts_headers_forward) (simp add: request_tree_ok_def)
  moreover have "add_headers (rt_headers t) ?r = q"
    using assms by (cases r) (simp add: t(3) add_headers_def denote_request_def blank_request_def)
  ultimately show "accepts method_start r s q rest"
    unfolding accepts_request [OF assms]
    by (intro exI [of _ "rt_method t"] exI [of _ "rt_uri t"] exI [of _ "rt_major t"]
          exI [of _ "rt_minor t"] exI [of _ "render_headers (rt_headers t) @ crlf @ rest"])
       (use t in \<open>simp add: request_tree_ok_def render_request_def\<close>)
qed

lemma consume_good: "consume st req c = Some (good, st', req') \<Longrightarrow> st' = expecting_newline_3"
  by (cases st) (auto split: if_splits)

lemma parse_good: "parse st req s = Some (good, st', req', rest) \<Longrightarrow> st' = expecting_newline_3"
  by (induction s arbitrary: st req) (auto split: option.splits prod.splits if_splits dest: consume_good)

subsection \<open>Printing and reading back\<close>

text \<open>The request line and headers of a request, as a client prints them.\<close>

definition tree_of_request :: "request \<Rightarrow> request_tree" where
  "tree_of_request r =
     \<lparr>rt_method = req_method r, rt_uri = req_uri r,
      rt_major = dec_string (unat (http_version_major r)),
      rt_minor = dec_string (unat (http_version_minor r)),
      rt_headers = map (\<lambda>h. \<lparr>ht_name = hname h, ht_value = hvalue h, ht_folds = []\<rparr>) (req_headers r)\<rparr>"

definition print_request :: "request \<Rightarrow> string" where
  "print_request r = render_request (tree_of_request r)"

definition blank :: request where
  "blank = \<lparr>req_method = [], req_uri = [], http_version_major = 0, http_version_minor = 0, req_headers = []\<rparr>"

definition read_request :: "string \<Rightarrow> (request \<times> string) option" where
  "read_request s =
     (case parse method_start blank s of
        Some (r, st, q, rest) \<Rightarrow> (if r = good then Some (q, rest) else None)
      | None \<Rightarrow> None)"

lemma blank_blank [simp]: "blank_request blank"
  by (simp add: blank_def blank_request_def)

definition request_ok :: "request \<Rightarrow> bool" where
  "request_ok r \<longleftrightarrow> req_method r \<noteq> [] \<and> request_chars_ok r"

lemma tree_of_request_ok: "request_ok r \<Longrightarrow> request_tree_ok (tree_of_request r)"
  by (simp add: request_ok_def request_chars_ok_def request_tree_ok_def tree_of_request_def
      list.pred_map comp_def header_tree_ok_def)

lemma denote_tree_of_request: "denote_request (tree_of_request r) = r"
proof -
  have "map (denote_header \<circ> (\<lambda>h. \<lparr>ht_name = hname h, ht_value = hvalue h, ht_folds = []\<rparr>)) hs = hs" for hs
    by (induction hs) (simp_all add: denote_header_def)
  then show ?thesis
    by (cases r) (simp add: denote_request_def tree_of_request_def comp_def)
qed

lemma read_print_request:
  assumes "request_ok r"
  shows "read_request (print_request r @ rest) = Some (r, rest)"
proof -
  have "accepts method_start blank (print_request r @ rest) r rest"
    unfolding accepts_iff_tree [OF blank_blank] print_request_def
    using tree_of_request_ok [OF assms] denote_tree_of_request [of r] by metis
  then show ?thesis by (simp add: read_request_def)
qed

interpretation request_wire: framed_codec print_request read_request "\<lambda>r. r" request_ok
  by unfold_locales (rule read_print_request)

subsection \<open>Safety of a whole run\<close>

lemma parse_inv:
  "parser_inv st req \<Longrightarrow>
   \<exists>r st' req' rest. parse st req s = Some (r, st', req', rest) \<and> parser_inv st' req'"
proof (induction s arbitrary: st req)
  case (Cons c s)
  then obtain r st' req' where "consume st req c = Some (r, st', req')" "parser_inv st' req'"
    using consume_inv by blast
  with Cons.IH show ?case by simp
qed simp

lemma parse_NUL:
  "parse st req (xs @ NUL # ys) = Some (r, st', req', rest) \<Longrightarrow> r \<noteq> indeterminate"
proof
  assume *: "parse st req (xs @ NUL # ys) = Some (r, st', req', rest)" "r = indeterminate"
  show False
  proof (cases "parse st req xs")
    case (Some a)
    obtain r1 st1 req1 rest1 where "a = (r1, st1, req1, rest1)" by (cases a)
    with Some * show False by (simp add: parse_append consume_NUL split: if_splits)
  qed (use * in \<open>simp add: parse_append\<close>)
qed

lemma parse_suffix: "parse st req s = Some (r, st', req', rest) \<Longrightarrow> suffix rest s"
  by (induction s arbitrary: st req)
     (auto split: option.splits prod.splits if_splits simp: suffix_Cons)

subsection \<open>Properties\<close>

text \<open>A request as its constructor leaves it: the two version bytes are not initialised.\<close>

definition fresh_request :: "u8 \<Rightarrow> u8 \<Rightarrow> request" where
  "fresh_request major minor =
     \<lparr>req_method = [], req_uri = [], http_version_major = major, http_version_minor = minor,
      req_headers = []\<rparr>"

lemma fresh_facts [simp]: "blank_request (fresh_request a b)" "parser_inv method_start (fresh_request a b)"
  by (simp_all add: fresh_request_def blank_request_def parser_inv_def request_chars_ok_def in_header_def)

text \<open>C1 (parser_language). The exact language of the parser: started on a fresh request it answers \<open>good\<close> exactly
  on the byte strings that begin with the rendering of a well-formed request tree (with folded
  header lines), the request it has filled in is the one the tree denotes, and the bytes behind
  the final newline are left unread.\<close>

theorem parser_language:
  "parse method_start (fresh_request major minor) s = Some (good, st, q, rest) \<longleftrightarrow>
     st = expecting_newline_3 \<and>
     (\<exists>t. request_tree_ok t \<and> s = render_request t @ rest \<and> q = denote_request t)"
  using accepts_iff_tree [of "fresh_request major minor" s q rest] parse_good
  by (metis fresh_facts(1))

text \<open>C15 (parser_safety). No input drives the parser into undefined behaviour: from every state that satisfies the
  invariant (in particular a fresh one) a parse of any bytes returns, \<open>headers.back()\<close> is never
  applied to an empty vector, the invariant holds again, the unread bytes are a suffix of the
  input and nothing is unread when more input is asked for.\<close>

theorem parser_safety:
  assumes "parser_inv st req"
  shows "\<exists>r st' req' rest. parse st req s = Some (r, st', req', rest) \<and> parser_inv st' req' \<and>
    suffix rest s \<and> (r = indeterminate \<longrightarrow> rest = [])"
  using parse_inv [OF assms, of s] parse_suffix parse_indeterminate_rest by fast

theorem parser_safety_witness:
  "\<exists>r st' req' rest. parse method_start (fresh_request 0 7) [CR, LF, SP] = Some (r, st', req', rest) \<and>
     parser_inv st' req' \<and> suffix rest [CR, LF, SP] \<and> (r = indeterminate \<longrightarrow> rest = [])"
  by (rule parser_safety) simp

text \<open>(parse_incremental). Parsing in pieces: the result on a concatenation is the result on the first part when that
  decides, and otherwise the result of going on with the saved state on the second part, so the
  way the bytes are cut into calls does not matter.\<close>

theorem parse_incremental:
  "parse st req (xs @ ys) =
     (case parse st req xs of
        None \<Rightarrow> None
      | Some (r, st', req', rest) \<Rightarrow>
          (if r = indeterminate then parse st' req' ys else Some (r, st', req', rest @ ys)))"
  by (rule parse_append)

text \<open>C22 (request_roundtrip). Requests made of legal characters survive the wire: printing a sequence of them and
  parsing the bytes request by request gives the same sequence, and the bytes behind them.\<close>

theorem request_roundtrip:
  assumes "\<And>r. r \<in> set rs \<Longrightarrow> request_ok r"
  shows "decode_n read_request (length rs) (concat (map print_request rs) @ rest) = Some (rs, rest)"
  using request_wire.decode_n_concat [OF assms, of rs rest] by simp

definition sample_request :: request where
  "sample_request =
     \<lparr>req_method = ''GET'', req_uri = ''/a%20b/'', http_version_major = 1, http_version_minor = 1,
      req_headers = [\<lparr>hname = ''Host'', hvalue = ''example.org''\<rparr>]\<rparr>"

lemma sample_request_ok: "request_ok sample_request"
  by code_simp

theorem request_roundtrip_witness:
  "decode_n read_request (length [sample_request, sample_request])
     (concat (map print_request [sample_request, sample_request]) @ ''tail'') =
     Some ([sample_request, sample_request], ''tail'')"
  by (rule request_roundtrip) (auto simp: sample_request_ok)

text \<open>(version_wraps). The version numbers are bytes: a request whose major version is the decimal number \<open>n\<close> is
  accepted for every \<open>n\<close> and parsed to the same request as with \<open>n mod 256\<close>, so HTTP/257 is
  taken for HTTP/1.\<close>

theorem version_wraps:
  assumes "request_tree_ok t"
  shows "parse method_start (fresh_request a b) (render_request (t\<lparr>rt_major := dec_string n\<rparr>) @ rest) =
         parse method_start (fresh_request a b) (render_request (t\<lparr>rt_major := dec_string (n mod 256)\<rparr>) @ rest) \<and>
         (\<exists>q. parse method_start (fresh_request a b) (render_request (t\<lparr>rt_major := dec_string n\<rparr>) @ rest) =
            Some (good, expecting_newline_3, q, rest) \<and> unat (http_version_major q) = n mod 256)"
proof -
  have acc: "accepts method_start (fresh_request a b) (render_request (t\<lparr>rt_major := dec_string k\<rparr>) @ rest)
      (denote_request (t\<lparr>rt_major := dec_string k\<rparr>)) rest" for k
    using assms unfolding accepts_iff_tree [OF fresh_facts(1)]
    by (intro exI [of _ "t\<lparr>rt_major := dec_string k\<rparr>"]) (simp add: request_tree_ok_def)
  have "(word_of_nat (n mod 256) :: u8) = word_of_nat n"
    by (rule word_of_nat_eq_iff [THEN iffD2]) (simp add: take_bit_eq_mod)
  then have "denote_request (t\<lparr>rt_major := dec_string n\<rparr>) = denote_request (t\<lparr>rt_major := dec_string (n mod 256)\<rparr>)"
    by (simp add: denote_request_def)
  moreover have "unat (http_version_major (denote_request (t\<lparr>rt_major := dec_string n\<rparr>))) = n mod 256"
    by (simp add: denote_request_def unat_of_nat)
  ultimately show ?thesis using acc [of n] acc [of "n mod 256"] by simp
qed

theorem version_wraps_witness:
  "\<exists>q. parse method_start (fresh_request 0 0)
     (render_request ((tree_of_request sample_request)\<lparr>rt_major := dec_string 257\<rparr>) @ ''tail'') =
       Some (good, expecting_newline_3, q, ''tail'') \<and> unat (http_version_major q) = 257 mod 256"
  using version_wraps [OF tree_of_request_ok [OF sample_request_ok], of 0 0 257 "''tail''"] by blast

end
