(* ===== verification/Url_Decode.thy ===== *)
theory Url_Decode
  imports Framing
begin

section \<open>Percent decoding (\<open>url_decode\<close> in \<open>whz_utils.hpp\<close>)\<close>

text \<open>
  \<open>url_decode\<close> walks over the URL by index; the model walks over the suffix that starts at the
  index, so \<open>i + 3 \<le> url.size()\<close> says that the suffix has three bytes. The two bytes after a
  percent sign are not tested for being hexadecimal digits: they are handed to a formatted
  extraction \<open>is >> std::hex >> value\<close> of a \<open>uint16_t\<close>, whose grammar (in the classic
  locale) is wider: leading white space is skipped, a sign and a \<open>0x\<close> prefix are accepted, and
  the extraction stops at the first character that does not continue the number.
\<close>

subsection \<open>Formatted extraction of an unsigned number in base 16\<close>

definition is_space :: "char \<Rightarrow> bool" where
  "is_space c \<longleftrightarrow> c \<in> {SP, TAB, LF, CHR 0x0B, CHR 0x0C, CR}"

definition hex_val :: "char \<Rightarrow> nat option" where
  "hex_val c =
     (let n = (of_char c :: nat)
      in if 48 \<le> n \<and> n \<le> 57 then Some (n - 48)
         else if 97 \<le> n \<and> n \<le> 102 then Some (n - 87)
         else if 65 \<le> n \<and> n \<le> 70 then Some (n - 55)
         else None)"

definition is_hex :: "char \<Rightarrow> bool" where
  "is_hex c \<longleftrightarrow> hex_val c \<noteq> None"

definition hex_value :: "string \<Rightarrow> nat" where
  "hex_value ds = foldl (\<lambda>n c. n * 16 + the (hex_val c)) 0 ds"

definition extract_hex16 :: "string \<Rightarrow> u16 option" where
  "extract_hex16 s =
     (let s1 = dropWhile is_space s;
          neg = (case s1 of c # _ \<Rightarrow> c = CHR ''-'' | [] \<Rightarrow> False);
          s2 = (case s1 of c # t \<Rightarrow> (if c = CHR ''-'' \<or> c = CHR ''+'' then t else s1) | [] \<Rightarrow> []);
          s3 = (case s2 of c # d # t \<Rightarrow>
                  (if c = CHR ''0'' \<and> (d = CHR ''x'' \<or> d = CHR ''X'') then t else s2) | _ \<Rightarrow> s2);
          ds = takeWhile is_hex s3;
          n = hex_value ds
      in if ds = [] \<or> 65535 < n then None
         else Some (if neg then - word_of_nat n else word_of_nat n))"

subsection \<open>The decoder\<close>

fun url_decode_loop :: "string \<Rightarrow> string \<Rightarrow> string option" where
  "url_decode_loop result [] = Some result"
| "url_decode_loop result (c # s) =
     (if c = CHR ''%'' then
        (if 3 \<le> length (c # s) then
           (case extract_hex16 (take 2 s) of
              Some v \<Rightarrow> url_decode_loop (result @ [char_of (unat v)]) (drop 2 s)
            | None \<Rightarrow> None)
         else None)
      else if c = CHR ''+'' then url_decode_loop (result @ [SP]) s
      else url_decode_loop (result @ [c]) s)"

definition url_decode :: "string \<Rightarrow> string option" where
  "url_decode url = url_decode_loop [] url"

subsection \<open>Facts about the loop\<close>

lemma url_decode_loop_acc:
  "url_decode_loop r s = map_option ((@) r) (url_decode_loop [] s)"
proof (induction s arbitrary: r rule: length_induct)
  case (1 s)
  show ?case
  proof (cases s)
    case (Cons c t)
    have IH: "url_decode_loop (r @ [x]) u = map_option ((@) r) (url_decode_loop [x] u)"
      if "length u < length s" for x u
    proof -
      have "url_decode_loop (r @ [x]) u = map_option ((@) (r @ [x])) (url_decode_loop [] u)"
           "url_decode_loop [x] u = map_option ((@) [x]) (url_decode_loop [] u)"
        using 1 that by blast+
      then show ?thesis by (cases "url_decode_loop [] u") simp_all
    qed
    show ?thesis using Cons
      by (auto simp: IH split: option.split)
  qed simp
qed

lemma url_decode_simps:
  "url_decode [] = Some []"
  "c \<noteq> CHR ''%'' \<Longrightarrow> c \<noteq> CHR ''+'' \<Longrightarrow> url_decode (c # s) = map_option ((#) c) (url_decode s)"
  "url_decode (CHR ''+'' # s) = map_option ((#) SP) (url_decode s)"
  "url_decode (CHR ''%'' # a # b # s) =
     (case extract_hex16 [a, b] of
        Some v \<Rightarrow> map_option ((#) (char_of (unat v))) (url_decode s)
      | None \<Rightarrow> None)"
  "url_decode [CHR ''%''] = None"
  "url_decode [CHR ''%'', a] = None"
proof -
  have app: "(@) [x] = (#) x" for x :: char by auto
  show "url_decode [] = Some []"
    "c \<noteq> CHR ''%'' \<Longrightarrow> c \<noteq> CHR ''+'' \<Longrightarrow> url_decode (c # s) = map_option ((#) c) (url_decode s)"
    "url_decode (CHR ''+'' # s) = map_option ((#) SP) (url_decode s)"
    "url_decode [CHR ''%''] = None" "url_decode [CHR ''%'', a] = None"
    by (simp_all add: url_decode_def url_decode_loop_acc [of "[_]"] app)
  show "url_decode (CHR ''%'' # a # b # s) =
     (case extract_hex16 [a, b] of
        Some v \<Rightarrow> map_option ((#) (char_of (unat v))) (url_decode s)
      | None \<Rightarrow> None)"
    by (auto simp: url_decode_def url_decode_loop_acc [of "[_]"] app numeral_2_eq_2 split: option.split)
qed

lemma url_decode_cases [case_names Nil plain plus escape short]:
  assumes "s = [] \<Longrightarrow> P"
    and "\<And>c t. s = c # t \<Longrightarrow> c \<noteq> CHR ''%'' \<Longrightarrow> c \<noteq> CHR ''+'' \<Longrightarrow> P"
    and "\<And>t. s = CHR ''+'' # t \<Longrightarrow> P"
    and "\<And>a b t. s = CHR ''%'' # a # b # t \<Longrightarrow> P"
    and "s = [CHR ''%''] \<or> (\<exists>a. s = [CHR ''%'', a]) \<Longrightarrow> P"
  shows P
  using assms by (metis list.exhaust)

lemma hex_val_less: "hex_val c = Some n \<Longrightarrow> n < 16"
  by (auto simp: hex_val_def Let_def split: if_splits)

lemma hex_not_special: "is_hex c \<Longrightarrow> \<not> is_space c \<and> c \<noteq> CHR ''-'' \<and> c \<noteq> CHR ''+'' \<and> c \<noteq> CHR ''x'' \<and> c \<noteq> CHR ''X''"
  by (auto simp: is_hex_def hex_val_def is_space_def Let_def split: if_splits)

lemma extract_two_hex:
  assumes "hex_val a = Some m" "hex_val b = Some n"
  shows "extract_hex16 [a, b] = Some (word_of_nat (m * 16 + n))"
proof -
  have "is_hex a" "is_hex b" using assms by (simp_all add: is_hex_def)
  moreover have "m * 16 + n < 256" using assms [THEN hex_val_less] by simp
  ultimately show ?thesis
    using assms hex_not_special by (simp add: extract_hex16_def Let_def hex_value_def)
qed

lemma extract_hex_junk:
  assumes "hex_val a = Some m" "\<not> is_hex b" "\<not> (a = CHR ''0'' \<and> (b = CHR ''x'' \<or> b = CHR ''X''))"
  shows "extract_hex16 [a, b] = Some (word_of_nat m)"
proof -
  have "is_hex a" using assms by (simp add: is_hex_def)
  moreover have "m < 16" using assms(1) by (rule hex_val_less)
  ultimately show ?thesis
    using assms hex_not_special by (auto simp: extract_hex16_def Let_def hex_value_def)
qed

text \<open>The byte an escape of two hexadecimal digits stands for.\<close>

lemma char_of_two_hex:
  "m < 16 \<Longrightarrow> n < 16 \<Longrightarrow> char_of (unat (word_of_nat (m * 16 + n) :: u16)) = (char_of (m * 16 + n) :: char)"
  by (simp add: unat_of_nat del: of_nat_add of_nat_mult)

subsection \<open>Reference encoder and decoder\<close>

definition hex_digit :: "nat \<Rightarrow> char" where
  "hex_digit n = (if n < 10 then char_of (48 + n) else char_of (87 + n))"

definition pct :: "char \<Rightarrow> string" where
  "pct c = [CHR ''%'', hex_digit (of_char c div 16), hex_digit (of_char c mod 16)]"

text \<open>
  An encoder keeps the characters of some set (never a percent or a plus sign) and escapes the
  others.
\<close>

definition pct_encode :: "(char \<Rightarrow> bool) \<Rightarrow> string \<Rightarrow> string" where
  "pct_encode keep s =
     concat (map (\<lambda>c. if keep c \<and> c \<noteq> CHR ''%'' \<and> c \<noteq> CHR ''+'' then [c] else pct c) s)"

lemma hex_val_digit: "n < 16 \<Longrightarrow> hex_val (hex_digit n) = Some n"
  by (simp add: hex_val_def hex_digit_def Let_def)

lemma url_decode_pct: "url_decode (pct c @ s) = map_option ((#) c) (url_decode s)"
proof -
  have lt: "of_char c div 16 < (16 :: nat)" "of_char c mod 16 < (16 :: nat)"
    using nat_of_char_less_256 [of c] by linarith+
  have "extract_hex16 [hex_digit (of_char c div 16), hex_digit (of_char c mod 16)]
      = Some (word_of_nat (of_char c div 16 * 16 + of_char c mod 16))"
    by (rule extract_two_hex [OF hex_val_digit [OF lt(1)] hex_val_digit [OF lt(2)]])
  moreover have "char_of (unat (word_of_nat (of_char c div 16 * 16 + of_char c mod 16) :: u16)) = c"
    unfolding char_of_two_hex [OF lt] by simp
  ultimately show ?thesis
    by (simp add: pct_def url_decode_simps)
qed

lemma url_decode_encode: "url_decode (pct_encode keep s) = Some s"
proof (induction s)
  case Nil
  show ?case by (simp add: pct_encode_def url_decode_simps)
next
  case (Cons c s)
  then show ?case
    by (simp add: pct_encode_def url_decode_simps url_decode_pct)
qed

interpretation url_text: text_codec "pct_encode keep" url_decode "\<lambda>s. s" "\<lambda>_. True" for keep
  by unfold_locales (rule url_decode_encode)

lemma url_decode_length: "url_decode s = Some r \<Longrightarrow> length r \<le> length s"
proof (induction s arbitrary: r rule: length_induct)
  case (1 s)
  show ?case
  proof (cases s rule: url_decode_cases)
    case (plain c t)
    with 1 show ?thesis by (fastforce simp: url_decode_simps)
  next
    case (plus t)
    with 1 show ?thesis by (fastforce simp: url_decode_simps)
  next
    case (escape a b t)
    with "1.prems" obtain x r' where "url_decode t = Some r'" "r = x # r'"
      by (auto simp: url_decode_simps split: option.splits)
    moreover from this have "length r' \<le> length t" using 1 escape by simp
    ultimately show ?thesis using escape by simp
  qed (use 1 in \<open>auto simp: url_decode_simps\<close>)
qed

subsection \<open>A strict decoder\<close>

text \<open>The decoder RFC 3986 asks for: a percent sign must be followed by two hexadecimal digits.\<close>

fun strict_decode :: "string \<Rightarrow> string option" where
  "strict_decode [] = Some []"
| "strict_decode (c # s) =
     (if c = CHR ''%'' then
        (case s of
           a # b # t \<Rightarrow>
             (case (hex_val a, hex_val b) of
                (Some m, Some n) \<Rightarrow> map_option ((#) (char_of (m * 16 + n))) (strict_decode t)
              | _ \<Rightarrow> None)
         | _ \<Rightarrow> None)
      else map_option ((#) (if c = CHR ''+'' then SP else c)) (strict_decode s))"

lemma strict_refined: "strict_decode s = Some r \<Longrightarrow> url_decode s = Some r"
proof (induction s arbitrary: r rule: strict_decode.induct)
  case (2 c s)
  show ?case
  proof (cases "c = CHR ''%''")
    case True
    with "2.prems" obtain a b t m n r' where e: "s = a # b # t" "hex_val a = Some m" "hex_val b = Some n"
        "strict_decode t = Some r'" "r = char_of (m * 16 + n) # r'"
      by (auto split: list.splits option.splits)
    then have "url_decode t = Some r'" using 2 True by simp
    with True e show ?thesis
      by (simp add: url_decode_simps extract_two_hex char_of_two_hex hex_val_less del: of_nat_add of_nat_mult)
  next
    case False
    with 2 show ?thesis by (auto simp: url_decode_simps)
  qed
qed (simp add: url_decode_simps)

subsection \<open>Properties\<close>

text \<open>C24 (url_roundtrip). Decoding undoes percent encoding: whatever set of characters an encoder leaves
  unescaped, the encoded form of any byte string decodes to that string.\<close>

theorem url_roundtrip: "url_decode (pct_encode keep s) = Some s"
  by (rule url_text.dec_enc) simp

text \<open>C39 (url_refines_strict). Where the strict decoder accepts, \<open>url_decode\<close> gives the same answer, and a decoded
  string is never longer than the URL.\<close>

theorem url_refines_strict:
  "(strict_decode s = Some r \<longrightarrow> url_decode s = Some r) \<and> (url_decode s = Some r \<longrightarrow> length r \<le> length s)"
  using strict_refined url_decode_length by blast

theorem url_refines_strict_witness:
  "url_decode ''/a%20b+c'' = Some ''/a b c'' \<and> length ''/a b c'' \<le> length ''/a%20b+c''"
proof -
  have "strict_decode ''/a%20b+c'' = Some ''/a b c''" by code_simp
  then show ?thesis using url_refines_strict [of "''/a%20b+c''" "''/a b c''"] by blast
qed

text \<open>(url_lenient_escape). The converse fails: an escape whose first byte is a hexadecimal digit and whose second
  is not is accepted, stands for the one-digit value, and the second byte disappears. The strict
  decoder rejects it.\<close>

theorem url_lenient_escape:
  assumes "hex_val a = Some m" "hex_val b = None" "b \<noteq> CHR ''x''" "b \<noteq> CHR ''X''"
  shows "url_decode (CHR ''%'' # a # b # s) = map_option ((#) (char_of m)) (url_decode s) \<and>
         strict_decode (CHR ''%'' # a # b # s) = None"
proof -
  have "m < 16" using assms(1) by (rule hex_val_less)
  then have "unat (word_of_nat m :: u16) = m" by (simp add: unat_of_nat)
  then show ?thesis
    using assms extract_hex_junk [of a m b] by (simp add: url_decode_simps is_hex_def)
qed

theorem url_lenient_escape_witness:
  "url_decode ''%4G%zz'' = map_option ((#) (char_of (4 :: nat))) (url_decode ''%zz'') \<and>
   strict_decode ''%4G%zz'' = None"
proof -
  have h: "hex_val (CHR ''4'') = Some 4" "hex_val (CHR ''G'') = None" by (simp_all add: hex_val_def)
  show ?thesis using url_lenient_escape [OF h, of "''%zz''"] by simp
qed

end
