(* ===== verification/Request_Handler.thy ===== *)
theory Request_Handler
  imports Http_Common Url_Decode
begin

section \<open>The request handler (\<open>whz_request_handler.cpp\<close>)\<close>

text \<open>
  The handler decodes the URI, checks it, opens a file below the document root and fills the
  reply. The file system is a parameter: \<open>fs p\<close> is \<open>None\<close> when an \<open>ifstream\<close> on the path
  \<open>p\<close> does not open, and otherwise the bytes it delivers. The stream is opened on the C string
  of the path, so a NUL byte (which \<open>%00\<close> decodes to) cuts the path there; \<open>c_str\<close> says so.
\<close>

type_synonym file_system = "string \<Rightarrow> string option"

text \<open>The loop that appends the stream to the content in pieces of 512 bytes.\<close>

function read_loop :: "string \<Rightarrow> string \<Rightarrow> string" where
  "read_loop acc stream =
     (let buf = take 512 stream
      in if length buf > 0 then read_loop (acc @ buf) (drop 512 stream) else acc)"
  by pat_completeness auto
termination
  by (relation "measure (\<lambda>(acc, stream). length stream)") auto

declare read_loop.simps [simp del]

definition bad_path :: "string \<Rightarrow> bool" where
  "bad_path p \<longleftrightarrow> p = [] \<or> \<not> starts_with p ''/'' \<or> contains p ''..''"

definition index_path :: "string \<Rightarrow> string" where
  "index_path p = (if p ! (length p - 1) = CHR ''/'' then p @ ''index.html'' else p)"

definition handle_request :: "file_system \<Rightarrow> string \<Rightarrow> request \<Rightarrow> reply \<Rightarrow> reply" where
  "handle_request fs document_root req rep =
     (case url_decode (req_uri req) of
        None \<Rightarrow> stock_reply bad_request
      | Some req_path \<Rightarrow>
          (if bad_path req_path then stock_reply bad_request
           else let full_path = document_root @ index_path req_path
                in case fs (c_str full_path) of
                     None \<Rightarrow> stock_reply not_found
                   | Some stream \<Rightarrow>
                       (let rep1 = rep\<lparr>status := ok\<rparr>;
                            rep2 = rep1\<lparr>content := read_loop (content rep1) stream\<rparr>
                        in rep2\<lparr>rep_headers :=
                              set_content_headers (length (content rep2)) (rep_headers rep2)\<rparr>)))"

lemma read_loop_eq: "read_loop acc stream = acc @ stream"
proof (induction acc stream rule: read_loop.induct)
  case (1 acc stream)
  show ?case
  proof (cases "stream = []")
    case False
    then have "read_loop acc stream = read_loop (acc @ take 512 stream) (drop 512 stream)"
      by (subst read_loop.simps) simp
    with 1 False show ?thesis by simp
  qed (subst read_loop.simps, simp)
qed

lemma handle_request_unfold:
  "handle_request fs root req rep =
     (case url_decode (req_uri req) of
        None \<Rightarrow> stock_reply bad_request
      | Some p \<Rightarrow>
          (if bad_path p then stock_reply bad_request
           else case fs (c_str (root @ index_path p)) of
                  None \<Rightarrow> stock_reply not_found
                | Some bytes \<Rightarrow>
                    \<lparr>status = ok,
                     rep_headers = set_content_headers (length (content rep @ bytes)) (rep_headers rep),
                     content = content rep @ bytes\<rparr>))"
  by (cases rep) (simp add: handle_request_def read_loop_eq Let_def split: option.split)

lemma handle_request_ok: "reply_ok (handle_request fs root req rep)"
  by (auto simp: handle_request_unfold intro!: content_headers_ok split: option.split)

subsection \<open>Paths and their lexical normal form\<close>

text \<open>
  The components of a path, and the walk over them that a file system does without symbolic
  links: a dot or an empty component stays, two dots go to the parent.
\<close>

fun components :: "string \<Rightarrow> string list" where
  "components [] = [[]]"
| "components (c # s) =
     (if c = CHR ''/'' then [] # components s
      else (c # hd (components s)) # tl (components s))"

fun walk :: "string list \<Rightarrow> string list \<Rightarrow> string list" where
  "walk dir [] = dir"
| "walk dir (c # cs) =
     (if c = [] \<or> c = ''.'' then walk dir cs
      else if c = ''..'' then walk (butlast dir) cs
      else walk (dir @ [c]) cs)"

definition normal_form :: "string \<Rightarrow> string list" where
  "normal_form p = walk [] (components p)"

text \<open>\<open>p\<close> names something in the directory \<open>root\<close> or below.\<close>

definition below :: "string \<Rightarrow> string \<Rightarrow> bool" where
  "below root p \<longleftrightarrow> prefix (normal_form root) (normal_form p)"

lemma components_nonempty [simp]: "components s \<noteq> []"
  by (cases s) auto

lemma components_append_slash:
  "components (a @ CHR ''/'' # b) = components a @ components b"
  by (induction a) auto

lemma walk_append: "walk dir (xs @ ys) = walk (walk dir xs) ys"
  by (induction xs arbitrary: dir) auto

lemma walk_down: "''..'' \<notin> set cs \<Longrightarrow> prefix dir (walk dir cs)"
proof (induction cs arbitrary: dir)
  case (Cons c cs)
  have "prefix (dir @ [c]) (walk (dir @ [c]) cs)" using Cons by simp
  then have "prefix dir (walk (dir @ [c]) cs)" by (rule append_prefixD)
  with Cons show ?case by auto
qed simp

lemma component_contains: "c \<in> set (components s) \<Longrightarrow> \<exists>a b. s = a @ c @ b"
proof (induction s arbitrary: c)
  case Nil
  then show ?case by simp
next
  case (Cons x s)
  have "c = [] \<or> c \<in> set (components s) \<or> c = x # hd (components s)"
    using Cons.prems list.set_sel(2) [OF components_nonempty [of s]] by (auto split: if_splits)
  then consider "c = []" | "c \<in> set (components s)" | "c = x # hd (components s)"
    by blast
  then show ?case
  proof cases
    case 1
    then have "x # s = [] @ c @ (x # s)" by simp
    then show ?thesis by blast
  next
    case 2
    then obtain a b where "s = a @ c @ b" using Cons.IH by blast
    then have "x # s = (x # a) @ c @ b" by simp
    then show ?thesis by blast
  next
    case 3
    have "\<exists>b. s = hd (components s) @ b" for s
      by (induction s) (auto simp: Cons_eq_append_conv)
    with 3 have "\<exists>b. x # s = [] @ c @ b" by simp
    then show ?thesis by blast
  qed
qed

lemma below_no_dotdot:
  assumes "starts_with q ''/''" "''..'' \<notin> set (components q)"
  shows "below root (root @ q)"
proof -
  obtain q' where q: "q = CHR ''/'' # q'"
    using assms(1) by (cases q) (auto simp: starts_with_def)
  then have "''..'' \<notin> set (components q')" using assms(2) by simp
  then show ?thesis
    by (simp add: q below_def normal_form_def components_append_slash walk_append walk_down)
qed

lemma no_dotdot_component: "prefix s p \<Longrightarrow> \<not> contains p ''..'' \<Longrightarrow> ''..'' \<notin> set (components s)"
proof
  assume *: "prefix s p" "\<not> contains p ''..''" "''..'' \<in> set (components s)"
  then obtain a b t where "s = a @ ''..'' @ b" "p = s @ t"
    by (auto simp: prefix_def dest: component_contains)
  then have "p = a @ ''..'' @ (b @ t)" by simp
  with * show False unfolding contains_iff by blast
qed

lemma c_str_index_path:
  assumes "\<not> bad_path p"
  shows "starts_with (c_str (index_path p)) ''/'' \<and> ''..'' \<notin> set (components (c_str (index_path p)))"
proof
  from assms obtain p' where p: "p = CHR ''/'' # p'" "\<not> contains p ''..''"
    by (cases p) (auto simp: bad_path_def starts_with_def)
  then show "starts_with (c_str (index_path p)) ''/''"
    by (simp add: index_path_def c_str_def starts_with_def)
  show "''..'' \<notin> set (components (c_str (index_path p)))"
  proof (cases "last p = CHR ''/'' \<and> NUL \<notin> set p")
    case True
    have "p = butlast p @ [CHR ''/'']"
      using p(1) True append_butlast_last_id [of p] by simp
    then obtain y where y: "butlast p = y" "p = y @ [CHR ''/'']" by blast
    have "c_str (index_path p) = y @ CHR ''/'' # ''index.html''"
      using True unfolding y(2) by (auto simp: index_path_def c_str_def takeWhile_append2)
    moreover have "''..'' \<notin> set (components (butlast p))"
      using p(2) by (rule no_dotdot_component [OF prefixeq_butlast])
    ultimately show ?thesis using y(1) by (simp add: components_append_slash)
  next
    case False
    have "prefix (c_str (index_path p)) p"
    proof (cases "NUL \<in> set p")
      case True
      then have "c_str (p @ x) = c_str p" for x by (auto simp: c_str_def)
      then show ?thesis by (simp add: index_path_def c_str_prefix)
    next
      case False
      with \<open>\<not> (last p = CHR ''/'' \<and> NUL \<notin> set p)\<close> have l: "last p \<noteq> CHR ''/''"
        by simp
      have "p \<noteq> []" using p(1) by auto
      then have "last p = p ! (length p - 1)" by (rule last_conv_nth)
      with l have "index_path p = p" by (simp add: index_path_def)
      then show ?thesis by (simp add: c_str_prefix)
    qed
    then show ?thesis using p(2) by (rule no_dotdot_component)
  qed
qed

lemma opened_path_below:
  assumes "\<not> bad_path p" "NUL \<notin> set root"
  shows "below root (c_str (root @ index_path p))"
proof -
  have "c_str root = root" using assms(2) by (auto simp: c_str_def takeWhile_eq_all_conv)
  then have "c_str (root @ index_path p) = root @ c_str (index_path p)"
    by (rule c_str_append)
  with c_str_index_path [OF assms(1)] show ?thesis by (simp add: below_no_dotdot)
qed

text \<open>The handler's result depends on the file system only through the files below the root.\<close>

lemma handle_request_confined:
  assumes "NUL \<notin> set root" "\<And>p. below root p \<Longrightarrow> fs p = fs' p"
  shows "handle_request fs root req rep = handle_request fs' root req rep"
  using assms opened_path_below [OF _ assms(1)]
  by (simp add: handle_request_unfold split: option.split)

subsection \<open>Properties\<close>

text \<open>C16 (handler_confined). The handler never looks outside the document root: for a root without NUL, two file
  systems that agree on the paths at or below the root (after lexical normalisation, so two dots
  go up) give the same reply to every request.\<close>

theorem handler_confined:
  assumes "NUL \<notin> set root" "\<And>p. below root p \<Longrightarrow> fs p = fs' p"
  shows "handle_request fs root req rep = handle_request fs' root req rep"
  using assms by (rule handle_request_confined)

definition sample_get :: "string \<Rightarrow> request" where
  "sample_get u =
     \<lparr>req_method = ''GET'', req_uri = u, http_version_major = 1, http_version_minor = 1, req_headers = []\<rparr>"

definition fresh_reply :: "status_type \<Rightarrow> reply" where
  "fresh_reply st = \<lparr>status = st, rep_headers = [], content = []\<rparr>"

theorem handler_confined_witness:
  "handle_request [''/srv/index.html'' \<mapsto> ''hi'', ''/etc/passwd'' \<mapsto> ''x''] ''/srv'' (sample_get ''/'') (fresh_reply ok) =
   handle_request [''/srv/index.html'' \<mapsto> ''hi''] ''/srv'' (sample_get ''/'') (fresh_reply ok)"
proof (rule handler_confined)
  show "NUL \<notin> set ''/srv''" by simp
  have "\<not> below ''/srv'' ''/etc/passwd''" by code_simp
  then show "below ''/srv'' p \<Longrightarrow>
      [''/srv/index.html'' \<mapsto> ''hi'', ''/etc/passwd'' \<mapsto> ''x''] p = [''/srv/index.html'' \<mapsto> ''hi''] p" for p
    by (auto simp: fun_upd_def split: if_splits)
qed

text \<open>(handler_branches). What the handler answers, on every branch: 400 when the URI does not decode or decodes
  to a bad path, 404 when the file below the root does not open, and otherwise 200 with the
  content that was there before followed by all bytes of the file (the loop of 512-byte reads
  loses nothing), its length, and the type text/html.\<close>

theorem handler_branches:
  "handle_request fs root req rep =
     (case url_decode (req_uri req) of
        None \<Rightarrow> stock_reply bad_request
      | Some p \<Rightarrow>
          (if bad_path p then stock_reply bad_request
           else case fs (c_str (root @ index_path p)) of
                  None \<Rightarrow> stock_reply not_found
                | Some bytes \<Rightarrow>
                    \<lparr>status = ok,
                     rep_headers = [\<lparr>hname = ''Content-Length'', hvalue = dec_string (length (content rep @ bytes))\<rparr>,
                                    \<lparr>hname = ''Content-Type'', hvalue = ''text/html''\<rparr>],
                     content = content rep @ bytes\<rparr>))"
  by (auto simp: handle_request_unfold set_content_headers_eq split: option.split)

text \<open>(nul_truncates). An escaped NUL cuts the path that is opened: what follows it in the URI, the extension of
  the file included, has no influence on the reply.\<close>

theorem nul_truncates:
  assumes "\<not> bad_path (p @ NUL # x)" "\<not> bad_path (p @ NUL # y)"
  shows "handle_request fs root (sample_get (pct_encode keep (p @ NUL # x))) rep =
         handle_request fs root (sample_get (pct_encode keep (p @ NUL # y))) rep"
proof -
  have "c_str (root @ index_path (p @ NUL # z)) = c_str (root @ p)" for z
    using c_str_NUL [of "root @ p"] by (simp add: index_path_def)
  then show ?thesis
    using assms by (simp add: handle_request_unfold sample_get_def url_decode_encode)
qed

theorem nul_truncates_witness:
  "handle_request [''/srv/a.lua'' \<mapsto> ''x''] ''/srv''
     (sample_get (pct_encode is_hex (''/a.lua'' @ NUL # ''.html''))) (fresh_reply ok) =
   handle_request [''/srv/a.lua'' \<mapsto> ''x''] ''/srv''
     (sample_get (pct_encode is_hex (''/a.lua'' @ NUL # ''.css''))) (fresh_reply ok)"
  by (rule nul_truncates) (simp_all add: bad_path_def starts_with_def)

end
