(* ===== verification/Connection.thy ===== *)
theory Connection
  imports Request_Grammar Request_Handler
begin

section \<open>A plain HTTP connection (\<open>whz_connection.hpp\<close>, \<open>whz_connection.cpp\<close>)\<close>

text \<open>
  A connection is the object its completion handlers share: the zero-initialised buffer of 8192
  bytes, the request being parsed, the parser's state and the reply. \<open>conn_pending\<close> is the
  asynchronous operation in flight: the socket calls are the events of the step relation.
  \<open>Released\<close> means that the last \<open>shared_ptr\<close> is gone, and \<open>Aborted\<close> that \<open>shutdown\<close>, called
  without an error code argument in the write handler, threw and nothing catches the exception on
  the I/O thread, which ends the process. The members without an initialiser (the version bytes and
  the status) start with arbitrary values.
\<close>

subsection \<open>State and operations\<close>

datatype pending = Idle | Read_pending | Write_pending | Released | Aborted

record connection =
  conn_buffer :: string
  conn_request :: request
  conn_parser :: parser_state
  conn_reply :: reply
  conn_pending :: pending
  conn_sent :: string

type_synonym handler = "request \<Rightarrow> reply \<Rightarrow> reply"

definition buffer_size :: nat where
  "buffer_size = 8192"

definition new_connection :: "u8 \<Rightarrow> u8 \<Rightarrow> status_type \<Rightarrow> connection" where
  "new_connection major minor st =
     \<lparr>conn_buffer = replicate buffer_size NUL,
      conn_request = fresh_request major minor,
      conn_parser = method_start,
      conn_reply = fresh_reply st,
      conn_pending = Idle, conn_sent = []\<rparr>"

definition do_read :: "connection \<Rightarrow> connection" where
  "do_read c = c\<lparr>conn_pending := Read_pending\<rparr>"

definition do_write :: "connection \<Rightarrow> connection" where
  "do_write c = c\<lparr>conn_sent := conn_sent c @ reply_bytes (conn_reply c), conn_pending := Write_pending\<rparr>"

definition start :: "connection \<Rightarrow> connection" where
  "start c = do_read c"

text \<open>\<open>async_read_some\<close> overwrites the front of the buffer and leaves the rest as it was.\<close>

definition fill_buffer :: "string \<Rightarrow> string \<Rightarrow> string" where
  "fill_buffer bytes buf = bytes @ drop (length bytes) buf"

text \<open>The completion handler of the read; \<open>ec\<close> says that an error was reported.\<close>

definition on_read :: "handler \<Rightarrow> connection \<Rightarrow> bool \<Rightarrow> string \<Rightarrow> connection option" where
  "on_read handle c0 ec bytes =
     (let c = c0\<lparr>conn_buffer := fill_buffer bytes (conn_buffer c0)\<rparr>
      in if \<not> ec then
           (case parse (conn_parser c) (conn_request c) (conn_buffer c) of
              None \<Rightarrow> None
            | Some (result, st, req, _) \<Rightarrow>
                (let c1 = c\<lparr>conn_parser := st, conn_request := req\<rparr>
                 in if result = good
                    then Some (do_write (c1\<lparr>conn_reply := handle (conn_request c1) (conn_reply c1)\<rparr>))
                    else if result = bad
                    then Some (do_write (c1\<lparr>conn_reply := stock_reply bad_request\<rparr>))
                    else Some (do_read c1)))
         else Some (c\<lparr>conn_pending := Released\<rparr>))"

text \<open>The completion handler of the write; \<open>shut\<close> is the outcome of \<open>shutdown\<close>.\<close>

definition on_write :: "connection \<Rightarrow> bool \<Rightarrow> connection" where
  "on_write c shut = c\<lparr>conn_pending := (if shut then Released else Aborted)\<rparr>"

text \<open>
  A read that succeeds delivers at least one byte and at most a buffer full (end of file is an
  error code).
\<close>

inductive conn_step :: "handler \<Rightarrow> connection \<Rightarrow> connection \<Rightarrow> bool" for handle where
  step_read: "conn_pending c = Read_pending \<Longrightarrow> bytes \<noteq> [] \<Longrightarrow> length bytes \<le> buffer_size \<Longrightarrow>
     on_read handle c False bytes = Some c' \<Longrightarrow> conn_step handle c c'"
| step_read_error: "conn_pending c = Read_pending \<Longrightarrow> length bytes \<le> buffer_size \<Longrightarrow>
     on_read handle c True bytes = Some c' \<Longrightarrow> conn_step handle c c'"
| step_write: "conn_pending c = Write_pending \<Longrightarrow> conn_step handle c (on_write c shut)"

inductive_cases conn_stepE: "conn_step handle c c'"

inductive conn_reach :: "handler \<Rightarrow> connection \<Rightarrow> connection \<Rightarrow> bool" for handle where
  reach_start: "conn_reach handle c0 (start c0)"
| reach_step: "conn_reach handle c0 c \<Longrightarrow> conn_step handle c c' \<Longrightarrow> conn_reach handle c0 c'"

text \<open>The handler's replies must be well framed; this is all a connection relies on.\<close>

locale reply_handler =
  fixes handle :: handler
  assumes handle_ok: "reply_ok (handle req rep)"

interpretation file_handler: reply_handler "handle_request fs root" for fs root
  by unfold_locales (rule handle_request_ok)

subsection \<open>The invariant\<close>

definition conn_inv :: "connection \<Rightarrow> bool" where
  "conn_inv c \<longleftrightarrow>
     length (conn_buffer c) = buffer_size \<and>
     parser_inv (conn_parser c) (conn_request c) \<and>
     (case conn_pending c of
        Idle \<Rightarrow> False
      | Read_pending \<Rightarrow> conn_sent c = []
      | Released \<Rightarrow> conn_sent c = [] \<or> (reply_ok (conn_reply c) \<and> conn_sent c = reply_bytes (conn_reply c))
      | _ \<Rightarrow> reply_ok (conn_reply c) \<and> conn_sent c = reply_bytes (conn_reply c))"

lemma start_inv: "conn_inv (start (new_connection major minor st))"
  by (simp add: conn_inv_def start_def do_read_def new_connection_def)

lemma length_fill_buffer [simp]:
  "length bytes \<le> length buf \<Longrightarrow> length (fill_buffer bytes buf) = length buf"
  by (simp add: fill_buffer_def)

context reply_handler begin

lemma on_read_inv:
  assumes "conn_inv c" "conn_pending c = Read_pending" "length bytes \<le> buffer_size"
  shows "\<exists>c'. on_read handle c ec bytes = Some c' \<and> conn_inv c'"
proof -
  have l: "length (fill_buffer bytes (conn_buffer c)) = buffer_size"
    using assms by (simp add: conn_inv_def)
  have "parser_inv (conn_parser c) (conn_request c)" using assms(1) by (simp add: conn_inv_def)
  from parse_inv [OF this, of "fill_buffer bytes (conn_buffer c)"]
  obtain r st req rest
    where "parse (conn_parser c) (conn_request c) (fill_buffer bytes (conn_buffer c)) = Some (r, st, req, rest)"
      "parser_inv st req"
    by blast
  with assms l show ?thesis
    by (auto simp: on_read_def Let_def conn_inv_def do_read_def do_write_def handle_ok)
qed

lemma on_write_inv: "conn_inv c \<Longrightarrow> conn_pending c = Write_pending \<Longrightarrow> conn_inv (on_write c shut)"
  by (simp add: conn_inv_def on_write_def)

lemma on_read_keeps:
  "conn_inv c \<Longrightarrow> conn_pending c = Read_pending \<Longrightarrow> length bytes \<le> buffer_size \<Longrightarrow>
   on_read handle c ec bytes = Some c' \<Longrightarrow> conn_inv c'"
  using on_read_inv [of c bytes ec] by auto

lemma conn_step_inv: "conn_step handle c c' \<Longrightarrow> conn_inv c \<Longrightarrow> conn_inv c'"
  by (induction rule: conn_step.induct) (simp_all add: on_write_inv on_read_keeps)

lemma reachable_inv: "conn_reach handle c0 c \<Longrightarrow> conn_inv (start c0) \<Longrightarrow> conn_inv c"
  by (induction rule: conn_reach.induct) (auto intro: conn_step_inv)

end

subsection \<open>The first read\<close>

text \<open>
  The whole buffer is parsed, whatever the number of bytes received, so behind a read of fewer than
  8192 bytes the parser meets the NUL bytes of the initial buffer, and NUL ends every parse.
\<close>

lemma char_class_not_NUL: "list_all token_char s \<Longrightarrow> NUL \<notin> set s" "list_all text_char s \<Longrightarrow> NUL \<notin> set s"
  "list_all is_dec_digit s \<Longrightarrow> NUL \<notin> set s" "list_all (\<lambda>c. text_char c \<and> c \<noteq> SP) s \<Longrightarrow> NUL \<notin> set s"
  "list_all (\<lambda>c. c = SP \<or> c = TAB) s \<Longrightarrow> NUL \<notin> set s"
  using token_char_facts(5) text_char_facts(5) dec_digit_facts(3) by (force simp: list_all_iff)+

lemma render_request_no_NUL: "request_tree_ok t \<Longrightarrow> NUL \<notin> set (render_request t)"
proof -
  have f: "NUL \<notin> set (render_folds fs)" if "list_all fold_ok fs" for fs
    using that by (induction fs) (auto simp: render_folds_def fold_ok_def crlf_def char_class_not_NUL)
  have h: "NUL \<notin> set (render_headers ts)" if "list_all header_tree_ok ts" for ts
    using that
    by (induction ts) (auto simp: render_headers_def render_header_def header_tree_ok_def crlf_def char_class_not_NUL f)
  assume "request_tree_ok t"
  then show ?thesis
    by (auto simp: render_request_def request_tree_ok_def crlf_def char_class_not_NUL h)
qed

lemma prefix_before_NUL:
  assumes "a @ NUL # z = p @ rest" "NUL \<notin> set p"
  shows "\<exists>r. a = p @ r"
proof (cases "length p \<le> length a")
  case True
  have "take (length p) (a @ NUL # z) = p" by (simp add: assms(1))
  with True have "a = p @ drop (length p) a" by (metis append_take_drop_id take_append diff_is_0_eq take_0 append_Nil2)
  then show ?thesis by blast
next
  case False
  then have "p ! length a = NUL" using assms(1) by (metis nth_append nth_append_length not_le)
  with False have "NUL \<in> set p" by (metis not_le nth_mem)
  with assms(2) show ?thesis by simp
qed

text \<open>
  What a parser started on a blank request makes of a short buffer content: either the bytes begin
  with a complete request, or the parse fails; it is never indeterminate.
\<close>

lemma parse_with_NUL:
  assumes "blank_request r" "parse method_start r (bytes @ NUL # z) = Some (result, st, q, rest)"
  shows "(result = good \<and> (\<exists>t. request_tree_ok t \<and> prefix (render_request t) bytes \<and> q = denote_request t)) \<or>
         (result = bad \<and> \<not> (\<exists>t. request_tree_ok t \<and> prefix (render_request t) bytes))"
proof (cases result)
  case good
  then have "accepts method_start r (bytes @ NUL # z) q rest" using assms(2) parse_good by blast
  then obtain t where t: "request_tree_ok t" "bytes @ NUL # z = render_request t @ rest" "q = denote_request t"
    unfolding accepts_iff_tree [OF assms(1)] by blast
  with prefix_before_NUL render_request_no_NUL have "prefix (render_request t) bytes"
    unfolding prefix_def by blast
  with t good show ?thesis by blast
next
  case bad
  have False if t: "request_tree_ok t" "prefix (render_request t) bytes" for t
  proof -
    from t(2) obtain u where "bytes = render_request t @ u" by (auto simp: prefix_def)
    with t(1) have "accepts method_start r (bytes @ NUL # z) (denote_request t) (u @ NUL # z)"
      unfolding accepts_iff_tree [OF assms(1)] by (metis append.assoc)
    with assms(2) bad show False by simp
  qed
  with bad show ?thesis by blast
next
  case indeterminate
  with parse_NUL assms(2) show ?thesis by blast
qed

lemma short_read_buffer:
  assumes "length bytes < buffer_size"
  shows "\<exists>z. fill_buffer bytes (replicate buffer_size NUL) = bytes @ NUL # z"
proof -
  obtain n where "buffer_size - length bytes = Suc n" using assms by (metis Suc_diff_Suc)
  then show ?thesis by (simp add: fill_buffer_def)
qed

lemma first_short_read:
  assumes "length bytes < buffer_size"
  shows "\<exists>c. on_read handle (start (new_connection major minor st)) False bytes = Some c \<and>
    conn_pending c = Write_pending \<and> conn_sent c = reply_bytes (conn_reply c) \<and>
    ((\<exists>t. request_tree_ok t \<and> prefix (render_request t) bytes \<and>
        conn_reply c = handle (denote_request t) (conn_reply (new_connection major minor st))) \<or>
     ((\<nexists>t. request_tree_ok t \<and> prefix (render_request t) bytes) \<and>
        conn_reply c = stock_reply bad_request))"
proof -
  let ?c = "new_connection major minor st"
  obtain z where z: "fill_buffer bytes (replicate buffer_size NUL) = bytes @ NUL # z"
    using short_read_buffer [OF assms] by blast
  have b: "blank_request (conn_request ?c)" by (simp add: new_connection_def)
  have "parser_inv method_start (conn_request ?c)"
    by (simp add: new_connection_def)
  from parse_inv [OF this] obtain result st' q rest
    where p: "parse method_start (conn_request ?c) (bytes @ NUL # z) = Some (result, st', q, rest)" by blast
  have c: "conn_buffer ?c = replicate buffer_size NUL" "conn_parser ?c = method_start" "conn_sent ?c = []"
    by (simp_all add: new_connection_def)
  from parse_with_NUL [OF b p] show ?thesis
  proof (elim disjE conjE exE)
    fix t assume "result = good" "request_tree_ok t" "prefix (render_request t) bytes" "q = denote_request t"
    with p show ?thesis
      by (intro exI [of _ "do_write (start ?c\<lparr>conn_buffer := bytes @ NUL # z, conn_parser := st',
            conn_request := q, conn_reply := handle q (conn_reply ?c)\<rparr>)"])
         (auto simp: on_read_def start_def do_read_def do_write_def c z)
  next
    assume "result = bad" "\<nexists>t. request_tree_ok t \<and> prefix (render_request t) bytes"
    with p show ?thesis
      by (intro exI [of _ "do_write (start ?c\<lparr>conn_buffer := bytes @ NUL # z, conn_parser := st',
            conn_request := q, conn_reply := stock_reply bad_request\<rparr>)"])
         (simp add: on_read_def start_def do_read_def do_write_def c z)
  qed
qed

text \<open>No complete request is a proper prefix of another, so a cut request contains none.\<close>

lemma tree_prefix_unique:
  assumes "request_tree_ok t" "request_tree_ok u" "render_request t = render_request u @ r"
  shows "r = [] \<and> denote_request u = denote_request t"
proof -
  have "parse method_start blank (render_request t @ []) = Some (good, expecting_newline_3, denote_request t, [])"
    using assms(1) unfolding accepts_iff_tree [OF blank_blank] by blast
  moreover have "parse method_start blank (render_request u @ r) = Some (good, expecting_newline_3, denote_request u, r)"
    using assms(2) unfolding accepts_iff_tree [OF blank_blank] by blast
  ultimately show ?thesis using assms(3) by simp
qed

lemma cut_request:
  assumes "request_tree_ok t" "render_request t = a @ b" "b \<noteq> []"
  shows "\<nexists>u. request_tree_ok u \<and> prefix (render_request u) a"
proof (rule notI, elim exE conjE)
  fix u assume u: "request_tree_ok u" "prefix (render_request u) a"
  then obtain r where "a = render_request u @ r" by (auto simp: prefix_def)
  with assms(2) have "render_request t = render_request u @ (r @ b)" by simp
  from tree_prefix_unique [OF assms(1) u(1) this] assms(3) show False by simp
qed

lemma whole_request_read:
  assumes "request_ok r" "length (print_request r) < buffer_size"
  shows "\<exists>c. on_read handle (start (new_connection major minor st)) False (print_request r) = Some c \<and>
    conn_pending c = Write_pending \<and> conn_sent c = reply_bytes (handle r (fresh_reply st))"
proof -
  note ok = tree_of_request_ok [OF assms(1)]
  have "denote_request u = r" if "request_tree_ok u" "prefix (render_request u) (print_request r)" for u
  proof -
    from that(2) obtain x where "render_request (tree_of_request r) = render_request u @ x"
      by (auto simp: prefix_def print_request_def)
    from tree_prefix_unique [OF ok that(1) this] show ?thesis by (simp add: denote_tree_of_request)
  qed
  moreover have "\<exists>t. request_tree_ok t \<and> prefix (render_request t) (print_request r)"
    using ok by (auto simp: print_request_def)
  moreover obtain c where "on_read handle (start (new_connection major minor st)) False (print_request r) = Some c"
      "conn_pending c = Write_pending" "conn_sent c = reply_bytes (conn_reply c)"
      "(\<exists>t. request_tree_ok t \<and> prefix (render_request t) (print_request r) \<and>
        conn_reply c = handle (denote_request t) (conn_reply (new_connection major minor st))) \<or>
       (\<nexists>t. request_tree_ok t \<and> prefix (render_request t) (print_request r))"
    using first_short_read [OF assms(2), of handle major minor st] by (elim exE conjE disjE) auto
  moreover have "conn_reply (new_connection major minor st) = fresh_reply st" by (simp add: new_connection_def)
  ultimately show ?thesis by (intro exI [of _ c]) auto
qed

subsection \<open>Properties\<close>

text \<open>C11 (short_read_decides). A connection whose first read delivers fewer bytes than the buffer holds answers right
  after it and never reads again: when the bytes begin with a complete request, with the
  handler's reply to the request it denotes, and otherwise with 400 Bad Request; the bytes
  written are those of that reply.\<close>

theorem short_read_decides:
  assumes "length bytes < buffer_size"
  shows "\<exists>c. on_read handle (start (new_connection major minor st)) False bytes = Some c \<and>
    conn_pending c = Write_pending \<and> conn_sent c = reply_bytes (conn_reply c) \<and>
    ((\<exists>t. request_tree_ok t \<and> prefix (render_request t) bytes \<and>
        conn_reply c = handle (denote_request t) (fresh_reply st)) \<or>
     ((\<nexists>t. request_tree_ok t \<and> prefix (render_request t) bytes) \<and>
        conn_reply c = stock_reply bad_request))"
  using first_short_read [OF assms] by (simp add: new_connection_def)

theorem short_read_decides_witness:
  "\<exists>c. on_read (handle_request Map.empty ''/srv'') (start (new_connection 0 0 ok)) False ''GET / HTTP/1.0'' = Some c \<and>
     conn_pending c = Write_pending \<and> conn_sent c = reply_bytes (conn_reply c)"
  using short_read_decides [of "''GET / HTTP/1.0''" "handle_request Map.empty ''/srv''" 0 0 ok]
  by (auto simp: buffer_size_def)

text \<open>C13 (split_request_rejected). A well-formed request that arrives in two pieces is refused: whatever the place of the
  cut (behind the first byte and before the last, the first piece shorter than the buffer), the
  connection answers 400 to the first piece instead of waiting for the second.\<close>

theorem split_request_rejected:
  assumes "request_tree_ok t" "render_request t = a @ b" "a \<noteq> []" "b \<noteq> []" "length a < buffer_size"
  shows "\<exists>c. on_read handle (start (new_connection major minor st)) False a = Some c \<and>
    conn_pending c = Write_pending \<and> conn_sent c = reply_bytes (stock_reply bad_request)"
  using first_short_read [OF assms(5), of handle major minor st] cut_request [OF assms(1,2,4)] by auto

theorem split_request_rejected_witness:
  "\<exists>c. on_read (handle_request Map.empty ''/srv'') (start (new_connection 0 0 ok)) False ''G'' = Some c \<and>
     conn_pending c = Write_pending \<and> conn_sent c = reply_bytes (stock_reply bad_request)"
proof (rule split_request_rejected)
  show "request_tree_ok (tree_of_request sample_request)"
    by (rule tree_of_request_ok) (rule sample_request_ok)
  show "render_request (tree_of_request sample_request) = ''G'' @ drop 1 (render_request (tree_of_request sample_request))"
    "drop 1 (render_request (tree_of_request sample_request)) \<noteq> []"
    by code_simp+
qed (simp_all add: buffer_size_def)

text \<open>C5 (connection_safety). Along every run of a connection (reads of any size, read errors, the write, its shutdown)
  the read handler never runs into undefined behaviour, the buffer keeps its size, and what has
  been written is either nothing or exactly one well-framed reply, which the client reads back
  with nothing left over.\<close>

theorem connection_safety:
  assumes "conn_reach (handle_request fs root) (new_connection major minor st) c"
  shows "length (conn_buffer c) = buffer_size \<and>
    (\<forall>bytes ec. conn_pending c = Read_pending \<and> length bytes \<le> buffer_size \<longrightarrow>
       on_read (handle_request fs root) c ec bytes \<noteq> None) \<and>
    (conn_sent c = [] \<or> read_reply (conn_sent c) = Some (reply_view (conn_reply c), []))"
proof -
  have inv: "conn_inv c" using file_handler.reachable_inv [OF assms start_inv] .
  have "on_read (handle_request fs root) c ec bytes \<noteq> None"
    if "conn_pending c = Read_pending" "length bytes \<le> buffer_size" for bytes ec
    using file_handler.on_read_inv [OF inv that, of fs root ec] by auto
  moreover have "conn_sent c = [] \<or> (reply_ok (conn_reply c) \<and> conn_sent c = reply_bytes (conn_reply c))"
    using inv by (auto simp: conn_inv_def split: pending.splits)
  ultimately show ?thesis using inv reply_wire.dec_enc_only [of "conn_reply c"] by (auto simp: conn_inv_def)
qed

theorem connection_safety_witness:
  "on_read (handle_request Map.empty ''/srv'') (start (new_connection 0 0 ok)) False ''G'' \<noteq> None"
  using connection_safety [OF reach_start [of "handle_request Map.empty ''/srv''" "new_connection 0 0 ok"]]
  by (simp add: start_def do_read_def buffer_size_def)

subsection \<open>How a connection ends\<close>

definition finished :: "connection \<Rightarrow> bool" where
  "finished c \<longleftrightarrow> conn_pending c = Released \<or> conn_pending c = Aborted"

lemma conn_step_pending: "conn_step handle c c' \<Longrightarrow> conn_pending c = Read_pending \<or> conn_pending c = Write_pending"
  by (erule conn_stepE) simp_all

lemma finished_no_step: "finished c \<Longrightarrow> \<not> conn_step handle c c'"
  using conn_step_pending by (fastforce simp: finished_def)

lemma write_step_finishes: "conn_step handle c c' \<Longrightarrow> conn_pending c = Write_pending \<Longrightarrow> finished c'"
  by (erule conn_stepE) (simp_all add: finished_def on_write_def)

lemma write_run_short:
  assumes "(conn_step handle ^^ n) c c'" "conn_pending c = Write_pending \<or> finished c"
  shows "n \<le> 1 \<and> (n = 1 \<longrightarrow> finished c')"
proof (cases n)
  case (Suc m)
  then obtain c1 where c1: "conn_step handle c c1" "(conn_step handle ^^ m) c1 c'"
    using assms(1) by (blast dest: relpowp_Suc_D2)
  with assms(2) have "finished c1" using write_step_finishes finished_no_step by blast
  moreover from this c1(2) have "m = 0" using finished_no_step by (cases m) (auto dest: relpowp_Suc_D2 simp del: relpowp.simps)
  ultimately show ?thesis using Suc c1(2) by simp
qed simp

text \<open>(short_connection_ends). A connection whose first read is short, or fails, makes at most one more step: the
  completion of the write, after which it is over.\<close>

theorem short_connection_ends:
  assumes "length bytes < buffer_size" "on_read handle (start (new_connection major minor st)) ec bytes = Some c1"
    and "(conn_step handle ^^ n) c1 c"
  shows "n \<le> 1 \<and> (n = 1 \<longrightarrow> finished c) \<and> (finished c1 \<longrightarrow> n = 0)"
proof -
  have "conn_pending c1 = Write_pending \<or> finished c1"
  proof (cases ec)
    case True
    then show ?thesis using assms(2) by (auto simp: on_read_def finished_def)
  next
    case False
    then show ?thesis using first_short_read [OF assms(1), of handle major minor st] assms(2) by auto
  qed
  moreover have "n = 0" if "finished c1"
    using that assms(3) finished_no_step by (cases n) (auto dest: relpowp_Suc_D2 simp del: relpowp.simps)
  ultimately show ?thesis using write_run_short [OF assms(3)] by blast
qed

theorem short_connection_ends_witness:
  "\<exists>c1. on_read (handle_request Map.empty ''/srv'') (start (new_connection 0 0 ok)) True [] = Some c1 \<and>
     (\<forall>n c. (conn_step (handle_request Map.empty ''/srv'') ^^ n) c1 c \<longrightarrow> n \<le> 1)"
proof -
  have "\<exists>c1. on_read (handle_request Map.empty ''/srv'') (start (new_connection 0 0 ok)) True [] = Some c1"
    by (simp add: on_read_def)
  then show ?thesis using short_connection_ends [of "[]" "handle_request Map.empty ''/srv''" 0 0 ok True]
    by (auto simp: buffer_size_def)
qed

text \<open>(connection_live). A reachable connection is never stuck: until it has finished, whatever the operation in
  flight completes with leads to a step; a finished one makes no step, and once the reply is being
  written the next step is the last.\<close>

theorem connection_live:
  assumes "conn_reach (handle_request fs root) (new_connection major minor st) c"
  shows "(finished c \<longleftrightarrow> \<not> (\<exists>c'. conn_step (handle_request fs root) c c')) \<and>
    (conn_pending c = Read_pending \<longrightarrow>
       (\<forall>bytes. bytes \<noteq> [] \<and> length bytes \<le> buffer_size \<longrightarrow>
          (\<exists>c'. on_read (handle_request fs root) c False bytes = Some c' \<and> conn_step (handle_request fs root) c c'))) \<and>
    (conn_pending c = Write_pending \<longrightarrow> (\<forall>c'. conn_step (handle_request fs root) c c' \<longrightarrow> finished c'))"
proof -
  have inv: "conn_inv c" using file_handler.reachable_inv [OF assms start_inv] .
  have read: "\<exists>c'. on_read (handle_request fs root) c False bytes = Some c' \<and> conn_step (handle_request fs root) c c'"
    if "conn_pending c = Read_pending" "bytes \<noteq> []" "length bytes \<le> buffer_size" for bytes
    using file_handler.on_read_inv [OF inv that(1,3), of fs root False] step_read [OF that] by blast
  have "\<exists>c'. conn_step (handle_request fs root) c c'" if "\<not> finished c"
  proof -
    have "conn_pending c = Read_pending \<or> conn_pending c = Write_pending"
      using that inv by (cases "conn_pending c") (simp_all add: finished_def conn_inv_def)
    then show ?thesis using read [of "''a''"] step_write [of c] by (auto simp: buffer_size_def)
  qed
  with read show ?thesis using finished_no_step write_step_finishes by blast
qed

theorem connection_live_witness:
  "\<exists>c'. conn_step (handle_request Map.empty ''/srv'') (start (new_connection 0 0 ok)) c'"
  using connection_live [OF reach_start [of "handle_request Map.empty ''/srv''" "new_connection 0 0 ok"]]
  by (auto simp: start_def do_read_def finished_def)

text \<open>A client that keeps sending letters keeps the connection reading, and its method growing.\<close>

lemma parse_letters:
  "parse method_state r (replicate n (CHR ''a'')) =
     Some (indeterminate, method_state, r\<lparr>req_method := req_method r @ replicate n (CHR ''a'')\<rparr>, [])"
  "n \<noteq> 0 \<Longrightarrow> parse method_start r (replicate n (CHR ''a'')) =
     Some (indeterminate, method_state, r\<lparr>req_method := req_method r @ replicate n (CHR ''a'')\<rparr>, [])"
proof -
  have a: "\<not> not_token (CHR ''a'')" by code_simp
  show m: "parse method_state r (replicate n (CHR ''a'')) =
     Some (indeterminate, method_state, r\<lparr>req_method := req_method r @ replicate n (CHR ''a'')\<rparr>, [])" for n r
  proof (induction n arbitrary: r)
    case (Suc n)
    then show ?case using a by simp
  qed simp
  show "n \<noteq> 0 \<Longrightarrow> parse method_start r (replicate n (CHR ''a'')) =
     Some (indeterminate, method_state, r\<lparr>req_method := req_method r @ replicate n (CHR ''a'')\<rparr>, [])"
    using a m by (cases n) simp_all
qed

lemma letters_reach:
  "\<exists>c. conn_reach handle (new_connection major minor st) c \<and> conn_pending c = Read_pending \<and> conn_sent c = [] \<and>
     length (conn_buffer c) = buffer_size \<and> conn_parser c = (if n = 0 then method_start else method_state) \<and>
     length (req_method (conn_request c)) = n * buffer_size"
proof (induction n)
  case 0
  show ?case
    using reach_start [of handle "new_connection major minor st"]
    by (intro exI [of _ "start (new_connection major minor st)"] conjI)
       (simp_all add: start_def do_read_def new_connection_def fresh_request_def)
next
  case (Suc n)
  then obtain c where c: "conn_reach handle (new_connection major minor st) c" "conn_pending c = Read_pending"
    "conn_sent c = []" "length (conn_buffer c) = buffer_size"
    "conn_parser c = (if n = 0 then method_start else method_state)"
    "length (req_method (conn_request c)) = n * buffer_size" by blast
  let ?as = "replicate buffer_size (CHR ''a'')"
  have b: "buffer_size \<noteq> 0" by (simp add: buffer_size_def)
  have buf: "fill_buffer ?as (conn_buffer c) = ?as" by (simp add: fill_buffer_def c(4))
  let ?q = "(conn_request c)\<lparr>req_method := req_method (conn_request c) @ ?as\<rparr>"
  let ?c = "do_read (c\<lparr>conn_buffer := ?as, conn_parser := method_state, conn_request := ?q\<rparr>)"
  have "parse (conn_parser c) (conn_request c) ?as = Some (indeterminate, method_state, ?q, [])"
    using parse_letters b by (simp add: c(5))
  then have "on_read handle c False ?as = Some ?c" by (simp add: on_read_def buf Let_def)
  then have "conn_step handle c ?c" using c(2) b by (intro step_read [of c ?as]) simp_all
  then have "conn_reach handle (new_connection major minor st) ?c" using c(1) by (rule reach_step [rotated])
  then show ?case using c by (intro exI [of _ ?c]) (simp add: do_read_def)
qed

text \<open>C38 (request_size_unbounded). There is no bound on the size of a request: for every \<open>n\<close> a client can bring a
  connection to hold \<open>n\<close> buffers full of method name and wait for more without having answered.\<close>

theorem request_size_unbounded:
  "\<exists>c. conn_reach handle (new_connection major minor st) c \<and> conn_pending c = Read_pending \<and> conn_sent c = [] \<and>
     length (req_method (conn_request c)) = n * buffer_size"
  using letters_reach [of handle major minor st n] by blast

end
