(* ===== verification/Connection_Stream.thy ===== *)
theory Connection_Stream
  imports Connection
begin

section \<open>What a connection answers to a sequence of reads\<close>

text \<open>
  A connection parses its whole buffer after every read, so to the parser a sequence of reads is the
  concatenation of the successive buffers, in which the bytes behind a short read are those of the
  read before (zeros at first). \<open>heard\<close> is that stream and \<open>response\<close> the abstract specification: the
  reply as a function of the stream alone. The connection of the code implements it step by step.
\<close>

fun heard :: "string \<Rightarrow> string list \<Rightarrow> string" where
  "heard buf [] = []"
| "heard buf (b # bs) = fill_buffer b buf @ heard (fill_buffer b buf) bs"

definition zero_buffer :: string where
  "zero_buffer = replicate buffer_size NUL"

definition response :: "handler \<Rightarrow> u8 \<Rightarrow> u8 \<Rightarrow> status_type \<Rightarrow> string \<Rightarrow> reply option" where
  "response handle major minor st stream =
     (case parse method_start (fresh_request major minor) stream of
        Some (good, _, req, _) \<Rightarrow> Some (handle req (fresh_reply st))
      | Some (bad, _, _, _) \<Rightarrow> Some (stock_reply bad_request)
      | _ \<Rightarrow> None)"

text \<open>The completions of a sequence of reads without errors, as long as the connection reads.\<close>

definition read_one :: "handler \<Rightarrow> string \<Rightarrow> connection \<Rightarrow> connection option" where
  "read_one handle b c = (if conn_pending c = Read_pending then on_read handle c False b else None)"

definition reads :: "handler \<Rightarrow> string list \<Rightarrow> connection \<Rightarrow> connection option" where
  "reads handle bs c = fold_opt (read_one handle) bs c"

lemma reads_snoc: "reads handle (bs @ [b]) c = (case reads handle bs c of None \<Rightarrow> None | Some d \<Rightarrow> read_one handle b d)"
  by (simp add: reads_def fold_opt_append split: option.split)

lemma heard_snoc: "heard buf (bs @ [b]) = heard buf bs @ fill_buffer b (fold fill_buffer bs buf)"
  by (induction bs arbitrary: buf) simp_all

lemma heard_full:
  "list_all (\<lambda>b. length b = length buf) bs \<Longrightarrow> heard buf bs = concat bs \<and> length (fold fill_buffer bs buf) = length buf"
proof (induction bs arbitrary: buf)
  case (Cons b bs)
  from Cons.prems have "fill_buffer b buf = b" by (simp add: fill_buffer_def)
  with Cons.IH [of b] Cons.prems show ?case by simp
qed simp

text \<open>The simulation relation: a reading connection has parsed what was heard, without an answer yet.\<close>

definition tracks :: "u8 \<Rightarrow> u8 \<Rightarrow> status_type \<Rightarrow> string list \<Rightarrow> connection \<Rightarrow> bool" where
  "tracks major minor st bs c \<longleftrightarrow>
     conn_pending c = Read_pending \<and> conn_sent c = [] \<and> conn_reply c = fresh_reply st \<and>
     conn_buffer c = fold fill_buffer bs zero_buffer \<and>
     parse method_start (fresh_request major minor) (heard zero_buffer bs) =
       Some (indeterminate, conn_parser c, conn_request c, [])"

definition answers :: "reply \<Rightarrow> connection \<Rightarrow> bool" where
  "answers rep c \<longleftrightarrow> conn_pending c = Write_pending \<and> conn_sent c = reply_bytes rep"

lemma tracks_start: "tracks major minor st [] (start (new_connection major minor st))"
  by (simp add: tracks_def start_def do_read_def new_connection_def zero_buffer_def)

lemma tracks_no_response: "tracks major minor st bs c \<Longrightarrow> response handle major minor st (heard zero_buffer bs) = None"
  by (simp add: tracks_def response_def)

lemma tracks_step:
  assumes "tracks major minor st bs c"
  shows "\<exists>c'. read_one handle b c = Some c' \<and>
    (case response handle major minor st (heard zero_buffer (bs @ [b])) of
       None \<Rightarrow> tracks major minor st (bs @ [b]) c'
     | Some rep \<Rightarrow> answers rep c')"
proof -
  let ?f = "fresh_request major minor"
  let ?buf = "fill_buffer b (fold fill_buffer bs zero_buffer)"
  have "parser_inv method_start ?f" by simp
  from parse_inv [OF this, of "heard zero_buffer (bs @ [b])"] obtain r st' q rest where
    p: "parse method_start ?f (heard zero_buffer (bs @ [b])) = Some (r, st', q, rest)" by blast
  then have step: "parse (conn_parser c) (conn_request c) ?buf = Some (r, st', q, rest)"
    using assms parse_append [of method_start ?f "heard zero_buffer bs" ?buf] by (simp add: tracks_def heard_snoc)
  have "rest = []" if "r = indeterminate" using parse_indeterminate_rest p that by fast
  with assms p step show ?thesis
    by (cases r) (auto simp: tracks_def read_one_def on_read_def response_def answers_def do_read_def do_write_def)
qed

lemma reads_outcome:
  "case reads handle bs (start (new_connection major minor st)) of
     None \<Rightarrow> \<exists>n<length bs. response handle major minor st (heard zero_buffer (take n bs)) \<noteq> None
   | Some c \<Rightarrow> (\<forall>n<length bs. response handle major minor st (heard zero_buffer (take n bs)) = None) \<and>
       (case response handle major minor st (heard zero_buffer bs) of
          None \<Rightarrow> tracks major minor st bs c
        | Some rep \<Rightarrow> answers rep c)"
proof (induction bs rule: rev_induct)
  case Nil
  show ?case using tracks_start tracks_no_response [OF tracks_start] by (simp add: reads_def)
next
  case (snoc b bs)
  let ?R = "\<lambda>x. response handle major minor st (heard zero_buffer x)"
  have split: "(\<forall>n<length (bs @ [b]). ?R (take n (bs @ [b])) = None) \<longleftrightarrow>
      (\<forall>n<length bs. ?R (take n bs) = None) \<and> ?R bs = None" by (auto simp: less_Suc_eq)
  show ?case
  proof (cases "reads handle bs (start (new_connection major minor st))")
    case None
    with snoc.IH obtain n where "n < length bs" "?R (take n bs) \<noteq> None" by auto
    then show ?thesis using None by (auto simp: reads_snoc intro!: exI [of _ n])
  next
    case (Some c)
    note IH = snoc.IH [unfolded Some option.case]
    show ?thesis
    proof (cases "?R bs")
      case None
      with IH have "tracks major minor st bs c" by simp
      from tracks_step [OF this, of handle b] obtain c' where "read_one handle b c = Some c'"
        "case ?R (bs @ [b]) of None \<Rightarrow> tracks major minor st (bs @ [b]) c' | Some rep \<Rightarrow> answers rep c'" by blast
      then show ?thesis using Some IH None unfolding split by (simp add: reads_snoc)
    next
      case (Some rep)
      with IH have "read_one handle b c = None" by (simp add: answers_def read_one_def)
      moreover have "\<exists>n<length (bs @ [b]). ?R (take n (bs @ [b])) \<noteq> None"
        using Some by (intro exI [of _ "length bs"]) simp
      ultimately show ?thesis using \<open>reads handle bs _ = Some c\<close> by (simp add: reads_snoc)
    qed
  qed
qed

subsection \<open>Streams that begin with a request\<close>

lemma response_request:
  assumes "request_ok r" "stream = print_request r @ z"
  shows "response handle major minor st stream = Some (handle r (fresh_reply st))"
proof -
  have b: "blank_request (fresh_request major minor)" by simp
  have "parse method_start (fresh_request major minor) (print_request r @ z) = Some (good, expecting_newline_3, r, z)"
    using accepts_iff_tree [OF b] tree_of_request_ok [OF assms(1)]
    by (force simp: print_request_def denote_tree_of_request)
  then show ?thesis by (simp add: response_def assms(2))
qed

text \<open>Before its last byte a request has no answer.\<close>

lemma response_proper_prefix:
  assumes "request_ok r" "print_request r = a @ b" "b \<noteq> []"
  shows "response handle major minor st a = None"
proof -
  let ?f = "fresh_request major minor"
  have b: "blank_request ?f" by simp
  have whole: "parse method_start ?f (a @ b) = Some (good, expecting_newline_3, r, [])"
    using accepts_iff_tree [OF b] tree_of_request_ok [OF assms(1)] assms(2)
    by (force simp: print_request_def denote_tree_of_request)
  have "parser_inv method_start ?f" by simp
  from parse_inv [OF this, of a] obtain res st' q rest where p: "parse method_start ?f a = Some (res, st', q, rest)"
    by blast
  with whole assms(3) have "res = indeterminate"
    by (cases res) (simp_all add: parse_append)
  with p show ?thesis by (simp add: response_def)
qed

lemma answered_at:
  assumes "\<And>n. n < length bs \<Longrightarrow> response handle major minor st (heard zero_buffer (take n bs)) = None"
    and "response handle major minor st (heard zero_buffer bs) = Some rep"
  shows "\<exists>c. reads handle bs (start (new_connection major minor st)) = Some c \<and> answers rep c"
  using reads_outcome [of bs handle major minor st] assms by (auto split: option.splits)

subsection \<open>The members without an initialiser\<close>

text \<open>
  The parser clears the version bytes before it reads them and no state before that looks at them, so
  the arbitrary values they start with have no influence on its result, and none on the request when
  the result is \<open>good\<close>.
\<close>

definition set_version :: "u8 \<Rightarrow> u8 \<Rightarrow> request \<Rightarrow> request" where
  "set_version major minor r = r\<lparr>http_version_major := major, http_version_minor := minor\<rparr>"

definition before_version :: "parser_state \<Rightarrow> bool" where
  "before_version st \<longleftrightarrow> st \<in> {method_start, method_state, uri, http_version_h, http_version_t_1, http_version_t_2,
     http_version_p, http_version_slash}"

lemma set_version_facts:
  "set_version a b (r\<lparr>req_method := m\<rparr>) = set_version a b r\<lparr>req_method := m\<rparr>"
  "set_version a b (r\<lparr>req_uri := u\<rparr>) = set_version a b r\<lparr>req_uri := u\<rparr>"
  "req_method (set_version a b r) = req_method r" "req_uri (set_version a b r) = req_uri r"
  "set_version a b r\<lparr>http_version_major := 0, http_version_minor := 0\<rparr> = r\<lparr>http_version_major := 0, http_version_minor := 0\<rparr>"
  by (simp_all add: set_version_def)

lemma consume_version:
  assumes "before_version st" "consume st r c = Some (res, st', q)"
  shows "res \<noteq> good \<and> (consume st (set_version a b r) c = Some (res, st', q) \<or>
    before_version st' \<and> consume st (set_version a b r) c = Some (res, st', set_version a b q))"
  using assms by (cases st) (auto simp: before_version_def set_version_facts split: if_splits)

lemma parse_version:
  "before_version st \<Longrightarrow> parse st r s = Some (res, st', q, rest) \<Longrightarrow>
   \<exists>q'. parse st (set_version a b r) s = Some (res, st', q', rest) \<and> (res = good \<longrightarrow> q' = q)"
proof (induction s arbitrary: st r)
  case Nil
  then show ?case by auto
next
  case (Cons c s)
  from Cons.prems(2) obtain res1 st1 r1 where c: "consume st r c = Some (res1, st1, r1)"
    by (cases "consume st r c") auto
  from consume_version [OF Cons.prems(1) c, of a b] show ?case
    using Cons.prems(2) c Cons.IH [of st1 r1] by (auto split: if_splits)
qed

text \<open>A handler whose reply does not depend on the status the reply object starts with.\<close>

locale settled_handler = reply_handler +
  assumes handle_fresh: "handle req (fresh_reply st) = handle req (fresh_reply ok)"
begin

lemma response_members: "response handle major minor st s = response handle 0 0 ok s"
proof -
  have f: "fresh_request major minor = set_version major minor (fresh_request 0 0)"
    by (simp add: fresh_request_def set_version_def)
  have "parser_inv method_start (fresh_request 0 0)" by simp
  from parse_inv [OF this, of s] obtain res st' q rest where
    p: "parse method_start (fresh_request 0 0) s = Some (res, st', q, rest)" by blast
  have "before_version method_start" by (simp add: before_version_def)
  from parse_version [OF this p, of major minor] p show ?thesis
    by (cases res) (auto simp: response_def f handle_fresh [of q st])
qed

end

interpretation file_settled: settled_handler "handle_request fs root" for fs root
  by unfold_locales (simp add: handle_request_unfold fresh_reply_def set_content_headers_eq split: option.split)

subsection \<open>Properties\<close>

text \<open>C4 (connection_refines). A connection is its specification: after any sequence of reads it has answered
  exactly when the stream of buffers has a response and then with the bytes of that response, and it
  reads on exactly as long as the stream has none; a read behind the answer does not happen.\<close>

theorem connection_refines:
  "case reads handle bs (start (new_connection major minor st)) of
     None \<Rightarrow> \<exists>n<length bs. response handle major minor st (heard zero_buffer (take n bs)) \<noteq> None
   | Some c \<Rightarrow> (\<forall>n<length bs. response handle major minor st (heard zero_buffer (take n bs)) = None) \<and>
       (case response handle major minor st (heard zero_buffer bs) of
          None \<Rightarrow> conn_pending c = Read_pending \<and> conn_sent c = []
        | Some rep \<Rightarrow> conn_pending c = Write_pending \<and> conn_sent c = reply_bytes rep)"
  using reads_outcome [of bs handle major minor st]
  by (auto simp: tracks_def answers_def split: option.splits)

text \<open>One letter, and the zeros behind it: the answer is 400, and there is no second read.\<close>

theorem connection_refines_witness:
  "\<exists>c. reads (handle_request Map.empty ''/srv'') [''G''] (start (new_connection 0 0 ok)) = Some c \<and>
     conn_pending c = Write_pending \<and> conn_sent c = reply_bytes (stock_reply bad_request)"
proof -
  let ?h = "handle_request Map.empty ''/srv''"
  obtain z where z: "fill_buffer ''G'' zero_buffer = ''G'' @ NUL # z"
    using short_read_buffer [of "''G''"] by (auto simp: zero_buffer_def buffer_size_def)
  have "\<not> not_token (CHR ''G'')" "not_token NUL" "NUL \<noteq> SP" by code_simp+
  then have r: "response ?h 0 0 ok (heard zero_buffer [''G'']) = Some (stock_reply bad_request)"
    by (simp add: response_def z)
  have none: "response ?h 0 0 ok [] = None" by (simp add: response_def)
  show ?thesis
    using connection_refines [of "[''G'']" ?h 0 0 ok] r none by (simp split: option.splits)
qed

text \<open>C14 (long_request_answered). A request longer than the buffer is answered when every read but the last fills the
  buffer: the handler then sees exactly the request that was sent, however long it is.\<close>

lemma full_reads_prefix:
  assumes "list_all (\<lambda>b. length b = buffer_size) bs" "n \<le> length bs"
  shows "heard zero_buffer (take n bs) = concat (take n bs)"
  using heard_full [of zero_buffer "take n bs"] assms by (simp add: zero_buffer_def list_all_length)

theorem long_request_answered:
  assumes "request_ok r" "print_request r = concat bs @ b" "b \<noteq> []"
    and "list_all (\<lambda>x. length x = buffer_size) bs" "length b \<le> buffer_size"
  shows "\<exists>c. reads handle (bs @ [b]) (start (new_connection major minor st)) = Some c \<and>
    conn_pending c = Write_pending \<and> conn_sent c = reply_bytes (handle r (fresh_reply st))"
proof -
  have "response handle major minor st (heard zero_buffer (take n (bs @ [b]))) = None" if "n < length (bs @ [b])" for n
  proof -
    have "heard zero_buffer (take n (bs @ [b])) = concat (take n bs)"
      using full_reads_prefix [OF assms(4), of n] that by simp
    moreover have "print_request r = concat (take n bs) @ (concat (drop n bs) @ b)"
      by (simp add: assms(2) flip: append_assoc concat_append)
    ultimately show ?thesis using response_proper_prefix [OF assms(1)] assms(3) by simp
  qed
  moreover have "heard zero_buffer (bs @ [b]) = print_request r @ drop (length b) (fold fill_buffer bs zero_buffer)"
    using full_reads_prefix [OF assms(4), of "length bs"] by (simp add: heard_snoc fill_buffer_def assms(2))
  ultimately show ?thesis
    using answered_at [of "bs @ [b]" handle major minor st] response_request [OF assms(1)] by (simp add: answers_def)
qed

text \<open>A request whose method fills the buffer.\<close>

definition long_get :: "string \<Rightarrow> request" where
  "long_get u = \<lparr>req_method = replicate buffer_size (CHR ''a''), req_uri = u, http_version_major = 1,
     http_version_minor = 0, req_headers = []\<rparr>"

lemma long_get_ok: "list_all (\<lambda>c. text_char c \<and> c \<noteq> SP) u \<Longrightarrow> u \<noteq> [] \<Longrightarrow> request_ok (long_get u)"
proof -
  have "token_char (CHR ''a'')" "buffer_size \<noteq> 0" by code_simp+
  then show "list_all (\<lambda>c. text_char c \<and> c \<noteq> SP) u \<Longrightarrow> u \<noteq> [] \<Longrightarrow> request_ok (long_get u)"
    by (simp add: request_ok_def request_chars_ok_def long_get_def list_all_iff)
qed

lemma print_long_get: "print_request (long_get u) = replicate buffer_size (CHR ''a'') @ '' '' @ u @ '' HTTP/1.0'' @ crlf @ crlf"
proof -
  have "dec_string 1 = ''1''" "dec_string 0 = ''0''" by code_simp+
  then show ?thesis
    by (simp add: print_request_def long_get_def render_request_def tree_of_request_def render_headers_def)
qed

theorem long_request_answered_witness:
  "\<exists>c. reads (handle_request Map.empty ''/srv'') [replicate buffer_size (CHR ''a''), '' / HTTP/1.0'' @ crlf @ crlf]
       (start (new_connection 0 0 ok)) = Some c \<and>
     conn_sent c = reply_bytes (handle_request Map.empty ''/srv'' (long_get ''/'') (fresh_reply ok))"
proof -
  have r: "request_ok (long_get ''/'')" by (rule long_get_ok) code_simp+
  have "length ('' / HTTP/1.0'' @ crlf @ crlf) \<le> buffer_size" by (simp add: crlf_def buffer_size_def)
  with long_request_answered [OF r, of "[replicate buffer_size (CHR ''a'')]" "'' / HTTP/1.0'' @ crlf @ crlf"
      "handle_request Map.empty ''/srv''" 0 0 ok]
  show ?thesis by (auto simp: print_long_get)
qed

text \<open>C12 (stale_request_answered). After a full first read a shorter second one drags the rest of the first along: the
  connection then answers a request in which bytes of the first read appear twice, not the one the
  client sent.\<close>

theorem stale_request_answered:
  assumes "length a = buffer_size" "length b \<le> buffer_size" "d \<noteq> []" "length d \<le> buffer_size"
    and "request_ok r" "print_request r = a @ b @ drop (length b) a @ d"
  shows "\<exists>c. reads handle [a, b, d] (start (new_connection major minor st)) = Some c \<and>
    conn_pending c = Write_pending \<and> conn_sent c = reply_bytes (handle r (fresh_reply st))"
proof -
  have h: "heard zero_buffer [a] = a" "heard zero_buffer [a, b] = a @ b @ drop (length b) a"
    "heard zero_buffer [a, b, d] = (a @ b @ drop (length b) a @ d) @ drop (length d) (b @ drop (length b) a)"
    using assms(1) by (simp_all add: fill_buffer_def zero_buffer_def)
  have none: "response handle major minor st x = None" if "print_request r = x @ y" "y \<noteq> []" for x y
    using response_proper_prefix [OF assms(5) that] .
  have "response handle major minor st (heard zero_buffer (take n [a, b, d])) = None" if "n < length [a, b, d]" for n
  proof -
    from that consider "n = 0" | "n = 1" | "n = 2" by fastforce
    then show ?thesis
      using none [of "[]"] none [of a] none [of "a @ b @ drop (length b) a"] assms(3,6) h by cases auto
  qed
  moreover have "response handle major minor st (heard zero_buffer [a, b, d]) = Some (handle r (fresh_reply st))"
    using response_request [OF assms(5)] h(3) assms(6) by simp
  ultimately show ?thesis using answered_at [of "[a, b, d]" handle major minor st] by (simp add: answers_def)
qed

text \<open>The client asks for the root; the handler sees 8190 letters of the method in the URI.\<close>

theorem stale_request_answered_witness:
  "\<exists>c. reads (handle_request Map.empty ''/srv'') [replicate buffer_size (CHR ''a''), '' /'', '' HTTP/1.0'' @ crlf @ crlf]
       (start (new_connection 0 0 ok)) = Some c \<and>
     conn_sent c = reply_bytes (handle_request Map.empty ''/srv''
       (long_get (CHR ''/'' # replicate (buffer_size - 2) (CHR ''a''))) (fresh_reply ok))"
proof -
  let ?as = "replicate (buffer_size - 2) (CHR ''a'')" and ?d = "'' HTTP/1.0'' @ crlf @ crlf"
  have "text_char (CHR ''a'') \<and> CHR ''a'' \<noteq> SP" "text_char (CHR ''/'') \<and> CHR ''/'' \<noteq> SP" by code_simp+
  then have r: "request_ok (long_get (CHR ''/'' # ?as))" by (intro long_get_ok) (simp_all add: list_all_iff)
  have "length ?d \<le> buffer_size" "length '' /'' \<le> buffer_size" by (simp_all add: crlf_def buffer_size_def)
  with stale_request_answered [OF _ _ _ _ r, of "replicate buffer_size (CHR ''a'')" "'' /''" ?d
      "handle_request Map.empty ''/srv''" 0 0 ok]
  show ?thesis by (auto simp: print_long_get numeral_2_eq_2)
qed

end
