(* ===== verification/Ssl_Connection.thy ===== *)
theory Ssl_Connection
  imports Prelude
begin

section \<open>A TLS connection (\<open>whz_ssl_connection.hpp\<close>, \<open>whz_ssl_connection.cpp\<close>)\<close>

text \<open>
  After the handshake a TLS connection reads into its buffer and writes back the bytes just read.
  The members \<open>request_parser_\<close>, \<open>request_\<close> and \<open>reply\<close> exist but nothing uses them, so they
  are not part of the state. The buffer is not initialised; \<open>ssl_init\<close> gets its first content.
  \<open>ssl_received\<close> and \<open>ssl_written\<close> are the bytes that have crossed the socket.
\<close>

datatype ssl_pending = Handshake_pending | Ssl_read_pending | Ssl_write_pending | Ssl_released

record ssl_connection =
  ssl_buffer :: string
  ssl_pending :: ssl_pending
  ssl_received :: string
  ssl_written :: string

definition ssl_buffer_size :: nat where
  "ssl_buffer_size = 8192"

definition do_handshake :: "ssl_connection \<Rightarrow> ssl_connection" where
  "do_handshake c = c\<lparr>ssl_pending := Handshake_pending\<rparr>"

definition ssl_do_read :: "ssl_connection \<Rightarrow> ssl_connection" where
  "ssl_do_read c = c\<lparr>ssl_pending := Ssl_read_pending\<rparr>"

text \<open>\<open>async_write\<close> of the first \<open>n\<close> bytes of the buffer.\<close>

definition ssl_do_write :: "nat \<Rightarrow> ssl_connection \<Rightarrow> ssl_connection" where
  "ssl_do_write n c = c\<lparr>ssl_written := ssl_written c @ take n (ssl_buffer c), ssl_pending := Ssl_write_pending\<rparr>"

definition ssl_start :: "string \<Rightarrow> ssl_connection" where
  "ssl_start buf =
     do_handshake \<lparr>ssl_buffer = buf, ssl_pending = Ssl_released, ssl_received = [], ssl_written = []\<rparr>"

definition on_handshake :: "bool \<Rightarrow> ssl_connection \<Rightarrow> ssl_connection" where
  "on_handshake ec c = (if \<not> ec then ssl_do_read c else c\<lparr>ssl_pending := Ssl_released\<rparr>)"

definition on_ssl_read :: "bool \<Rightarrow> string \<Rightarrow> ssl_connection \<Rightarrow> ssl_connection" where
  "on_ssl_read ec bytes c0 =
     (let c = c0\<lparr>ssl_buffer := bytes @ drop (length bytes) (ssl_buffer c0), ssl_received := ssl_received c0 @ bytes\<rparr>
      in if \<not> ec then ssl_do_write (length bytes) c else c\<lparr>ssl_pending := Ssl_released\<rparr>)"

definition on_ssl_write :: "bool \<Rightarrow> ssl_connection \<Rightarrow> ssl_connection" where
  "on_ssl_write ec c = (if \<not> ec then ssl_do_read c else c\<lparr>ssl_pending := Ssl_released\<rparr>)"

inductive ssl_step :: "ssl_connection \<Rightarrow> ssl_connection \<Rightarrow> bool" where
  ssl_handshake: "ssl_pending c = Handshake_pending \<Longrightarrow> ssl_step c (on_handshake ec c)"
| ssl_read: "ssl_pending c = Ssl_read_pending \<Longrightarrow> length bytes \<le> ssl_buffer_size \<Longrightarrow>
     ssl_step c (on_ssl_read ec bytes c)"
| ssl_write: "ssl_pending c = Ssl_write_pending \<Longrightarrow> ssl_step c (on_ssl_write ec c)"

inductive ssl_reach :: "string \<Rightarrow> ssl_connection \<Rightarrow> bool" for buf where
  ssl_reach_start: "ssl_reach buf (ssl_start buf)"
| ssl_reach_step: "ssl_reach buf c \<Longrightarrow> ssl_step c c' \<Longrightarrow> ssl_reach buf c'"

inductive_simps ssl_step_iff: "ssl_step c c'"

lemmas ssl_handlers = on_handshake_def on_ssl_read_def on_ssl_write_def ssl_do_read_def ssl_do_write_def

text \<open>
  While the connection waits for a read it has echoed everything; a read that reports an error may
  have delivered bytes that are not echoed.
\<close>

definition ssl_inv :: "ssl_connection \<Rightarrow> bool" where
  "ssl_inv c \<longleftrightarrow>
     length (ssl_buffer c) = ssl_buffer_size \<and>
     (if ssl_pending c = Ssl_released then prefix (ssl_written c) (ssl_received c)
      else ssl_written c = ssl_received c)"

lemma ssl_step_inv: "ssl_step c c' \<Longrightarrow> ssl_inv c \<Longrightarrow> ssl_inv c'"
  by (auto simp: ssl_step_iff ssl_handlers ssl_inv_def Let_def)

lemma ssl_reach_inv: "ssl_reach buf c \<Longrightarrow> length buf = ssl_buffer_size \<Longrightarrow> ssl_inv c"
proof (induction rule: ssl_reach.induct)
  case ssl_reach_start
  then show ?case by (simp add: ssl_inv_def ssl_start_def do_handshake_def)
next
  case (ssl_reach_step c c')
  then show ?case using ssl_step_inv by blast
qed

subsection \<open>Properties\<close>

text \<open>C20 (tls_echoes). A TLS connection is an echo service: whatever a client sends, a complete HTTP request
  included, what it is sent is a prefix of its own bytes, and while the connection waits for more
  it has been sent exactly its own bytes. The uninitialised part of the buffer is never sent.\<close>

theorem tls_echoes:
  assumes "ssl_reach buf c" "length buf = ssl_buffer_size"
  shows "prefix (ssl_written c) (ssl_received c) \<and>
    (ssl_pending c = Ssl_read_pending \<longrightarrow> ssl_written c = ssl_received c)"
  using ssl_reach_inv [OF assms] by (auto simp: ssl_inv_def split: if_splits)

theorem tls_echoes_witness:
  "ssl_written (on_ssl_read False ''GET'' (on_handshake False (ssl_start (replicate ssl_buffer_size CR)))) = ''GET''"
proof -
  let ?c = "on_handshake False (ssl_start (replicate ssl_buffer_size CR))"
  let ?d = "on_ssl_write False (on_ssl_read False ''GET'' ?c)"
  have p: "ssl_pending (ssl_start (replicate ssl_buffer_size CR)) = Handshake_pending"
    "ssl_pending ?c = Ssl_read_pending" "ssl_pending (on_ssl_read False ''GET'' ?c) = Ssl_write_pending"
    "ssl_pending ?d = Ssl_read_pending"
    by (simp_all add: ssl_start_def do_handshake_def ssl_handlers Let_def)
  have l: "length ''GET'' \<le> ssl_buffer_size" by (simp add: ssl_buffer_size_def)
  have "ssl_reach (replicate ssl_buffer_size CR) ?d"
    by (intro ssl_reach_step [OF _ ssl_write [OF p(3)]] ssl_reach_step [OF _ ssl_read [OF p(2) l]]
        ssl_reach_step [OF _ ssl_handshake [OF p(1)]] ssl_reach_start)
  from tls_echoes [OF this] p(4) have "ssl_written ?d = ssl_received ?d" by simp
  then show ?thesis by (simp add: ssl_start_def do_handshake_def ssl_handlers Let_def)
qed

end
