(* ===== verification/Io_Context_Pool.thy ===== *)
theory Io_Context_Pool
  imports Prelude
begin

section \<open>The pool of I/O contexts (\<open>whz_io_context_pool.hpp\<close>, \<open>whz_io_context_pool.cpp\<close>)\<close>

text \<open>
  A pool hands out its contexts in turn. A context is kept from running out of work by its guard,
  so it runs until it is stopped; \<open>ctx_threads\<close> counts the threads in its \<open>run\<close>. The
  constructor leaves the process when the size is zero, which is \<open>None\<close> here; in
  \<open>get_io_context\<close> an index outside the vector would be undefined behaviour, also \<open>None\<close>.
\<close>

record io_context =
  ctx_threads :: nat
  ctx_stopped :: bool

record io_context_pool =
  io_contexts :: "io_context list"
  work :: "nat list"
  next_io_context :: nat

definition new_io_context_pool :: "nat \<Rightarrow> io_context_pool option" where
  "new_io_context_pool pool_size =
     (if pool_size = 0 then None
      else Some (fold
        (\<lambda>i p. p\<lparr>io_contexts := io_contexts p @ [\<lparr>ctx_threads = 0, ctx_stopped = False\<rparr>], work := work p @ [i]\<rparr>)
        [0..<pool_size] \<lparr>io_contexts = [], work = [], next_io_context = 0\<rparr>))"

definition run_pool :: "io_context_pool \<Rightarrow> io_context_pool" where
  "run_pool p = p\<lparr>io_contexts := map (\<lambda>c. c\<lparr>ctx_threads := Suc (ctx_threads c)\<rparr>) (io_contexts p)\<rparr>"

definition stop_pool :: "io_context_pool \<Rightarrow> io_context_pool" where
  "stop_pool p = p\<lparr>io_contexts := map (\<lambda>c. c\<lparr>ctx_stopped := True\<rparr>) (io_contexts p)\<rparr>"

definition get_io_context :: "io_context_pool \<Rightarrow> (nat \<times> io_context_pool) option" where
  "get_io_context p =
     (if next_io_context p < length (io_contexts p) then
        (let i = next_io_context p;
             p1 = p\<lparr>next_io_context := next_io_context p + 1\<rparr>;
             p2 = (if next_io_context p1 = length (io_contexts p1) then p1\<lparr>next_io_context := 0\<rparr> else p1)
         in Some (i, p2))
      else None)"

text \<open>Handlers run on a context that a thread runs and that is not stopped.\<close>

definition context_runs :: "io_context_pool \<Rightarrow> nat \<Rightarrow> bool" where
  "context_runs p i \<longleftrightarrow>
     i < length (io_contexts p) \<and> 0 < ctx_threads (io_contexts p ! i) \<and> \<not> ctx_stopped (io_contexts p ! i)"

definition pool_runs :: "io_context_pool \<Rightarrow> bool" where
  "pool_runs p \<longleftrightarrow> list_all (\<lambda>c. 0 < ctx_threads c \<and> \<not> ctx_stopped c) (io_contexts p)"

definition pool_stopped :: "io_context_pool \<Rightarrow> bool" where
  "pool_stopped p \<longleftrightarrow> list_all ctx_stopped (io_contexts p)"

lemma context_runs_iff:
  "pool_runs p \<Longrightarrow> context_runs p i \<longleftrightarrow> i < length (io_contexts p)"
  "pool_stopped p \<Longrightarrow> \<not> context_runs p i"
  by (auto simp: context_runs_def pool_runs_def pool_stopped_def list_all_length)

lemma stop_pool_stopped [simp]: "pool_stopped (stop_pool p)"
  by (simp add: pool_stopped_def stop_pool_def list_all_length)

subsection \<open>Round robin\<close>

text \<open>Taking several times, and the contract of a source of indices that goes round.\<close>

fun takes :: "('s \<Rightarrow> (nat \<times> 's) option) \<Rightarrow> nat \<Rightarrow> 's \<Rightarrow> (nat list \<times> 's) option" where
  "takes tk 0 s = Some ([], s)"
| "takes tk (Suc k) s =
     (case takes tk k s of
        None \<Rightarrow> None
      | Some (is, s') \<Rightarrow> (case tk s' of None \<Rightarrow> None | Some (i, s'') \<Rightarrow> Some (is @ [i], s'')))"

locale round_robin =
  fixes tk :: "'s \<Rightarrow> (nat \<times> 's) option"
    and size_of :: "'s \<Rightarrow> nat"
    and pos :: "'s \<Rightarrow> nat"
    and inv :: "'s \<Rightarrow> bool"
  assumes pos_less: "inv s \<Longrightarrow> pos s < size_of s"
    and tk_step: "inv s \<Longrightarrow> \<exists>s'. tk s = Some (pos s, s') \<and> inv s' \<and> size_of s' = size_of s \<and>
      pos s' = Suc (pos s) mod size_of s"
begin

lemma takes_round:
  "inv s \<Longrightarrow> \<exists>s'. takes tk k s = Some (map (\<lambda>i. (pos s + i) mod size_of s) [0..<k], s') \<and> inv s' \<and>
     size_of s' = size_of s \<and> pos s' = (pos s + k) mod size_of s"
proof (induction k)
  case 0
  then show ?case using pos_less [of s] by simp
next
  case (Suc k)
  then obtain s' where s': "takes tk k s = Some (map (\<lambda>i. (pos s + i) mod size_of s) [0..<k], s')"
      "inv s'" "size_of s' = size_of s" "pos s' = (pos s + k) mod size_of s"
    by blast
  from tk_step [OF s'(2)] obtain s'' where "tk s' = Some (pos s', s'')" "inv s''" "size_of s'' = size_of s'"
      "pos s'' = Suc (pos s') mod size_of s'"
    by blast
  with s' show ?case by (auto simp: mod_Suc_eq)
qed

end

text \<open>Any number of calls is spread evenly.\<close>

lemma count_mod:
  assumes "0 < n" "i < n"
  shows "count_list (map (\<lambda>j. j mod n) [0..<k]) i = k div n + (if i < k mod n then 1 else 0)"
proof (induction k)
  case (Suc k)
  have "count_list (map (\<lambda>j. j mod n) [0..<Suc k]) i
      = k div n + (if i < k mod n then 1 else 0) + (if k mod n = i then 1 else 0)"
    using Suc by simp
  moreover have "k mod n < n" using assms(1) by simp
  ultimately show ?case
    using assms by (auto simp: div_Suc mod_Suc)
qed simp

lemma new_pool_fold:
  "fold (\<lambda>i p. p\<lparr>io_contexts := io_contexts p @ [c], work := work p @ [i]\<rparr>) is p =
   p\<lparr>io_contexts := io_contexts p @ replicate (length is) c, work := work p @ is\<rparr>"
  by (induction "is" arbitrary: p) (simp_all add: replicate_append_same)

lemma new_pool_eq:
  "0 < n \<Longrightarrow> new_io_context_pool n =
     Some \<lparr>io_contexts = replicate n \<lparr>ctx_threads = 0, ctx_stopped = False\<rparr>, work = [0..<n], next_io_context = 0\<rparr>"
  by (simp add: new_io_context_pool_def new_pool_fold)

definition pool_inv :: "io_context_pool \<Rightarrow> bool" where
  "pool_inv p \<longleftrightarrow> next_io_context p < length (io_contexts p) \<and> length (work p) = length (io_contexts p)"

interpretation pool_rr: round_robin get_io_context "\<lambda>p. length (io_contexts p)" next_io_context pool_inv
  by unfold_locales (auto simp: pool_inv_def get_io_context_def Let_def mod_Suc)

lemma get_io_context_keeps: "get_io_context p = Some (i, p') \<Longrightarrow> io_contexts p' = io_contexts p"
  by (auto simp: get_io_context_def Let_def split: if_splits)

lemma get_io_context_less: "get_io_context p = Some (i, p') \<Longrightarrow> i < length (io_contexts p)"
  by (simp add: get_io_context_def Let_def split: if_splits)

lemma new_pool_inv:
  "new_io_context_pool n = Some p \<Longrightarrow> pool_inv p \<and> length (io_contexts p) = n \<and> next_io_context p = 0 \<and>
     list_all (\<lambda>c. \<not> ctx_stopped c) (io_contexts p)"
  by (cases "n = 0") (simp add: new_io_context_pool_def, auto simp: pool_inv_def new_pool_eq list_all_iff)

subsection \<open>Properties\<close>

text \<open>C33 (pool_round_robin). From a new pool of \<open>n\<close> contexts, \<open>k\<close> calls of \<open>get_io_context\<close> never run outside the
  vector, hand out the contexts in turn, and spread evenly: each context is handed out \<open>k div n\<close>
  times or once more. A pool of size zero is never built.\<close>

theorem pool_round_robin:
  "case new_io_context_pool n of
     None \<Rightarrow> n = 0
   | Some p \<Rightarrow>
       0 < n \<and>
       (\<exists>p'. takes get_io_context k p = Some (map (\<lambda>j. j mod n) [0..<k], p')) \<and>
       list_all (\<lambda>i. count_list (map (\<lambda>j. j mod n) [0..<k]) i = k div n + (if i < k mod n then 1 else 0)) [0..<n]"
proof (cases "n = 0")
  case False
  then obtain p where p: "new_io_context_pool n = Some p" by (simp add: new_pool_eq)
  with new_pool_inv [OF p] pool_rr.takes_round [of p k] False show ?thesis
    by (auto simp: list_all_iff count_mod)
qed (simp add: new_io_context_pool_def)

text \<open>(pool_stops). Stopping a pool stops every one of its contexts, so every thread \<open>run\<close> has started can
  return, and neither operation changes which context is handed out next.\<close>

theorem pool_stops:
  "list_all ctx_stopped (io_contexts (stop_pool (run_pool p))) \<and>
   map ctx_threads (io_contexts (stop_pool (run_pool p))) = map (\<lambda>c. Suc (ctx_threads c)) (io_contexts p) \<and>
   map_option fst (get_io_context (stop_pool (run_pool p))) = map_option fst (get_io_context p)"
  by (auto simp: stop_pool_def run_pool_def list_all_iff get_io_context_def Let_def)

end
