(* ===== verification/Server.thy ===== *)
theory Server
  imports Io_Context_Pool "HOL-Library.Multiset"
begin

section \<open>The server (\<open>whz_server.hpp\<close>, \<open>whz_server.cpp\<close>)\<close>

text \<open>
  The server binds an acceptor and keeps asynchronous accept operations outstanding. The state
  has what it is built with (the address, the port, and the document root, which its request handler
  keeps) and records whether the acceptor is open, the accept operations in flight (by the handler
  they will run), the context each accepted socket will live on, and the connections started so far.
  The network is a parameter of binding: resolving the address and the text of the port, opening,
  binding and listening are called in their throwing forms, so they give an exception or nothing.
  Nothing closes the acceptor. The handlers of
  the accepts run on the context of the acceptor, that of the signal on its own, as long as the
  pool runs these contexts; the signal stops them all.
\<close>

datatype accept_handler = Start_accept_http | Do_accept_http | Do_accept | Start_accept

datatype started = Plain_connection | Tls_connection

text \<open>What the network answers to binding an address and a service name.\<close>

type_synonym net = "string \<Rightarrow> string \<Rightarrow> exn option"

record server =
  srv_address :: string
  srv_port :: u32
  srv_root :: string
  srv_open :: bool
  srv_pool :: io_context_pool
  srv_signals :: nat
  srv_acceptor :: nat
  srv_accepts :: "(accept_handler \<times> nat) list"
  srv_started :: "started list"

text \<open>A failing \<open>get_io_context\<close> (an index outside the vector) is \<open>None\<close> throughout.\<close>

definition new_server :: "string \<Rightarrow> u32 \<Rightarrow> string \<Rightarrow> nat \<Rightarrow> server option" where
  "new_server address port documents_root io_pool_size =
     (case new_io_context_pool io_pool_size of
        None \<Rightarrow> None
      | Some p0 \<Rightarrow>
          (case get_io_context p0 of
             None \<Rightarrow> None
           | Some (s, p1) \<Rightarrow>
               (case get_io_context p1 of
                  None \<Rightarrow> None
                | Some (a, p2) \<Rightarrow>
                    Some \<lparr>srv_address = address, srv_port = port, srv_root = documents_root, srv_open = False,
                          srv_pool = p2, srv_signals = s, srv_acceptor = a, srv_accepts = [], srv_started = []\<rparr>)))"

text \<open>Binding the endpoint of the server.\<close>

definition bind_error :: "net \<Rightarrow> server \<Rightarrow> exn option" where
  "bind_error net s = net (srv_address s) (dec_string (unat (srv_port s)))"

definition async_accept :: "accept_handler \<Rightarrow> server \<Rightarrow> server option" where
  "async_accept h s =
     (case get_io_context (srv_pool s) of
        None \<Rightarrow> None
      | Some (i, p) \<Rightarrow> Some (s\<lparr>srv_pool := p, srv_accepts := srv_accepts s @ [(h, i)]\<rparr>))"

definition do_accept_http :: "server \<Rightarrow> server option" where
  "do_accept_http s = async_accept Do_accept_http s"

definition do_accept :: "server \<Rightarrow> server option" where
  "do_accept s = async_accept Do_accept s"

definition start_accept_http :: "server \<Rightarrow> server option" where
  "start_accept_http s = (if \<not> srv_open s then Some s else async_accept Start_accept_http s)"

definition start_accept :: "server \<Rightarrow> server option" where
  "start_accept s = (if \<not> srv_open s then Some s else async_accept Start_accept s)"

text \<open>The inner option is the returned error code, the sum an exception of the network calls.\<close>

definition bind_and_listen_http :: "net \<Rightarrow> server \<Rightarrow> exn + (nat option \<times> server) option" where
  "bind_and_listen_http net s =
     (case bind_error net s of
        Some e \<Rightarrow> Inl e
      | None \<Rightarrow> Inr (map_option (\<lambda>s1. (None, s1)) (do_accept_http (s\<lparr>srv_open := True\<rparr>))))"

definition bind_and_listen :: "net \<Rightarrow> server \<Rightarrow> exn + (nat option \<times> server) option" where
  "bind_and_listen net s =
     (case get_io_context (srv_pool s) of
        None \<Rightarrow> Inr None
      | Some (_, p) \<Rightarrow>
          (case bind_error net s of
             Some e \<Rightarrow> Inl e
           | None \<Rightarrow>
               Inr (map_option (\<lambda>s1. (None, s1)) (do_accept (s\<lparr>srv_pool := p, srv_open := True\<rparr>)))))"

text \<open>\<open>io_error\<close> is the error code \<open>std::errc::io_error\<close>. The pool then runs, which is where the
  accept operations complete (the step relation below).\<close>

definition io_error :: nat where
  "io_error = 5"

definition listen_and_serve_http :: "net \<Rightarrow> server \<Rightarrow> exn + (nat option \<times> server) option" where
  "listen_and_serve_http net s =
     (case bind_and_listen_http net s of
        Inl e \<Rightarrow> Inl e
      | Inr None \<Rightarrow> Inr None
      | Inr (Some (Some ec, s1)) \<Rightarrow> Inr (Some (Some io_error, s1))
      | Inr (Some (None, s1)) \<Rightarrow>
          Inr (map_option (\<lambda>s2. (None, s2\<lparr>srv_pool := run_pool (srv_pool s2)\<rparr>)) (start_accept_http s1)))"

definition listen_and_serve_tls :: "net \<Rightarrow> server \<Rightarrow> exn + (nat option \<times> server) option" where
  "listen_and_serve_tls net s =
     (case bind_and_listen net s of
        Inl e \<Rightarrow> Inl e
      | Inr None \<Rightarrow> Inr None
      | Inr (Some (Some ec, s1)) \<Rightarrow> Inr (Some (Some io_error, s1))
      | Inr (Some (None, s1)) \<Rightarrow>
          Inr (map_option (\<lambda>s2. (None, s2\<lparr>srv_pool := run_pool (srv_pool s2)\<rparr>)) (start_accept s1)))"

text \<open>The completion handlers; \<open>ec\<close> says that the accept failed.\<close>

definition start_connection :: "started \<Rightarrow> server \<Rightarrow> server" where
  "start_connection k s = s\<lparr>srv_started := srv_started s @ [k]\<rparr>"

fun on_accept :: "accept_handler \<Rightarrow> bool \<Rightarrow> server \<Rightarrow> server option" where
  "on_accept Do_accept_http ec s =
     (if \<not> srv_open s then Some s
      else do_accept_http (if \<not> ec then start_connection Plain_connection s else s))"
| "on_accept Do_accept ec s =
     (if \<not> srv_open s then Some s else do_accept (start_connection Plain_connection s))"
| "on_accept Start_accept_http ec s =
     do_accept_http (if \<not> ec then start_connection Plain_connection s else s)"
| "on_accept Start_accept ec s =
     (if \<not> srv_open s then Some s
      else start_accept (if \<not> ec then start_connection Tls_connection s else s))"

definition do_await_stop :: "server \<Rightarrow> server" where
  "do_await_stop s = s\<lparr>srv_pool := stop_pool (srv_pool s)\<rparr>"

text \<open>The accept operation number \<open>n\<close> completes: it is no longer outstanding, and its handler runs.\<close>

definition remove_accept :: "nat \<Rightarrow> server \<Rightarrow> server" where
  "remove_accept n s = s\<lparr>srv_accepts := take n (srv_accepts s) @ drop (Suc n) (srv_accepts s)\<rparr>"

definition complete_nth :: "nat \<Rightarrow> bool \<Rightarrow> server \<Rightarrow> server option" where
  "complete_nth n ec s = on_accept (fst (srv_accepts s ! n)) ec (remove_accept n s)"

definition accepting :: "server \<Rightarrow> bool" where
  "accepting s \<longleftrightarrow> context_runs (srv_pool s) (srv_acceptor s)"

definition signals_heard :: "server \<Rightarrow> bool" where
  "signals_heard s \<longleftrightarrow> context_runs (srv_pool s) (srv_signals s)"

inductive server_step :: "server \<Rightarrow> server \<Rightarrow> bool" where
  step_accept: "accepting s \<Longrightarrow> n < length (srv_accepts s) \<Longrightarrow> complete_nth n ec s = Some s' \<Longrightarrow> server_step s s'"
| step_signal: "signals_heard s \<Longrightarrow> server_step s (do_await_stop s)"

inductive server_reach :: "server \<Rightarrow> server \<Rightarrow> bool" for s0 where
  server_start: "server_reach s0 s0"
| server_next: "server_reach s0 s \<Longrightarrow> server_step s s' \<Longrightarrow> server_reach s0 s'"

subsection \<open>Invariants\<close>

definition handlers :: "server \<Rightarrow> accept_handler list" where
  "handlers s = map fst (srv_accepts s)"

definition indices_ok :: "server \<Rightarrow> bool" where
  "indices_ok s \<longleftrightarrow> pool_inv (srv_pool s) \<and>
     list_all (\<lambda>i. i < length (io_contexts (srv_pool s))) (srv_signals s # srv_acceptor s # map snd (srv_accepts s))"

text \<open>What no operation of a started server but the signal changes.\<close>

definition same_contexts :: "server \<Rightarrow> server \<Rightarrow> bool" where
  "same_contexts s s' \<longleftrightarrow> io_contexts (srv_pool s') = io_contexts (srv_pool s) \<and> srv_acceptor s' = srv_acceptor s \<and>
     srv_signals s' = srv_signals s"

lemma same_contexts_runs:
  "same_contexts s s' \<Longrightarrow> accepting s' = accepting s \<and> signals_heard s' = signals_heard s \<and>
     pool_runs (srv_pool s') = pool_runs (srv_pool s) \<and> pool_stopped (srv_pool s') = pool_stopped (srv_pool s) \<and>
     context_runs (srv_pool s') i = context_runs (srv_pool s) i"
  by (simp add: same_contexts_def accepting_def signals_heard_def context_runs_def pool_runs_def pool_stopped_def)

lemma same_contexts_trans: "same_contexts s t \<Longrightarrow> same_contexts t u \<Longrightarrow> same_contexts s u"
  by (simp add: same_contexts_def)

lemma async_accept_ok:
  assumes "indices_ok s"
  shows "\<exists>s'. async_accept h s = Some s' \<and> indices_ok s' \<and> handlers s' = handlers s @ [h] \<and>
    srv_open s' = srv_open s \<and> srv_started s' = srv_started s \<and> same_contexts s s'"
proof -
  have i: "pool_inv (srv_pool s)" using assms by (simp add: indices_ok_def)
  from pool_rr.tk_step [OF i] obtain p where p: "get_io_context (srv_pool s) = Some (next_io_context (srv_pool s), p)"
    "pool_inv p" by blast
  from get_io_context_keeps [OF p(1)] get_io_context_less [OF p(1)] show ?thesis
    using assms p by (auto simp: async_accept_def indices_ok_def handlers_def list_all_iff same_contexts_def)
qed

lemmas accept_defs = do_accept_http_def do_accept_def start_accept_http_def start_accept_def start_connection_def

lemma start_connection_keeps [simp]:
  "indices_ok (start_connection k s) = indices_ok s" "handlers (start_connection k s) = handlers s"
  "srv_open (start_connection k s) = srv_open s"
  "srv_started (start_connection k s) = srv_started s @ [k]" "same_contexts (start_connection k s) t = same_contexts s t"
  by (simp_all add: start_connection_def indices_ok_def handlers_def same_contexts_def)

text \<open>What a handler leaves outstanding when the acceptor is open.\<close>

fun next_handler :: "accept_handler \<Rightarrow> accept_handler" where
  "next_handler Start_accept_http = Do_accept_http"
| "next_handler h = h"

fun handler_starts :: "accept_handler \<Rightarrow> started" where
  "handler_starts Start_accept = Tls_connection"
| "handler_starts _ = Plain_connection"

lemma on_accept_eq:
  "srv_open s \<Longrightarrow> on_accept h ec s =
     async_accept (next_handler h)
       (if ec \<and> h \<noteq> Do_accept then s else start_connection (handler_starts h) s)"
  by (cases h; cases ec) (simp_all add: do_accept_http_def do_accept_def start_accept_def)

lemma on_accept_ok:
  assumes "indices_ok s" "srv_open s"
  shows "\<exists>s'. on_accept h ec s = Some s' \<and> indices_ok s' \<and> handlers s' = handlers s @ [next_handler h] \<and>
    srv_open s' \<and> same_contexts s s' \<and>
    srv_started s' = srv_started s @ (if ec \<and> h \<noteq> Do_accept then [] else [handler_starts h])"
  using async_accept_ok [of "if ec \<and> h \<noteq> Do_accept then s else start_connection (handler_starts h) s" "next_handler h"]
    assms
  by (simp add: on_accept_eq split del: if_split) (auto split: if_splits)

lemma remove_accept_keeps:
  assumes "n < length (srv_accepts s)"
  shows "mset (handlers (remove_accept n s)) = mset (handlers s) - {#fst (srv_accepts s ! n)#}"
    "fst (srv_accepts s ! n) \<in> set (handlers s)"
    "indices_ok s \<Longrightarrow> indices_ok (remove_accept n s)" "srv_open (remove_accept n s) = srv_open s"
    "srv_started (remove_accept n s) = srv_started s" "same_contexts (remove_accept n s) t = same_contexts s t"
proof -
  have eq: "srv_accepts s = take n (srv_accepts s) @ srv_accepts s ! n # drop (Suc n) (srv_accepts s)"
    using id_take_nth_drop [OF assms] .
  show "mset (handlers (remove_accept n s)) = mset (handlers s) - {#fst (srv_accepts s ! n)#}"
    using arg_cong [OF eq, of "\<lambda>a. mset (map fst a)"] by (simp add: remove_accept_def handlers_def)
  show "fst (srv_accepts s ! n) \<in> set (handlers s)" using assms by (simp add: handlers_def)
  show "indices_ok (remove_accept n s)" if "indices_ok s"
    using that by (auto simp: indices_ok_def remove_accept_def list_all_iff dest: in_set_takeD in_set_dropD)
qed (simp_all add: remove_accept_def same_contexts_def)

text \<open>What the completion of an accept does to a server whose acceptor is open.\<close>

lemma complete_nth_ok:
  assumes "indices_ok s" "srv_open s" "n < length (srv_accepts s)"
  shows "\<exists>s'. complete_nth n ec s = Some s' \<and> indices_ok s' \<and> srv_open s' \<and> same_contexts s s' \<and>
    mset (handlers s') = mset (handlers s) - {#fst (srv_accepts s ! n)#} + {#next_handler (fst (srv_accepts s ! n))#} \<and>
    srv_started s' = srv_started s @ (if ec \<and> fst (srv_accepts s ! n) \<noteq> Do_accept then [] else [handler_starts (fst (srv_accepts s ! n))])"
  using on_accept_ok [of "remove_accept n s" "fst (srv_accepts s ! n)" ec] remove_accept_keeps [OF assms(3)] assms(1,2)
  by (auto simp: complete_nth_def simp del: mset_map)

lemma complete_accept:
  assumes "indices_ok s" "srv_open s" "accepting s" "h \<in> set (handlers s)"
  shows "\<exists>s'. server_step s s' \<and>
    srv_started s' = srv_started s @ (if ec \<and> h \<noteq> Do_accept then [] else [handler_starts h])"
proof -
  from assms(4) obtain n where n: "n < length (srv_accepts s)" "fst (srv_accepts s ! n) = h"
    by (auto simp: handlers_def in_set_conv_nth)
  from complete_nth_ok [OF assms(1,2) n(1), of ec] step_accept [OF assms(3) n(1), of ec] n(2) show ?thesis by blast
qed

text \<open>
  The invariant: the indices are in range, the acceptor is open, all contexts run or all are stopped,
  and a set of handlers that each leave the same kind outstanding accounts for all accepts in flight.
\<close>

definition server_inv :: "accept_handler multiset set \<Rightarrow> started set \<Rightarrow> server \<Rightarrow> bool" where
  "server_inv M K s \<longleftrightarrow> indices_ok s \<and> srv_open s \<and> (pool_runs (srv_pool s) \<or> pool_stopped (srv_pool s)) \<and>
     mset (handlers s) \<in> M \<and> set (srv_started s) \<subseteq> K"

lemma server_inv_accepting: "server_inv M K s \<Longrightarrow> accepting s \<longleftrightarrow> \<not> pool_stopped (srv_pool s)"
  using context_runs_iff [of "srv_pool s" "srv_acceptor s"] by (auto simp: server_inv_def accepting_def indices_ok_def)

lemma do_await_stop_keeps:
  "indices_ok (do_await_stop s) = indices_ok s" "handlers (do_await_stop s) = handlers s"
  "srv_open (do_await_stop s) = srv_open s" "srv_started (do_await_stop s) = srv_started s"
  "pool_stopped (srv_pool (do_await_stop s))"
  by (simp_all add: do_await_stop_def indices_ok_def handlers_def)
     (simp add: stop_pool_def pool_inv_def)

definition closed_handlers :: "accept_handler multiset set \<Rightarrow> started set \<Rightarrow> bool" where
  "closed_handlers M K \<longleftrightarrow>
     (\<forall>m \<in> M. \<forall>h \<in># m. m - {#h#} + {#next_handler h#} \<in> M \<and> handler_starts h \<in> K)"

lemma server_step_inv:
  assumes "closed_handlers M K" "server_step s s'" "server_inv M K s"
  shows "server_inv M K s'"
  using assms(2)
proof cases
  case (step_accept n ec)
  have "indices_ok s" "srv_open s" using assms(3) by (simp_all add: server_inv_def)
  from complete_nth_ok [OF this step_accept(2), of ec] step_accept(3) have s':
    "indices_ok s'" "srv_open s'" "same_contexts s s'"
    "mset (handlers s') = mset (handlers s) - {#fst (srv_accepts s ! n)#} + {#next_handler (fst (srv_accepts s ! n))#}"
    "set (srv_started s') \<subseteq> set (srv_started s) \<union> {handler_starts (fst (srv_accepts s ! n))}"
    by (auto split: if_splits)
  have "fst (srv_accepts s ! n) \<in># mset (handlers s)" using remove_accept_keeps(2) [OF step_accept(2)] by simp
  then have "mset (handlers s') \<in> M" "handler_starts (fst (srv_accepts s ! n)) \<in> K"
    using assms(1,3) s'(4) unfolding closed_handlers_def server_inv_def by metis+
  with s' same_contexts_runs [OF s'(3)] assms(3) show ?thesis by (auto simp: server_inv_def)
next
  case step_signal
  with assms(3) show ?thesis by (simp add: server_inv_def do_await_stop_keeps)
qed

lemma server_reach_inv: "server_reach s0 s \<Longrightarrow> closed_handlers M K \<Longrightarrow> server_inv M K s0 \<Longrightarrow> server_inv M K s"
  by (induction rule: server_reach.induct) (simp_all add: server_step_inv)

subsection \<open>Start-up\<close>

definition fresh_server :: "server \<Rightarrow> bool" where
  "fresh_server s \<longleftrightarrow> indices_ok s \<and> srv_accepts s = [] \<and> srv_started s = [] \<and>
     list_all (\<lambda>c. \<not> ctx_stopped c) (io_contexts (srv_pool s))"

lemma new_server_ok:
  assumes "new_server address port root n = Some s"
  shows "fresh_server s"
proof -
  from assms obtain p0 p1 p2 i k where p: "new_io_context_pool n = Some p0" "get_io_context p0 = Some (i, p1)"
      "get_io_context p1 = Some (k, p2)" "srv_pool s = p2" "srv_accepts s = []" "srv_started s = []"
      "srv_signals s = i" "srv_acceptor s = k"
    by (auto simp: new_server_def split: option.splits prod.splits)
  have p0: "pool_inv p0" "list_all (\<lambda>c. \<not> ctx_stopped c) (io_contexts p0)" using new_pool_inv [OF p(1)] by simp_all
  from pool_rr.tk_step [OF p0(1)] p(2) have "pool_inv p1" by auto
  from pool_rr.tk_step [OF this] p(3) have "pool_inv p2" by auto
  with p p0 get_io_context_keeps [OF p(2)] get_io_context_keeps [OF p(3)] get_io_context_less [OF p(2)]
    get_io_context_less [OF p(3)]
  show ?thesis by (simp add: fresh_server_def indices_ok_def)
qed

lemma run_pool_keeps:
  "indices_ok (s\<lparr>srv_pool := run_pool (srv_pool s)\<rparr>) = indices_ok s"
  "pool_runs (run_pool p) \<longleftrightarrow> list_all (\<lambda>c. \<not> ctx_stopped c) (io_contexts p)"
  by (simp_all add: indices_ok_def run_pool_def pool_inv_def pool_runs_def list_all_length)

text \<open>What \<open>listen_and_serve\<close> leaves behind when the network lets it.\<close>

definition listening :: "accept_handler list \<Rightarrow> server \<Rightarrow> bool" where
  "listening hs s \<longleftrightarrow> indices_ok s \<and> srv_open s \<and> handlers s = hs \<and> srv_started s = [] \<and> pool_runs (srv_pool s)"

lemma listening_inv: "listening hs s \<Longrightarrow> mset hs \<in> M \<Longrightarrow> server_inv M K s"
  by (simp add: listening_def server_inv_def)

text \<open>Both forms start two accepts and then run the pool.\<close>

lemma two_accepts:
  assumes "indices_ok s" "srv_accepts s = []" "srv_started s = []" "srv_open s"
    and "list_all (\<lambda>c. \<not> ctx_stopped c) (io_contexts (srv_pool s))"
  shows "\<exists>s1 s2. async_accept h s = Some s1 \<and> srv_open s1 \<and> async_accept k s1 = Some s2 \<and>
    listening [h, k] (s2\<lparr>srv_pool := run_pool (srv_pool s2)\<rparr>)"
proof -
  from async_accept_ok [OF assms(1), of h] obtain s1 where s1: "async_accept h s = Some s1" "indices_ok s1"
    "handlers s1 = handlers s @ [h]" "srv_open s1 = srv_open s" "srv_started s1 = srv_started s" "same_contexts s s1" by blast
  from async_accept_ok [OF s1(2), of k] obtain s2 where s2: "async_accept k s1 = Some s2" "indices_ok s2"
    "handlers s2 = handlers s1 @ [k]" "srv_open s2 = srv_open s1" "srv_started s2 = srv_started s1" "same_contexts s1 s2" by blast
  have "io_contexts (srv_pool s2) = io_contexts (srv_pool s)" using s1(6) s2(6) by (simp add: same_contexts_def)
  with assms s1 s2 show ?thesis by (auto simp: listening_def run_pool_keeps handlers_def)
qed

lemma listen_http_ok:
  assumes "fresh_server s" "bind_error net s = None"
  shows "\<exists>s'. listen_and_serve_http net s = Inr (Some (None, s')) \<and> listening [Do_accept_http, Start_accept_http] s'"
  using two_accepts [of "s\<lparr>srv_open := True\<rparr>" Do_accept_http Start_accept_http] assms
  by (auto simp: fresh_server_def indices_ok_def listen_and_serve_http_def bind_and_listen_http_def accept_defs)

lemma listen_tls_ok:
  assumes "fresh_server s" "bind_error net s = None"
  shows "\<exists>s'. listen_and_serve_tls net s = Inr (Some (None, s')) \<and> listening [Do_accept, Start_accept] s'"
proof -
  have i: "pool_inv (srv_pool s)" using assms(1) by (simp add: fresh_server_def indices_ok_def)
  from pool_rr.tk_step [OF i] obtain p where p: "get_io_context (srv_pool s) = Some (next_io_context (srv_pool s), p)"
      "pool_inv p" by blast
  with two_accepts [of "s\<lparr>srv_pool := p, srv_open := True\<rparr>" Do_accept Start_accept] assms get_io_context_keeps [OF p(1)]
  show ?thesis
    by (auto simp: fresh_server_def indices_ok_def listen_and_serve_tls_def bind_and_listen_def accept_defs)
qed

subsection \<open>Properties\<close>

text \<open>A server that listens has bound its endpoint.\<close>

lemma listens_bound:
  "listen_and_serve_http net s = Inr (Some (r, s1)) \<Longrightarrow> bind_error net s = None"
  "listen_and_serve_tls net s = Inr (Some (r, s1)) \<Longrightarrow> bind_error net s = None"
  by (auto simp: listen_and_serve_http_def bind_and_listen_http_def listen_and_serve_tls_def bind_and_listen_def
      split: option.splits)

lemma listens_listening:
  assumes "new_server address port root n = Some s0"
  shows "listen_and_serve_http net s0 = Inr (Some (r, s1)) \<Longrightarrow> listening [Do_accept_http, Start_accept_http] s1"
    "listen_and_serve_tls net s0 = Inr (Some (r, s1)) \<Longrightarrow> listening [Do_accept, Start_accept] s1"
  using listen_http_ok [OF new_server_ok [OF assms], of net] listen_tls_ok [OF new_server_ok [OF assms], of net]
    listens_bound [of net s0 r s1]
  by auto

text \<open>(listen_errors_thrown). Neither form of \<open>listen_and_serve\<close> ever returns its error code: when resolving,
  binding or listening fails, the exception leaves the function, and otherwise it returns no
  error. On a newly built server no pool index is out of range on the way.\<close>

theorem listen_errors_thrown:
  assumes "new_server address port root n = Some s"
  shows "case net address (dec_string (unat port)) of
      Some e \<Rightarrow> listen_and_serve_http net s = Inl e \<and> listen_and_serve_tls net s = Inl e
    | None \<Rightarrow> (\<exists>s'. listen_and_serve_http net s = Inr (Some (None, s'))) \<and>
              (\<exists>s'. listen_and_serve_tls net s = Inr (Some (None, s')))"
proof -
  have net: "bind_error net s = net address (dec_string (unat port))"
    using assms by (auto simp: new_server_def bind_error_def split: option.splits prod.splits)
  show ?thesis
  proof (cases "bind_error net s")
    case None
    with listen_http_ok [OF new_server_ok [OF assms] None] listen_tls_ok [OF new_server_ok [OF assms] None] net
    show ?thesis by auto
  next
    case (Some e)
    have "pool_inv (srv_pool s)" using new_server_ok [OF assms] by (simp add: fresh_server_def indices_ok_def)
    from pool_rr.tk_step [OF this] Some net show ?thesis
      by (auto simp: listen_and_serve_http_def bind_and_listen_http_def listen_and_serve_tls_def bind_and_listen_def)
  qed
qed

text \<open>A server with one context, and a network that binds everything.\<close>

definition one_server :: "string \<Rightarrow> u32 \<Rightarrow> string \<Rightarrow> server" where
  "one_server address port root =
     \<lparr>srv_address = address, srv_port = port, srv_root = root, srv_open = False,
      srv_pool = \<lparr>io_contexts = [\<lparr>ctx_threads = 0, ctx_stopped = False\<rparr>], work = [0], next_io_context = 0\<rparr>,
      srv_signals = 0, srv_acceptor = 0, srv_accepts = [], srv_started = []\<rparr>"

lemma new_one_server: "new_server address port root 1 = Some (one_server address port root)"
  by (simp add: new_server_def new_io_context_pool_def get_io_context_def one_server_def)

abbreviation open_net :: net where
  "open_net \<equiv> \<lambda>address port. None"

lemma open_net_binds: "bind_error open_net s = None"
  by (simp add: bind_error_def)

theorem listen_errors_thrown_witness:
  "listen_and_serve_http (\<lambda>a p. Some (Runtime_error ''bind'')) (one_server ''::1'' 80 ''/srv'') = Inl (Runtime_error ''bind'')"
  using listen_errors_thrown [OF new_one_server [of "''::1''" 80 "''/srv''"], of "\<lambda>a p. Some (Runtime_error ''bind'')"] by simp

text \<open>C19 (tls_port_serves_plain). A server listening with TLS always has exactly two accepts outstanding, one that starts
  a TLS connection and one that starts a plain HTTP connection: at every moment until a signal has
  stopped the contexts, the next client of the TLS port can be served in plain text.\<close>

theorem tls_port_serves_plain:
  assumes "new_server address port root n = Some s0" "listen_and_serve_tls net s0 = Inr (Some (r, s1))" "server_reach s1 s"
  shows "mset (handlers s) = {#Do_accept, Start_accept#} \<and>
    (pool_stopped (srv_pool s) \<or>
      (\<exists>s'. server_step s s' \<and> srv_started s' = srv_started s @ [Plain_connection]) \<and>
      (\<exists>s'. server_step s s' \<and> srv_started s' = srv_started s @ [Tls_connection]))"
proof -
  have "listening [Do_accept, Start_accept] s1"
    using listens_listening(2) [OF assms(1,2)] .
  then have "server_inv {{#Do_accept, Start_accept#}} UNIV s1" by (rule listening_inv) simp
  then have inv: "server_inv {{#Do_accept, Start_accept#}} UNIV s"
    by (rule server_reach_inv [OF assms(3), rotated]) (auto simp: closed_handlers_def)
  then have m: "mset (handlers s) = {#Do_accept, Start_accept#}" by (simp add: server_inv_def)
  then have "Do_accept \<in> set (handlers s)" "Start_accept \<in> set (handlers s)"
    by (metis set_mset_mset insertI1 insert_commute set_mset_add_mset_insert)+
  with complete_accept [of s Do_accept False] complete_accept [of s Start_accept False] inv m
    server_inv_accepting [OF inv]
  show ?thesis by (auto simp: server_inv_def)
qed

theorem tls_port_serves_plain_witness:
  "case listen_and_serve_tls open_net (one_server ''::1'' 80 ''/srv'') of
     Inr (Some (_, s1)) \<Rightarrow> (\<exists>s'. server_step s1 s' \<and> srv_started s' = [Plain_connection])
   | _ \<Rightarrow> False"
proof -
  from listen_tls_ok [OF new_server_ok [OF new_one_server [of "''::1''" 80 "''/srv''"]] open_net_binds] obtain s1 where
    s1: "listen_and_serve_tls open_net (one_server ''::1'' 80 ''/srv'') = Inr (Some (None, s1))" "listening [Do_accept, Start_accept] s1" by auto
  have "\<not> pool_stopped (srv_pool s1)"
    using server_inv_accepting [OF listening_inv [OF s1(2) singletonI]] s1(2)
      context_runs_iff(1) [of "srv_pool s1" "srv_acceptor s1"]
    by (simp add: listening_def accepting_def indices_ok_def)
  with tls_port_serves_plain [OF new_one_server s1(1) server_start] s1 show ?thesis by (simp add: listening_def)
qed

text \<open>The invariant of a server listening without TLS.\<close>

definition http_handlers :: "accept_handler multiset set" where
  "http_handlers = {{#Do_accept_http, Start_accept_http#}, {#Do_accept_http, Do_accept_http#}}"

lemma http_inv:
  assumes "new_server address port root n = Some s0" "listen_and_serve_http net s0 = Inr (Some (r, s1))" "server_reach s1 s"
  shows "server_inv http_handlers {Plain_connection} s"
proof -
  have "listening [Do_accept_http, Start_accept_http] s1"
    using listens_listening(1) [OF assms(1,2)] .
  then have "server_inv http_handlers {Plain_connection} s1" by (rule listening_inv) (simp add: http_handlers_def)
  then show ?thesis by (rule server_reach_inv [OF assms(3), rotated]) (auto simp: closed_handlers_def http_handlers_def)
qed

lemma http_only:
  "new_server address port root n = Some s0 \<Longrightarrow> listen_and_serve_http net s0 = Inr (Some (r, s1)) \<Longrightarrow> server_reach s1 s \<Longrightarrow>
   set (srv_started s) \<subseteq> {Plain_connection}"
  using http_inv by (fastforce simp: server_inv_def)

text \<open>(http_port_serves_plain). A server listening without TLS starts plain connections only and always has exactly
  two accepts outstanding, so it accepts until a signal stops it; then it makes no step any more.\<close>

theorem http_port_serves_plain:
  assumes "new_server address port root n = Some s0" "listen_and_serve_http net s0 = Inr (Some (r, s1))" "server_reach s1 s"
  shows "length (srv_accepts s) = 2 \<and> set (srv_started s) \<subseteq> {Plain_connection} \<and>
    (if pool_stopped (srv_pool s) then \<not> (\<exists>s'. server_step s s')
     else \<exists>s'. server_step s s' \<and> srv_started s' = srv_started s @ [Plain_connection])"
proof -
  note inv = http_inv [OF assms]
  then have m: "mset (handlers s) \<in> http_handlers" by (simp add: server_inv_def)
  then have "length (handlers s) = 2" by (auto simp: http_handlers_def simp flip: size_mset)
  moreover have "Do_accept_http \<in> set (handlers s)"
    using m unfolding http_handlers_def by (metis insertE singletonD set_mset_mset insertI1 set_mset_add_mset_insert)
  moreover have "\<not> (\<exists>s'. server_step s s')" if "pool_stopped (srv_pool s)"
    using context_runs_iff(2) [OF that] by (auto simp: server_step.simps accepting_def signals_heard_def)
  ultimately show ?thesis
    using complete_accept [of s Do_accept_http False] inv server_inv_accepting [OF inv]
    by (simp add: server_inv_def handlers_def)
qed

theorem http_port_serves_plain_witness:
  "case listen_and_serve_http open_net (one_server ''::1'' 80 ''/srv'') of
     Inr (Some (_, s1)) \<Rightarrow> length (srv_accepts s1) = 2
   | _ \<Rightarrow> False"
proof -
  from listen_http_ok [OF new_server_ok [OF new_one_server [of "''::1''" 80 "''/srv''"]] open_net_binds] obtain s1 where
    s1: "listen_and_serve_http open_net (one_server ''::1'' 80 ''/srv'') = Inr (Some (None, s1))" by auto
  from http_port_serves_plain [OF new_one_server s1(1) server_start] s1 show ?thesis by simp
qed

end
