(* ===== verification/Running_Server.thy ===== *)
theory Running_Server
  imports Connection_Stream Ssl_Connection Server
begin

section \<open>The running server with its connections\<close>

text \<open>
  A running server is the server object and the connections it has started, each on the context its
  socket was given. The events are the completions of the asynchronous operations in flight: of an
  accept, of a handshake, read or write of a client, and the signal. A handler runs only while the
  context it belongs to runs. An exception that leaves a handler leaves the thread, which ends the
  process; the only one is that of \<open>shutdown\<close> in the write handler of a plain connection. Connections
  share the request handler, which does not change, and nothing else; so the handlers of different
  contexts, which run on different threads, may be taken one after the other.
\<close>

subsection \<open>State and events\<close>

datatype client = Plain connection | Tls ssl_connection

text \<open>The values the members without an initialiser happen to have.\<close>

record members =
  m_major :: u8
  m_minor :: u8
  m_status :: status_type
  m_buffer :: string

record site =
  site_server :: server
  site_clients :: "(client \<times> nat) list"
  site_down :: bool

datatype io = Handshake_done | Read_done string | Write_done

datatype event = Accepted nat bool members | Completed nat io bool | Signalled

definition new_client :: "members \<Rightarrow> started \<Rightarrow> client" where
  "new_client g k =
     (case k of
        Plain_connection \<Rightarrow> Plain (start (new_connection (m_major g) (m_minor g) (m_status g)))
      | Tls_connection \<Rightarrow> Tls (ssl_start (m_buffer g)))"

definition open_site :: "server \<Rightarrow> site" where
  "open_site s = \<lparr>site_server = s, site_clients = [], site_down = False\<rparr>"

text \<open>Whether an operation of a client is in flight that can complete so; \<open>ec\<close> says that it failed.\<close>

fun awaits :: "client \<Rightarrow> io \<Rightarrow> bool \<Rightarrow> bool" where
  "awaits (Plain c) (Read_done b) ec \<longleftrightarrow> conn_pending c = Read_pending \<and> (ec \<or> b \<noteq> []) \<and> length b \<le> buffer_size"
| "awaits (Plain c) Write_done ec \<longleftrightarrow> conn_pending c = Write_pending"
| "awaits (Plain c) Handshake_done ec \<longleftrightarrow> False"
| "awaits (Tls c) (Read_done b) ec \<longleftrightarrow> ssl_pending c = Ssl_read_pending \<and> length b \<le> ssl_buffer_size"
| "awaits (Tls c) Write_done ec \<longleftrightarrow> ssl_pending c = Ssl_write_pending"
| "awaits (Tls c) Handshake_done ec \<longleftrightarrow> ssl_pending c = Handshake_pending"

text \<open>The completion handlers; for the write of a plain connection \<open>ec\<close> is the failure of \<open>shutdown\<close>.\<close>

fun client_io :: "handler \<Rightarrow> client \<Rightarrow> io \<Rightarrow> bool \<Rightarrow> client option" where
  "client_io handle (Plain c) (Read_done b) ec = map_option Plain (on_read handle c ec b)"
| "client_io handle (Plain c) Write_done ec = Some (Plain (on_write c (\<not> ec)))"
| "client_io handle (Plain c) Handshake_done ec = None"
| "client_io handle (Tls c) (Read_done b) ec = Some (Tls (on_ssl_read ec b c))"
| "client_io handle (Tls c) Write_done ec = Some (Tls (on_ssl_write ec c))"
| "client_io handle (Tls c) Handshake_done ec = Some (Tls (on_handshake ec c))"

fun aborted :: "client \<Rightarrow> bool" where
  "aborted (Plain c) \<longleftrightarrow> conn_pending c = Aborted"
| "aborted (Tls c) \<longleftrightarrow> False"

text \<open>An accept that completes starts the connections that its handler starts, on the context of the socket.\<close>

definition perform :: "handler \<Rightarrow> event \<Rightarrow> site \<Rightarrow> site option" where
  "perform handle e w =
     (case e of
        Accepted n ec g \<Rightarrow>
          (case complete_nth n ec (site_server w) of
             None \<Rightarrow> None
           | Some s \<Rightarrow>
               Some (w\<lparr>site_server := s,
                       site_clients := site_clients w @
                         map (\<lambda>k. (new_client g k, snd (srv_accepts (site_server w) ! n)))
                           (drop (length (srv_started (site_server w))) (srv_started s))\<rparr>))
      | Completed k x ec \<Rightarrow>
          (case site_clients w ! k of
             (c, i) \<Rightarrow>
               (case client_io handle c x ec of
                  None \<Rightarrow> None
                | Some c' \<Rightarrow> Some (w\<lparr>site_clients := (site_clients w)[k := (c', i)], site_down := aborted c'\<rparr>)))
      | Signalled \<Rightarrow> Some (w\<lparr>site_server := do_await_stop (site_server w)\<rparr>))"

definition enabled :: "site \<Rightarrow> event \<Rightarrow> bool" where
  "enabled w e \<longleftrightarrow> \<not> site_down w \<and>
     (case e of
        Accepted n ec g \<Rightarrow>
          accepting (site_server w) \<and> n < length (srv_accepts (site_server w)) \<and> length (m_buffer g) = ssl_buffer_size
      | Completed k x ec \<Rightarrow>
          k < length (site_clients w) \<and> context_runs (srv_pool (site_server w)) (snd (site_clients w ! k)) \<and>
          awaits (fst (site_clients w ! k)) x ec
      | Signalled \<Rightarrow> signals_heard (site_server w))"

definition occur :: "handler \<Rightarrow> event \<Rightarrow> site \<Rightarrow> site option" where
  "occur handle e w = (if enabled w e then perform handle e w else None)"

definition site_run :: "handler \<Rightarrow> event list \<Rightarrow> site \<Rightarrow> site option" where
  "site_run handle es w = fold_opt (occur handle) es w"

lemma site_run_snoc:
  "site_run handle (es @ [e]) w = Some u \<longleftrightarrow> (\<exists>v. site_run handle es w = Some v \<and> enabled v e \<and> perform handle e v = Some u)"
  by (auto simp: site_run_def fold_opt_append occur_def split: option.splits if_splits)

lemma site_run_append:
  "site_run handle (es @ fs) w = Some u \<longleftrightarrow> (\<exists>v. site_run handle es w = Some v \<and> site_run handle fs v = Some u)"
  by (simp add: site_run_def fold_opt_append split: option.split)

lemma site_run_Cons: "site_run handle (e # es) w = Some u \<longleftrightarrow> (\<exists>v. occur handle e w = Some v \<and> site_run handle es v = Some u)"
  by (simp add: site_run_def split: option.split)

lemma site_run_Nil [simp]: "site_run handle [] w = Some w"
  by (simp add: site_run_def)

text \<open>The request handler a server is built with; all its connections share it.\<close>

definition server_handler :: "file_system \<Rightarrow> server \<Rightarrow> handler" where
  "server_handler fs s = handle_request fs (srv_root s)"

text \<open>A server as either form of \<open>listen_and_serve\<close> leaves it to its pool.\<close>

definition serving :: "server \<Rightarrow> bool" where
  "serving s \<longleftrightarrow> (\<exists>address port root n net s0 r. new_server address port root n = Some s0 \<and>
     (listen_and_serve_http net s0 = Inr (Some (r, s)) \<or> listen_and_serve_tls net s0 = Inr (Some (r, s))))"

lemma serving_listening: "serving s \<Longrightarrow> listening [Do_accept_http, Start_accept_http] s \<or> listening [Do_accept, Start_accept] s"
  using listens_listening unfolding serving_def by blast

text \<open>Two accepts are outstanding, and not both start TLS connections.\<close>

definition two_accepts_left :: "accept_handler multiset set" where
  "two_accepts_left = {m. size m = 2 \<and> (\<exists>h\<in>#m. h \<noteq> Start_accept)}"

abbreviation sound_server :: "server \<Rightarrow> bool" where
  "sound_server s \<equiv> server_inv two_accepts_left UNIV s"

lemma serving_sound: "serving s \<Longrightarrow> sound_server s \<and> srv_started s = []"
  using serving_listening [of s] listening_inv [of _ s two_accepts_left UNIV]
  by (auto simp: listening_def two_accepts_left_def)

lemma next_handler_plain: "next_handler h = Start_accept \<longleftrightarrow> h = Start_accept"
  by (cases h) simp_all

lemma two_closed: "closed_handlers two_accepts_left UNIV"
  unfolding closed_handlers_def two_accepts_left_def
proof (intro ballI conjI)
  fix m h assume m: "m \<in> {m. size m = 2 \<and> (\<exists>h\<in>#m. h \<noteq> Start_accept)}" and h: "h \<in># m"
  then obtain k where k: "k \<in># m" "k \<noteq> Start_accept" "size m = 2" by auto
  have "\<exists>h'\<in># m - {#h#} + {#next_handler h#}. h' \<noteq> Start_accept"
  proof (cases "k = h")
    case True
    then show ?thesis using k(2) next_handler_plain by auto
  next
    case False
    then show ?thesis using k(1,2) by (auto intro!: bexI [of _ k] simp: in_diff_count)
  qed
  with h k(3) show "m - {#h#} + {#next_handler h#} \<in> {m. size m = 2 \<and> (\<exists>h\<in>#m. h \<noteq> Start_accept)}"
    by (simp add: size_Diff_singleton)
qed simp

subsection \<open>The parts of a run\<close>

text \<open>Each client of a running server is a run of its own component.\<close>

fun component_run :: "handler \<Rightarrow> started \<Rightarrow> client \<Rightarrow> bool" where
  "component_run handle Plain_connection (Plain c) \<longleftrightarrow>
     (\<exists>major minor st. conn_reach handle (new_connection major minor st) c)"
| "component_run handle Tls_connection (Tls c) \<longleftrightarrow> (\<exists>buf. length buf = ssl_buffer_size \<and> ssl_reach buf c)"
| "component_run handle _ _ \<longleftrightarrow> False"

lemma component_start: "length (m_buffer g) = ssl_buffer_size \<Longrightarrow> component_run handle k (new_client g k)"
  by (cases k) (auto simp: new_client_def intro: reach_start ssl_reach_start)

lemma component_step:
  assumes "component_run handle k c" "awaits c x ec" "client_io handle c x ec = Some c'"
  shows "component_run handle k c'"
proof (cases c)
  case (Plain d)
  with assms(1) obtain major minor st where d: "k = Plain_connection" "conn_reach handle (new_connection major minor st) d"
    by (cases k) auto
  from assms(2,3) Plain obtain d' where d': "c' = Plain d'" "conn_step handle d d'"
    by (cases x; cases ec) (auto intro: step_read step_read_error step_write)
  from reach_step [OF d(2) d'(2)] d(1) d'(1) show ?thesis by auto
next
  case (Tls d)
  with assms(1) obtain buf where d: "k = Tls_connection" "length buf = ssl_buffer_size" "ssl_reach buf d"
    by (cases k) auto
  from assms(2,3) Tls obtain d' where d': "c' = Tls d'" "ssl_step d d'"
    by (cases x) (auto intro: ssl_handshake ssl_read ssl_write)
  from ssl_reach_step [OF d(3) d'(2)] d(1,2) d'(1) show ?thesis by auto
qed

definition site_inv :: "handler \<Rightarrow> server \<Rightarrow> site \<Rightarrow> bool" where
  "site_inv handle s0 w \<longleftrightarrow>
     server_reach s0 (site_server w) \<and> sound_server (site_server w) \<and>
     list_all2 (component_run handle) (srv_started (site_server w)) (map fst (site_clients w)) \<and>
     list_all (\<lambda>i. i < length (io_contexts (srv_pool (site_server w)))) (map snd (site_clients w)) \<and>
     (site_down w \<longleftrightarrow> list_ex aborted (map fst (site_clients w)))"

lemma site_inv_start: "serving s \<Longrightarrow> site_inv handle s (open_site s)"
  using serving_sound [of s] by (simp add: site_inv_def open_site_def server_start)

text \<open>The two kinds of events that touch the server object.\<close>

lemma accept_completes:
  assumes "sound_server s" "n < length (srv_accepts s)"
  shows "\<exists>s' ks. complete_nth n ec s = Some s' \<and> srv_started s' = srv_started s @ ks \<and> same_contexts s s'"
  using complete_nth_ok [of s n ec] assms by (auto simp: server_inv_def)

lemma accept_event:
  assumes "site_inv handle s0 w" "enabled w (Accepted n ec g)" "complete_nth n ec (site_server w) = Some s"
    and "srv_started s = srv_started (site_server w) @ ks" "same_contexts (site_server w) s"
  shows "site_inv handle s0 (w\<lparr>site_server := s, site_clients := site_clients w @
      map (\<lambda>k. (new_client g k, snd (srv_accepts (site_server w) ! n))) ks\<rparr>)"
proof -
  have en: "accepting (site_server w)" "n < length (srv_accepts (site_server w))" "length (m_buffer g) = ssl_buffer_size"
    using assms(2) by (simp_all add: enabled_def)
  have inv: "server_reach s0 (site_server w)" "sound_server (site_server w)" using assms(1) by (simp_all add: site_inv_def)
  have step: "server_step (site_server w) s" using step_accept [OF en(1,2) assms(3)] .
  have new: "\<not> aborted (new_client g k)" for k
    by (cases k) (simp_all add: new_client_def start_def do_read_def)
  have ctx: "snd (srv_accepts (site_server w) ! n) < length (io_contexts (srv_pool (site_server w)))"
    using inv(2) nth_mem [OF en(2)] by (simp add: server_inv_def indices_ok_def list_all_iff)
  have "list_all2 (component_run handle) ks (map (new_client g) ks)"
    using component_start [OF en(3)] by (simp add: list_all2_conv_all_nth)
  then have "list_all2 (component_run handle) (srv_started s)
      (map fst (site_clients w @ map (\<lambda>k. (new_client g k, snd (srv_accepts (site_server w) ! n))) ks))"
    using assms(1,4) by (simp add: site_inv_def comp_def list_all2_appendI)
  then show ?thesis
    using assms(1,4,5) server_next [OF inv(1) step] server_step_inv [OF two_closed step inv(2)] ctx
    by (auto simp: site_inv_def same_contexts_def list_all_iff list_ex_iff new)
qed

lemma signal_event:
  assumes "site_inv handle s0 w" "enabled w Signalled"
  shows "site_inv handle s0 (w\<lparr>site_server := do_await_stop (site_server w)\<rparr>)"
proof -
  have step: "server_step (site_server w) (do_await_stop (site_server w))"
    using assms(2) step_signal by (simp add: enabled_def)
  have "sound_server (site_server w)" using assms(1) by (simp add: site_inv_def)
  from server_step_inv [OF two_closed step this] show ?thesis
    using assms(1) server_next [OF _ step]
    by (simp add: site_inv_def do_await_stop_keeps) (simp add: do_await_stop_def stop_pool_def)
qed

lemma client_event:
  assumes "site_inv handle s0 w" "enabled w (Completed k x ec)" "client_io handle (fst (site_clients w ! k)) x ec = Some c"
  shows "site_inv handle s0 (w\<lparr>site_clients := (site_clients w)[k := (c, snd (site_clients w ! k))], site_down := aborted c\<rparr>)"
proof -
  have k: "k < length (site_clients w)" "awaits (fst (site_clients w ! k)) x ec" "\<not> site_down w"
    using assms(2) by (simp_all add: enabled_def)
  have inv: "list_all2 (component_run handle) (srv_started (site_server w)) (map fst (site_clients w))"
    "\<not> list_ex aborted (map fst (site_clients w))"
    using assms(1) k(3) by (simp_all add: site_inv_def)
  have len: "length (srv_started (site_server w)) = length (site_clients w)"
    using inv(1) by (simp add: list_all2_lengthD)
  have "component_run handle (srv_started (site_server w) ! k) (fst (site_clients w ! k))"
    using inv(1) k(1) len by (simp add: list_all2_conv_all_nth)
  from component_step [OF this k(2) assms(3)]
  have "list_all2 (component_run handle) (srv_started (site_server w)) ((map fst (site_clients w))[k := c])"
    using inv(1) k(1) len by (simp add: list_all2_conv_all_nth nth_list_update)
  moreover have "list_ex aborted ((map fst (site_clients w))[k := c]) \<longleftrightarrow> aborted c"
    using inv(2) k(1) set_update_memI [of k "map fst (site_clients w)" c] set_update_subset_insert [of "map fst (site_clients w)" k c]
    unfolding list_ex_iff by (metis (no_types, lifting) insertE length_map subsetD)
  moreover have "map snd ((site_clients w)[k := (c, snd (site_clients w ! k))]) = map snd (site_clients w)"
    using k(1) by (metis list_update_id map_update nth_map snd_conv)
  ultimately show ?thesis using assms(1) by (simp add: site_inv_def map_update)
qed

lemma occur_inv:
  assumes "site_inv handle s0 w" "enabled w e" "perform handle e w = Some u"
  shows "site_inv handle s0 u"
proof (cases e)
  case (Accepted n ec g)
  have "sound_server (site_server w)" "n < length (srv_accepts (site_server w))"
    using assms(1,2) Accepted by (simp_all add: site_inv_def enabled_def)
  from accept_completes [OF this, of ec] accept_event [OF assms(1) assms(2) [unfolded Accepted]] show ?thesis
    using assms(3) Accepted by (auto simp: perform_def)
next
  case (Completed k x ec)
  from client_event [OF assms(1) assms(2) [unfolded Completed]] show ?thesis
    using assms(3) Completed by (auto simp: perform_def split: prod.splits option.splits)
next
  case Signalled
  with signal_event [OF assms(1) assms(2) [unfolded Signalled]] assms(3) show ?thesis by (simp add: perform_def)
qed

lemma site_run_inv: "serving s \<Longrightarrow> site_run handle es (open_site s) = Some w \<Longrightarrow> site_inv handle s w"
proof (induction es arbitrary: w rule: rev_induct)
  case Nil
  then show ?case using site_inv_start by (auto simp: site_run_def)
next
  case (snoc e es)
  then show ?case using occur_inv by (auto simp: site_run_snoc)
qed

subsection \<open>The events of one client\<close>

fun own :: "nat \<Rightarrow> event list \<Rightarrow> (io \<times> bool) list" where
  "own k [] = []"
| "own k (Completed j x ec # es) = (if j = k then (x, ec) # own k es else own k es)"
| "own k (Accepted n ec g # es) = own k es"
| "own k (Signalled # es) = own k es"

definition client_step :: "handler \<Rightarrow> io \<times> bool \<Rightarrow> client \<Rightarrow> client option" where
  "client_step handle y c = (case y of (x, ec) \<Rightarrow> if awaits c x ec then client_io handle c x ec else None)"

definition client_run :: "handler \<Rightarrow> (io \<times> bool) list \<Rightarrow> client \<Rightarrow> client option" where
  "client_run handle xs c = fold_opt (client_step handle) xs c"

lemma own_append: "own k (es @ fs) = own k es @ own k fs"
  by (induction k es rule: own.induct) simp_all

lemma client_run_snoc:
  "client_run handle (xs @ [(x, ec)]) c = Some d \<longleftrightarrow>
   (\<exists>c'. client_run handle xs c = Some c' \<and> awaits c' x ec \<and> client_io handle c' x ec = Some d)"
  by (auto simp: client_run_def fold_opt_append client_step_def split: option.splits if_splits)

text \<open>The state of a client in a run: its own run from how it was started.\<close>

definition born :: "event list \<Rightarrow> members \<Rightarrow> bool" where
  "born es g \<longleftrightarrow> (\<exists>n ec. Accepted n ec g \<in> set es)"

definition client_in :: "handler \<Rightarrow> event list \<Rightarrow> site \<Rightarrow> nat \<Rightarrow> bool" where
  "client_in handle es w k \<longleftrightarrow>
     (\<exists>g. born es g \<and>
        client_run handle (own k es) (new_client g (srv_started (site_server w) ! k)) = Some (fst (site_clients w ! k)))"

lemma born_more: "born es g \<Longrightarrow> born (es @ fs) g"
  by (auto simp: born_def)

lemma started_length: "site_inv handle s w \<Longrightarrow> length (srv_started (site_server w)) = length (site_clients w)"
  by (auto simp: site_inv_def dest: list_all2_lengthD)

lemma own_runs:
  assumes "serving s"
  shows "site_run handle es (open_site s) = Some w \<Longrightarrow>
    (\<forall>k\<ge>length (site_clients w). own k es = []) \<and> (\<forall>k<length (site_clients w). client_in handle es w k)"
proof (induction es arbitrary: w rule: rev_induct)
  case Nil
  then show ?case by (auto simp: site_run_def open_site_def)
next
  case (snoc e es)
  then obtain v where v: "site_run handle es (open_site s) = Some v" "enabled v e" "perform handle e v = Some w"
    by (auto simp: site_run_snoc)
  note IH = snoc.IH [OF v(1)] and inv = site_run_inv [OF assms v(1)]
  note len = started_length [OF inv]
  have kept: "client_in handle (es @ [e]) w k"
    if "k < length (site_clients v)" "own k [e] = []" "site_clients w ! k = site_clients v ! k"
      "srv_started (site_server w) ! k = srv_started (site_server v) ! k" for k
    using IH that born_more [of es] by (fastforce simp: client_in_def own_append)
  show ?case
  proof (cases e)
    case (Accepted n ec g)
    have "sound_server (site_server v)" "n < length (srv_accepts (site_server v))"
      using inv v(2) Accepted by (simp_all add: site_inv_def enabled_def)
    from accept_completes [OF this, of ec] obtain s' ks where s': "complete_nth n ec (site_server v) = Some s'"
      "srv_started s' = srv_started (site_server v) @ ks" by blast
    let ?new = "map (\<lambda>k. (new_client g k, snd (srv_accepts (site_server v) ! n))) ks"
    have w: "site_clients w = site_clients v @ ?new" "site_server w = s'"
      using v(3) Accepted s' by (auto simp: perform_def)
    have "client_in handle (es @ [e]) w k" if k: "k < length (site_clients w)" for k
    proof (cases "k < length (site_clients v)")
      case True
      then show ?thesis using kept [of k] w s'(2) len Accepted by (simp add: nth_append)
    next
      case False
      then have "own k (es @ [e]) = []" using IH Accepted by (simp add: own_append)
      moreover have "fst (site_clients w ! k) = new_client g (srv_started (site_server w) ! k)"
        using False k w s'(2) len by (simp add: nth_append)
      ultimately show ?thesis using Accepted by (auto simp: client_in_def client_run_def born_def)
    qed
    moreover have "own k (es @ [e]) = []" if "length (site_clients w) \<le> k" for k
      using IH that w(1) Accepted by (simp add: own_append)
    ultimately show ?thesis by blast
  next
    case (Completed j x ec)
    from v(3) Completed obtain c where c: "client_io handle (fst (site_clients v ! j)) x ec = Some c"
      "site_clients w = (site_clients v)[j := (c, snd (site_clients v ! j))]" "site_server w = site_server v"
      by (auto simp: perform_def split: prod.splits option.splits)
    have j: "j < length (site_clients v)" "awaits (fst (site_clients v ! j)) x ec"
      using v(2) Completed by (simp_all add: enabled_def)
    have "client_in handle (es @ [e]) w j"
      using IH j c Completed
      by (fastforce simp: client_in_def own_append client_run_snoc intro: born_more)
    moreover have "client_in handle (es @ [e]) w k" if "k < length (site_clients w)" "k \<noteq> j" for k
      using kept [of k] that c(2,3) Completed by simp
    ultimately show ?thesis using IH j(1) c(2) Completed by (auto simp: own_append)
  next
    case Signalled
    with v(3) have "site_clients w = site_clients v" "srv_started (site_server w) = srv_started (site_server v)"
      by (auto simp: perform_def do_await_stop_def)
    with kept IH Signalled show ?thesis by (simp add: own_append)
  qed
qed

end
