(* ===== verification/Server_Service.thy ===== *)
theory Server_Service
  imports Running_Server
begin

section \<open>What a running server does for its clients\<close>

text \<open>
  The abstract specification of the server is a function: what a client of the plain protocol is sent
  depends on the bytes its own reads delivered and on nothing else, neither on the other clients nor on
  the order in which the handlers run. From it follow the file service and the independence of the
  clients. Nothing ends a silent client, and nothing bounds their number. The one thing the clients
  share is the process, and each can end it.
\<close>

fun received :: "(io \<times> bool) list \<Rightarrow> string list" where
  "received [] = []"
| "received ((Read_done b, False) # xs) = b # received xs"
| "received (_ # xs) = received xs"

definition answer :: "handler \<Rightarrow> string list \<Rightarrow> string" where
  "answer handle bs =
     (case response handle 0 0 ok (heard zero_buffer bs) of None \<Rightarrow> [] | Some rep \<Rightarrow> reply_bytes rep)"

lemma received_append: "received (xs @ ys) = received xs @ received ys"
  by (induction xs rule: received.induct) simp_all

text \<open>
  The states of a plain client: it reads and has no answer yet; it was answered; or a read failed
  before it had an answer.
\<close>

definition serves :: "handler \<Rightarrow> u8 \<Rightarrow> u8 \<Rightarrow> status_type \<Rightarrow> (io \<times> bool) list \<Rightarrow> connection \<Rightarrow> bool" where
  "serves handle major minor st xs c \<longleftrightarrow>
     (case response handle major minor st (heard zero_buffer (received xs)) of
        None \<Rightarrow> tracks major minor st (received xs) c \<or> conn_pending c = Released \<and> conn_sent c = []
      | Some rep \<Rightarrow> conn_pending c \<in> {Write_pending, Released, Aborted} \<and> conn_sent c = reply_bytes rep)"

lemma serves_step:
  assumes "serves handle major minor st xs c" "awaits (Plain c) x ec" "client_io handle (Plain c) x ec = Some d"
  shows "\<exists>c'. d = Plain c' \<and> serves handle major minor st (xs @ [(x, ec)]) c'"
proof (cases x)
  case Handshake_done
  with assms(2) show ?thesis by simp
next
  case Write_done
  with assms(2) have w: "conn_pending c = Write_pending" by simp
  then have "\<not> tracks major minor st (received xs) c" by (simp add: tracks_def)
  with assms Write_done w show ?thesis
    by (auto simp: serves_def received_append on_write_def split: option.splits)
next
  case (Read_done b)
  with assms(2) have r: "conn_pending c = Read_pending" by simp
  with assms(1) have t: "tracks major minor st (received xs) c" by (auto simp: serves_def split: option.splits)
  show ?thesis
  proof (cases ec)
    case True
    with assms(3) Read_done t tracks_no_response [OF t, of handle] show ?thesis
      by (auto simp: serves_def received_append on_read_def tracks_def)
  next
    case False
    with tracks_step [OF t, of handle b] r assms(3) Read_done show ?thesis
      by (auto simp: serves_def received_append read_one_def answers_def split: option.splits)
  qed
qed

lemma plain_run:
  "client_run handle xs (Plain (start (new_connection major minor st))) = Some d \<Longrightarrow>
   \<exists>c. d = Plain c \<and> serves handle major minor st xs c"
proof (induction xs arbitrary: d rule: rev_induct)
  case Nil
  then show ?case
    using tracks_start tracks_no_response [OF tracks_start, of handle major minor st] by (auto simp: client_run_def serves_def)
next
  case (snoc y xs)
  obtain x ec where y: "y = (x, ec)" by (cases y)
  from snoc.prems obtain c' where c': "client_run handle xs (Plain (start (new_connection major minor st))) = Some c'"
    "awaits c' x ec" "client_io handle c' x ec = Some d" by (auto simp: y client_run_snoc)
  with snoc.IH serves_step show ?case unfolding y by blast
qed

lemma plain_client_run:
  assumes "serving s" "site_run handle es (open_site s) = Some w" "k < length (site_clients w)"
    and "fst (site_clients w ! k) = Plain c"
  shows "\<exists>major minor st. client_run handle (own k es) (Plain (start (new_connection major minor st))) = Some (Plain c)"
proof -
  have inv: "site_inv handle s w" using site_run_inv [OF assms(1,2)] .
  then have "component_run handle (srv_started (site_server w) ! k) (Plain c)"
    using assms(3,4) started_length [OF inv] by (auto simp: site_inv_def list_all2_conv_all_nth)
  then have kind: "srv_started (site_server w) ! k = Plain_connection"
    by (cases "srv_started (site_server w) ! k") simp_all
  from own_runs [OF assms(1,2)] assms(3) obtain g where
    "client_run handle (own k es) (new_client g (srv_started (site_server w) ! k)) = Some (Plain c)"
    by (auto simp: client_in_def assms(4))
  from this [unfolded kind] show ?thesis by (auto simp: new_client_def)
qed

lemma plain_client_serves:
  assumes "serving s" "site_run handle es (open_site s) = Some w" "k < length (site_clients w)"
    and "fst (site_clients w ! k) = Plain c"
  shows "\<exists>major minor st. serves handle major minor st (own k es) c"
  using plain_client_run [OF assms] plain_run by blast

lemma answer_request:
  assumes "request_ok r" "print_request r = concat bs @ b" "list_all (\<lambda>x. length x = buffer_size) bs"
  shows "answer handle (bs @ [b]) = reply_bytes (handle r (fresh_reply ok))"
proof -
  have "heard zero_buffer (bs @ [b]) = print_request r @ drop (length b) (fold fill_buffer bs zero_buffer)"
    using full_reads_prefix [OF assms(3), of "length bs"] by (simp add: heard_snoc fill_buffer_def assms(2))
  from response_request [OF assms(1) this] show ?thesis by (simp add: answer_def)
qed

subsection \<open>How a client ends\<close>

lemma client_run_Cons:
  "client_run handle (y # ys) c = Some d \<longleftrightarrow> (\<exists>c1. client_step handle y c = Some c1 \<and> client_run handle ys c1 = Some d)"
  by (simp add: client_run_def split: option.split)

lemma client_step_Some:
  "client_step handle (x, ec) c = Some d \<longleftrightarrow> awaits c x ec \<and> client_io handle c x ec = Some d"
  by (simp add: client_step_def)

lemma finished_client_stays: "finished c \<Longrightarrow> client_run handle xs (Plain c) = Some d \<Longrightarrow> xs = [] \<and> d = Plain c"
proof (cases xs)
  case (Cons y ys)
  obtain x ec where y: "y = (x, ec)" by (cases y)
  assume "finished c" "client_run handle xs (Plain c) = Some d"
  then show ?thesis using Cons y by (cases x) (auto simp: client_run_Cons client_step_Some finished_def)
qed (simp add: client_run_def)

lemma writing_client_ends:
  assumes "conn_pending c = Write_pending" "client_run handle xs (Plain c) = Some d"
  shows "xs = [] \<or> length xs = 1 \<and> (\<exists>e. d = Plain e \<and> finished e)"
proof (cases xs)
  case (Cons y ys)
  obtain x ec where y: "y = (x, ec)" by (cases y)
  with assms Cons have x: "x = Write_done" "client_run handle ys (Plain (on_write c (\<not> ec))) = Some d"
    by (cases x; auto simp: client_run_Cons client_step_Some)+
  have "finished (on_write c (\<not> ec))" by (simp add: finished_def on_write_def)
  with finished_client_stays [OF this x(2)] Cons show ?thesis by auto
qed simp

lemma short_client_ends:
  assumes "client_run handle xs (Plain (start (new_connection major minor st))) = Some d"
    and "list_all (\<lambda>b. length b < buffer_size) (received xs)"
  shows "length xs \<le> 2 \<and> (length xs = 2 \<longrightarrow> (\<exists>e. d = Plain e \<and> finished e))"
proof (cases xs)
  case (Cons y ys)
  let ?c = "start (new_connection major minor st)"
  obtain x ec where y: "y = (x, ec)" by (cases y)
  with assms(1) Cons obtain b c1 where x: "x = Read_done b" "on_read handle ?c ec b = Some c1"
    "client_run handle ys (Plain c1) = Some d"
    by (cases x) (auto simp: client_run_Cons client_step_Some start_def do_read_def)
  show ?thesis
  proof (cases ec)
    case True
    with x(2) have "finished c1" by (auto simp: on_read_def finished_def)
    from finished_client_stays [OF this x(3)] Cons show ?thesis by simp
  next
    case False
    then have "length b < buffer_size" using assms(2) Cons y x(1) by simp
    from first_short_read [OF this, of handle major minor st] x(2) False have "conn_pending c1 = Write_pending" by auto
    from writing_client_ends [OF this x(3)] Cons show ?thesis by auto
  qed
qed simp

subsection \<open>What can happen next\<close>

text \<open>The server is up: the process has not ended and no signal has stopped the contexts.\<close>

definition up :: "site \<Rightarrow> bool" where
  "up w \<longleftrightarrow> \<not> site_down w \<and> \<not> pool_stopped (srv_pool (site_server w))"

lemma up_runs:
  assumes "site_inv handle s w" "up w"
  shows "accepting (site_server w)" "signals_heard (site_server w)"
    "k < length (site_clients w) \<Longrightarrow> context_runs (srv_pool (site_server w)) (snd (site_clients w ! k))"
  using assms context_runs_iff(1) [of "srv_pool (site_server w)"]
  by (auto simp: up_def site_inv_def server_inv_def indices_ok_def accepting_def signals_heard_def list_all_length)

lemma down_disables: "\<not> up w \<Longrightarrow> \<not> enabled w e"
  using context_runs_iff(2) [of "srv_pool (site_server w)"]
  by (auto simp: up_def enabled_def accepting_def signals_heard_def split: event.splits)

definition client_finished :: "client \<Rightarrow> bool" where
  "client_finished c \<longleftrightarrow> (case c of Plain d \<Rightarrow> finished d | Tls d \<Rightarrow> ssl_pending d = Ssl_released)"

text \<open>What a client has been sent: nothing or one reply that it can read, or its own bytes.\<close>

definition sent_well :: "client \<Rightarrow> bool" where
  "sent_well c \<longleftrightarrow>
     (case c of
        Plain d \<Rightarrow> conn_sent d = [] \<or> read_reply (conn_sent d) = Some (reply_view (conn_reply d), [])
      | Tls d \<Rightarrow> prefix (ssl_written d) (ssl_received d))"

context reply_handler begin

lemma plain_reach_inv: "conn_reach handle (new_connection major minor st) c \<Longrightarrow> conn_inv c"
  using reachable_inv start_inv by blast

lemma client_io_defined: "component_run handle k c \<Longrightarrow> awaits c x ec \<Longrightarrow> client_io handle c x ec \<noteq> None"
proof -
  have *: "on_read handle d ec b \<noteq> None"
    if "conn_reach handle (new_connection major minor st) d" "conn_pending d = Read_pending" "length b \<le> buffer_size"
    for d b major minor st
    using on_read_inv [OF plain_reach_inv [OF that(1)] that(2,3), of ec] by auto
  show "component_run handle k c \<Longrightarrow> awaits c x ec \<Longrightarrow> client_io handle c x ec \<noteq> None"
    using * by (cases c; cases x; cases k) (auto simp: option.map_disc_iff)
qed

lemma component_sent: "component_run handle k c \<Longrightarrow> sent_well c"
proof -
  have plain: "conn_sent d = [] \<or> read_reply (conn_sent d) = Some (reply_view (conn_reply d), [])"
    if "conn_reach handle (new_connection major minor st) d" for d major minor st
    using plain_reach_inv [OF that] reply_wire.dec_enc_only [of "conn_reply d"]
    by (auto simp: conn_inv_def split: pending.splits)
  have tls: "prefix (ssl_written d) (ssl_received d)" if "ssl_reach buf d" "length buf = ssl_buffer_size" for d buf
    using ssl_reach_inv [OF that] by (auto simp: ssl_inv_def split: if_splits)
  show "component_run handle k c \<Longrightarrow> sent_well c"
    using plain tls by (cases c; cases k) (auto simp: sent_well_def)
qed

text \<open>No handler of the server runs into undefined behaviour.\<close>

lemma perform_defined:
  assumes "site_inv handle s w" "enabled w e"
  shows "perform handle e w \<noteq> None"
proof (cases e)
  case (Accepted n ec g)
  have "sound_server (site_server w)" "n < length (srv_accepts (site_server w))"
    using assms Accepted by (simp_all add: site_inv_def enabled_def)
  from accept_completes [OF this, of ec] show ?thesis using Accepted by (auto simp: perform_def)
next
  case (Completed k x ec)
  then have k: "k < length (site_clients w)" "awaits (fst (site_clients w ! k)) x ec"
    using assms(2) by (simp_all add: enabled_def)
  have "component_run handle (srv_started (site_server w) ! k) (fst (site_clients w ! k))"
    using assms(1) k(1) started_length [OF assms(1)] by (simp add: site_inv_def list_all2_conv_all_nth)
  from client_io_defined [OF this k(2)] show ?thesis
    using Completed by (auto simp: perform_def split: prod.split)
qed (simp add: perform_def)

text \<open>A client that has not finished waits for a completion that succeeds.\<close>

lemma client_waits: "component_run handle k c \<Longrightarrow> client_finished c \<or> (\<exists>x. awaits c x False)"
proof -
  have plain: "finished d \<or> (\<exists>x. awaits (Plain d) x False)"
    if "conn_reach handle (new_connection major minor st) d" for d major minor st
  proof -
    have "awaits (Plain d) (Read_done ''a'') False \<or> awaits (Plain d) Write_done False \<or> finished d"
      using plain_reach_inv [OF that] by (cases "conn_pending d") (simp_all add: finished_def conn_inv_def buffer_size_def)
    then show ?thesis by blast
  qed
  have tls: "ssl_pending d = Ssl_released \<or> (\<exists>x. awaits (Tls d) x False)" for d
  proof -
    have "awaits (Tls d) (Read_done ''a'') False \<or> awaits (Tls d) Write_done False \<or> awaits (Tls d) Handshake_done False \<or>
        ssl_pending d = Ssl_released"
      by (cases "ssl_pending d") (simp_all add: ssl_buffer_size_def)
    then show ?thesis by blast
  qed
  show "component_run handle k c \<Longrightarrow> client_finished c \<or> (\<exists>x. awaits c x False)"
    using plain tls by (cases c; cases k) (auto simp: client_finished_def)
qed

end

text \<open>A server that is up accepts another plain client.\<close>

lemma plain_accept:
  assumes "site_inv handle s0 w" "up w" "length (m_buffer g) = ssl_buffer_size"
  shows "\<exists>n s i. occur handle (Accepted n False g) w = Some (w\<lparr>site_server := s,
      site_clients := site_clients w @ [(Plain (start (new_connection (m_major g) (m_minor g) (m_status g))), i)]\<rparr>) \<and>
    same_contexts (site_server w) s \<and> context_runs (srv_pool s) i"
proof -
  have sound: "sound_server (site_server w)" using assms(1) by (simp add: site_inv_def)
  then obtain h where "h \<in> set (handlers (site_server w))" "h \<noteq> Start_accept"
    by (auto simp: server_inv_def two_accepts_left_def)
  then obtain n where n: "n < length (srv_accepts (site_server w))" "fst (srv_accepts (site_server w) ! n) \<noteq> Start_accept"
    by (auto simp: handlers_def in_set_conv_nth)
  have kind: "handler_starts (fst (srv_accepts (site_server w) ! n)) = Plain_connection"
    using n(2) by (cases "fst (srv_accepts (site_server w) ! n)") simp_all
  from complete_nth_ok [of "site_server w" n False] sound n(1) kind obtain s where
    s: "complete_nth n False (site_server w) = Some s" "same_contexts (site_server w) s"
      "srv_started s = srv_started (site_server w) @ [Plain_connection]"
    by (auto simp: server_inv_def)
  let ?i = "snd (srv_accepts (site_server w) ! n)"
  have "?i < length (io_contexts (srv_pool (site_server w)))"
    using sound nth_mem [OF n(1)] by (simp add: server_inv_def indices_ok_def list_all_iff)
  then have "context_runs (srv_pool (site_server w)) ?i"
    using sound assms(2) context_runs_iff(1) by (auto simp: server_inv_def up_def)
  moreover have "enabled w (Accepted n False g)"
    using up_runs(1) [OF assms(1,2)] assms(2,3) n(1) by (simp add: enabled_def up_def)
  ultimately show ?thesis
    using s same_contexts_runs [OF s(2), of ?i]
    by (intro exI [of _ n] exI [of _ s] exI [of _ ?i]) (simp add: occur_def perform_def new_client_def)
qed

lemma occur_completed:
  assumes "\<not> site_down w" "k < length (site_clients w)" "site_clients w ! k = (c, i)"
    and "context_runs (srv_pool (site_server w)) i" "awaits c x ec" "client_io handle c x ec = Some c'"
  shows "occur handle (Completed k x ec) w = Some (w\<lparr>site_clients := (site_clients w)[k := (c', i)], site_down := aborted c'\<rparr>)"
  using assms by (simp add: occur_def enabled_def perform_def)

text \<open>Accepting a client and its first, short read.\<close>

lemma accept_and_read:
  assumes "site_inv handle s0 w" "up w" "length (m_buffer g) = ssl_buffer_size" "b \<noteq> []" "length b < buffer_size"
  shows "\<exists>n i c u. site_run handle [Accepted n False g, Completed (length (site_clients w)) (Read_done b) False] w = Some u \<and>
    site_clients u = site_clients w @ [(Plain c, i)] \<and> conn_pending c = Write_pending \<and> \<not> site_down u \<and>
    same_contexts (site_server w) (site_server u) \<and> context_runs (srv_pool (site_server u)) i"
proof -
  let ?c = "start (new_connection (m_major g) (m_minor g) (m_status g))"
  from plain_accept [OF assms(1-3)] obtain n s i where a: "occur handle (Accepted n False g) w =
      Some (w\<lparr>site_server := s, site_clients := site_clients w @ [(Plain ?c, i)]\<rparr>)"
    "same_contexts (site_server w) s" "context_runs (srv_pool s) i" by blast
  let ?v = "w\<lparr>site_server := s, site_clients := site_clients w @ [(Plain ?c, i)]\<rparr>"
  from first_short_read [OF assms(5), of handle "m_major g" "m_minor g" "m_status g"] obtain c where
    c: "on_read handle ?c False b = Some c" "conn_pending c = Write_pending" by blast
  have "awaits (Plain ?c) (Read_done b) False" using assms(4,5) by (simp add: start_def do_read_def)
  from occur_completed [of ?v "length (site_clients w)" "Plain ?c" i, OF _ _ _ _ this, of handle "Plain c"] a(3) c assms(2)
  have "occur handle (Completed (length (site_clients w)) (Read_done b) False) ?v =
      Some (?v\<lparr>site_clients := site_clients w @ [(Plain c, i)], site_down := False\<rparr>)"
    by (simp add: up_def)
  with a c(2) show ?thesis
    by (intro exI [of _ n] exI [of _ i] exI [of _ c]) (simp add: site_run_def)
qed

definition zero_members :: members where
  "zero_members = \<lparr>m_major = 0, m_minor = 0, m_status = ok, m_buffer = replicate ssl_buffer_size NUL\<rparr>"

lemma zero_members_buffer [simp]: "length (m_buffer zero_members) = ssl_buffer_size"
  by (simp add: zero_members_def)

text \<open>A small server that is up.\<close>

lemma serving_up: "serving s \<Longrightarrow> up (open_site s)"
  using serving_listening [of s] context_runs_iff [of "srv_pool s" "srv_acceptor s"]
  by (auto simp: listening_def indices_ok_def up_def open_site_def)

lemma one_serving: "\<exists>s. serving s \<and> up (open_site s)"
proof -
  from listen_http_ok [OF new_server_ok [OF new_one_server [of "''::1''" 80 "''/srv''"]] open_net_binds] obtain s where
    "listen_and_serve_http open_net (one_server ''::1'' 80 ''/srv'') = Inr (Some (None, s))" by blast
  then have "serving s" using new_one_server unfolding serving_def by blast
  with serving_up show ?thesis by blast
qed

lemma short_client:
  assumes "serving s" "b \<noteq> []" "length b < buffer_size"
  shows "\<exists>es w c. site_run handle es (open_site s) = Some w \<and> length (site_clients w) = 1 \<and>
    fst (site_clients w ! 0) = Plain c \<and> own 0 es = [(Read_done b, False)]"
proof -
  from accept_and_read [OF site_inv_start [OF assms(1)] serving_up [OF assms(1)] zero_members_buffer assms(2,3), of handle]
  obtain n i c u where
    "site_run handle [Accepted n False zero_members, Completed 0 (Read_done b) False] (open_site s) = Some u"
    "site_clients u = [(Plain c, i)]" by (auto simp: open_site_def)
  then show ?thesis
    by (intro exI [of _ "[Accepted n False zero_members, Completed 0 (Read_done b) False]"] exI [of _ u] exI [of _ c]) simp
qed

lemma one_short_client:
  assumes "b \<noteq> []" "length b < buffer_size"
  shows "\<exists>s es w c. serving s \<and> site_run handle es (open_site s) = Some w \<and> length (site_clients w) = 1 \<and>
    fst (site_clients w ! 0) = Plain c \<and> own 0 es = [(Read_done b, False)]"
  using one_serving short_client [OF _ assms] by blast

text \<open>The answer is settled by the bytes received, for every handler that ignores the initial status.\<close>

context settled_handler begin

lemma client_sent:
  assumes "serving s" "site_run handle es (open_site s) = Some w" "k < length (site_clients w)"
    and "fst (site_clients w ! k) = Plain c"
  shows "conn_sent c = answer handle (received (own k es))"
proof -
  from plain_client_serves [OF assms] obtain major minor st where "serves handle major minor st (own k es) c" by blast
  then show ?thesis
    by (auto simp: serves_def answer_def tracks_def response_members [of major minor st] split: option.splits)
qed

end

subsection \<open>Silent clients\<close>

text \<open>
  No event of others, nor the passing of time, touches a client: a connection that stays silent is held
  for ever, and there can be any number of them.
\<close>

lemma client_untouched:
  "site_run handle es w = Some u \<Longrightarrow> k < length (site_clients w) \<Longrightarrow> own k es = [] \<Longrightarrow>
   k < length (site_clients u) \<and> site_clients u ! k = site_clients w ! k"
proof (induction es arbitrary: w)
  case (Cons e es)
  from Cons.prems(1) obtain v where v: "occur handle e w = Some v" "site_run handle es v = Some u"
    by (auto simp: site_run_Cons)
  have "k < length (site_clients v) \<and> site_clients v ! k = site_clients w ! k \<and> own k es = []"
    using v(1) Cons.prems(2,3)
    by (cases e) (auto simp: occur_def perform_def nth_append split: if_splits option.splits prod.splits)
  with Cons.IH [OF v(2)] show ?case by simp
qed simp

text \<open>Any number of clients that connect and send nothing.\<close>

lemma silent_clients:
  assumes "site_inv handle s w" "up w"
  shows "\<exists>fs u cs. site_run handle fs w = Some u \<and> up u \<and> site_inv handle s u \<and> site_clients u = site_clients w @ cs \<and>
    length cs = n \<and> (\<forall>k. own k fs = []) \<and>
    list_all (\<lambda>(c, i). \<exists>d. c = Plain d \<and> conn_pending d = Read_pending) cs"
proof (induction n)
  case 0
  show ?case using assms by (intro exI [of _ "[]"] exI [of _ w]) simp
next
  case (Suc n)
  then obtain fs u cs where u: "site_run handle fs w = Some u" "up u" "site_inv handle s u" "site_clients u = site_clients w @ cs"
    "length cs = n" "\<forall>k. own k fs = []" "list_all (\<lambda>(c, i). \<exists>d. c = Plain d \<and> conn_pending d = Read_pending) cs" by blast
  let ?c = "start (new_connection (m_major zero_members) (m_minor zero_members) (m_status zero_members))"
  from plain_accept [OF u(3,2) zero_members_buffer] obtain m t i where
    a: "occur handle (Accepted m False zero_members) u = Some (u\<lparr>site_server := t, site_clients := site_clients u @ [(Plain ?c, i)]\<rparr>)"
      (is "_ = Some ?v")
    "same_contexts (site_server u) t" "context_runs (srv_pool t) i" by blast
  from a(1) have "site_inv handle s ?v" using occur_inv [OF u(3)] by (auto simp: occur_def split: if_splits)
  moreover have "up ?v" using u(2) same_contexts_runs [OF a(2)] by (simp add: up_def)
  moreover have "site_run handle (fs @ [Accepted m False zero_members]) w = Some ?v"
    using u(1) a(1) by (simp add: site_run_append site_run_Cons)
  moreover have "conn_pending ?c = Read_pending" by (simp add: start_def do_read_def)
  ultimately show ?case using u(4-7)
    by (intro exI [of _ "fs @ [Accepted m False zero_members]"] exI [of _ ?v] exI [of _ "cs @ [(Plain ?c, i)]"])
       (simp add: own_append)
qed

subsection \<open>Properties\<close>

text \<open>C3 (site_answers). Refinement: whatever the interleaving of all events and whoever else is connected, at
  every moment a plain client has been sent exactly the answer of the specification to the bytes it has
  sent itself.\<close>

theorem site_answers:
  assumes "serving s" "site_run (handle_request fs root) es (open_site s) = Some w" "k < length (site_clients w)"
    and "fst (site_clients w ! k) = Plain c"
  shows "conn_sent c = answer (handle_request fs root) (received (own k es))"
  using file_settled.client_sent [OF assms] .

theorem site_answers_witness:
  "\<exists>s es w c. serving s \<and> site_run (handle_request Map.empty ''/srv'') es (open_site s) = Some w \<and>
     fst (site_clients w ! 0) = Plain c \<and> conn_sent c = answer (handle_request Map.empty ''/srv'') [''G'']"
proof -
  from one_short_client [of "''G''" "handle_request Map.empty ''/srv''"] obtain s es w c where
    s: "serving s" "site_run (handle_request Map.empty ''/srv'') es (open_site s) = Some w" "length (site_clients w) = 1"
      "fst (site_clients w ! 0) = Plain c" "own 0 es = [(Read_done ''G'', False)]"
    by (auto simp: buffer_size_def)
  from site_answers [OF s(1,2) _ s(4)] s show ?thesis by auto
qed

text \<open>C6 (site_refines_components). Every run of the server with its connections is, seen from each part, a run of that part: the
  server object is reachable by its own steps, it has started exactly the connections there are, and each
  of them is a reachable state of its component on a context of the pool. In particular every plain client
  has been sent nothing or one reply that it can read.\<close>

theorem site_refines_components:
  assumes "serving s" "site_run (handle_request fs root) es (open_site s) = Some w"
  shows "server_reach s (site_server w) \<and>
    list_all2 (component_run (handle_request fs root)) (srv_started (site_server w)) (map fst (site_clients w)) \<and>
    list_all (\<lambda>(c, i). i < length (io_contexts (srv_pool (site_server w))) \<and> sent_well c) (site_clients w)"
proof -
  have inv: "site_inv (handle_request fs root) s w" using site_run_inv [OF assms] .
  have parts: "list_all2 (component_run (handle_request fs root)) (srv_started (site_server w)) (map fst (site_clients w))"
    using inv by (simp add: site_inv_def)
  have "sent_well c" if ci: "(c, i) \<in> set (site_clients w)" for c i
  proof -
    from ci have "c \<in> set (map fst (site_clients w))" by force
    with parts obtain k where "component_run (handle_request fs root) k c"
      by (metis in_set_conv_nth list_all2_conv_all_nth)
    then show ?thesis by (rule file_handler.component_sent)
  qed
  with inv parts show ?thesis by (auto simp: site_inv_def list_all_iff)
qed

theorem site_refines_components_witness:
  "\<exists>s es w. serving s \<and> site_run (handle_request Map.empty ''/srv'') es (open_site s) = Some w \<and>
     length (site_clients w) = 1 \<and> server_reach s (site_server w)"
proof -
  from one_short_client [of "''G''" "handle_request Map.empty ''/srv''"] obtain s es w where
    s: "serving s" "site_run (handle_request Map.empty ''/srv'') es (open_site s) = Some w" "length (site_clients w) = 1"
    by (auto simp: buffer_size_def)
  from site_refines_components [OF s(1,2)] s show ?thesis by blast
qed

text \<open>C7 (site_live). A running server never meets undefined behaviour and never gets stuck: every event that can occur is
  carried out; while the server is up it can accept another client, and for each client that has not
  finished an operation is in flight whose success is handled, whatever the others do; once a signal has
  stopped it or the process has ended nothing happens any more.\<close>

theorem site_live:
  assumes "serving s" "site_run (handle_request fs root) es (open_site s) = Some w"
  shows "(\<forall>e. enabled w e \<longrightarrow> perform (handle_request fs root) e w \<noteq> None) \<and>
    (if up w
     then (\<exists>n. enabled w (Accepted n False zero_members)) \<and>
       list_all (\<lambda>k. client_finished (fst (site_clients w ! k)) \<or> (\<exists>x. enabled w (Completed k x False)))
         [0..<length (site_clients w)]
     else \<forall>e. \<not> enabled w e)"
proof -
  have inv: "site_inv (handle_request fs root) s w" using site_run_inv [OF assms] .
  have "client_finished (fst (site_clients w ! k)) \<or> (\<exists>x. enabled w (Completed k x False))"
    if u: "up w" and k: "k < length (site_clients w)" for k
  proof -
    have "component_run (handle_request fs root) (srv_started (site_server w) ! k) (fst (site_clients w ! k))"
      using inv k started_length [OF inv] by (simp add: site_inv_def list_all2_conv_all_nth)
    from file_handler.client_waits [OF this] up_runs(3) [OF inv u k] u k show ?thesis
      by (auto simp: enabled_def up_def)
  qed
  moreover have "\<exists>n. enabled w (Accepted n False zero_members)" if "up w"
    using plain_accept [OF inv that zero_members_buffer] by (auto simp: occur_def split: if_splits)
  ultimately show ?thesis
    using file_handler.perform_defined [OF inv] down_disables by (simp add: list_all_iff)
qed

theorem site_live_witness:
  "\<exists>s. serving s \<and> (\<exists>n. enabled (open_site s) (Accepted n False zero_members))"
proof -
  from one_serving obtain s where s: "serving s" "up (open_site s)" by blast
  moreover have "site_run (handle_request Map.empty ''/srv'') [] (open_site s) = Some (open_site s)" by simp
  ultimately show ?thesis using site_live [OF s(1), of Map.empty "''/srv''" "[]"] by auto
qed

text \<open>C9 (one_client_ends_all). Whatever state a server that is up has come to, with or without TLS, a single new
  client can end the process for all: it connects, sends any bytes short of a buffer, and is gone when
  the reply has been written, so that \<open>shutdown\<close> throws. After these three events nothing happens any more.\<close>

theorem one_client_ends_all:
  assumes "serving s" "site_run handle es (open_site s) = Some w" "up w" "b \<noteq> []" "length b < buffer_size"
  shows "\<exists>n u. site_run handle
      (es @ [Accepted n False zero_members, Completed (length (site_clients w)) (Read_done b) False,
             Completed (length (site_clients w)) Write_done True]) (open_site s) = Some u \<and>
    site_down u \<and> (\<forall>e. \<not> enabled u e)"
proof -
  let ?k = "length (site_clients w)"
  have inv: "site_inv handle s w" using site_run_inv [OF assms(1,2)] .
  from accept_and_read [OF inv assms(3) zero_members_buffer assms(4,5)] obtain n i c u where
    u: "site_run handle [Accepted n False zero_members, Completed ?k (Read_done b) False] w = Some u"
      "site_clients u = site_clients w @ [(Plain c, i)]" "conn_pending c = Write_pending" "\<not> site_down u"
      "context_runs (srv_pool (site_server u)) i" by blast
  let ?d = "Plain (on_write c False)"
  let ?v = "u\<lparr>site_clients := (site_clients u)[?k := (?d, i)], site_down := aborted ?d\<rparr>"
  have "occur handle (Completed ?k Write_done True) u = Some ?v"
    using occur_completed [of u ?k "Plain c" i Write_done True handle ?d] u by simp
  with assms(2) u(1) have "site_run handle (es @ [Accepted n False zero_members, Completed ?k (Read_done b) False,
      Completed ?k Write_done True]) (open_site s) = Some ?v"
    by (auto simp: site_run_append site_run_Cons)
  moreover have down: "site_down ?v" by (simp add: on_write_def)
  moreover have "\<forall>e. \<not> enabled ?v e" using down_disables [of ?v] down by (simp add: up_def)
  ultimately show ?thesis by blast
qed

theorem one_client_ends_all_witness:
  "\<exists>s es u. serving s \<and> site_run (handle_request Map.empty ''/srv'') es (open_site s) = Some u \<and> length es = 3 \<and>
     site_down u"
proof -
  from one_serving obtain s where s: "serving s" "up (open_site s)" by blast
  have "site_run (handle_request Map.empty ''/srv'') [] (open_site s) = Some (open_site s)" by simp
  from one_client_ends_all [OF s(1) this s(2), of "''G''"] s(1) show ?thesis
    by (fastforce simp: buffer_size_def)
qed

text \<open>C8 (client_ends). A plain client whose reads are all shorter than the buffer is over after at most two completions of its
  own, whatever else the server does: the one read and the write of the reply.\<close>

theorem client_ends:
  assumes "serving s" "site_run handle es (open_site s) = Some w" "k < length (site_clients w)"
    and "fst (site_clients w ! k) = Plain c" "list_all (\<lambda>b. length b < buffer_size) (received (own k es))"
  shows "length (own k es) \<le> 2 \<and> (length (own k es) = 2 \<longrightarrow> finished c)"
proof -
  from plain_client_run [OF assms(1-4)] obtain major minor st where
    "client_run handle (own k es) (Plain (start (new_connection major minor st))) = Some (Plain c)" by blast
  from short_client_ends [OF this assms(5)] show ?thesis by simp
qed

theorem client_ends_witness:
  "\<exists>s es w. serving s \<and> site_run (handle_request Map.empty ''/srv'') es (open_site s) = Some w \<and> own 0 es \<noteq> [] \<and>
     length (own 0 es) \<le> 2"
proof -
  have b: "''G'' \<noteq> []" "length ''G'' < buffer_size" by (simp_all add: buffer_size_def)
  from one_short_client [OF b, of "handle_request Map.empty ''/srv''"] obtain s es w c where
    s: "serving s" "site_run (handle_request Map.empty ''/srv'') es (open_site s) = Some w" "length (site_clients w) = 1"
      "fst (site_clients w ! 0) = Plain c" "own 0 es = [(Read_done ''G'', False)]" by blast
  have k: "0 < length (site_clients w)" "list_all (\<lambda>b. length b < buffer_size) (received (own 0 es))"
    using s(3,5) b by simp_all
  from client_ends [OF s(1,2) k(1) s(4) k(2)] have "length (own 0 es) \<le> 2" by blast
  with s show ?thesis by (intro exI [of _ s] exI [of _ es] exI [of _ w]) simp
qed

text \<open>C10 (connections_unbounded). Nothing bounds the connections a server holds, and nothing ends a silent one: whatever
  state a server that is up has come to, any number of clients can connect and send nothing, and however
  the server goes on, each client stays exactly as it is as long as no operation of its own completes.\<close>

theorem connections_unbounded:
  assumes "serving s" "site_run handle es (open_site s) = Some w" "up w"
  shows "\<exists>fs u cs. site_run handle (es @ fs) (open_site s) = Some u \<and> up u \<and> site_clients u = site_clients w @ cs \<and>
    length cs = n \<and> list_all (\<lambda>(c, i). \<exists>d. c = Plain d \<and> conn_pending d = Read_pending) cs \<and>
    (\<forall>gs v k. site_run handle gs u = Some v \<and> k < length (site_clients u) \<and> own k gs = [] \<longrightarrow>
       k < length (site_clients v) \<and> site_clients v ! k = site_clients u ! k)"
proof -
  from silent_clients [OF site_run_inv [OF assms(1,2)] assms(3), of n] obtain fs u cs where
    u: "site_run handle fs w = Some u" "up u" "site_clients u = site_clients w @ cs" "length cs = n"
      "list_all (\<lambda>(c, i). \<exists>d. c = Plain d \<and> conn_pending d = Read_pending) cs" by blast
  have "site_run handle (es @ fs) (open_site s) = Some u" using assms(2) u(1) by (auto simp: site_run_append)
  with u(2-) client_untouched show ?thesis by blast
qed

theorem connections_unbounded_witness:
  "\<exists>s es u. serving s \<and> site_run (handle_request Map.empty ''/srv'') es (open_site s) = Some u \<and> up u \<and>
     length (site_clients u) = 1000"
proof -
  from one_serving obtain s where s: "serving s" "up (open_site s)" by blast
  have "site_run (handle_request Map.empty ''/srv'') [] (open_site s) = Some (open_site s)" by simp
  from connections_unbounded [OF s(1) this s(2), of 1000] obtain fs u cs where
    "site_run (handle_request Map.empty ''/srv'') ([] @ fs) (open_site s) = Some u" "up u"
    "site_clients u = site_clients (open_site s) @ cs" "length cs = 1000" by blast
  with s(1) show ?thesis by (intro exI [of _ s] exI [of _ fs] exI [of _ u]) (simp add: open_site_def)
qed

end
