(* ===== verification/Config.thy ===== *)
theory Config
  imports Prelude
begin

section \<open>The configuration (\<open>whz_config.hpp\<close>, \<open>whz_config.cpp\<close>)\<close>

text \<open>
  \<open>Config\<close> is a singleton with one \<open>std::any\<close> member per parameter, filled from a JSON file.
  What an \<open>any\<close> holds is decided by the static type of the assigned expression, and an
  \<open>any_cast\<close> to any other type throws; so \<open>any_value\<close> has one constructor per type that the code
  assigns or asks for. \<open>value.get_uint64()\<close> and \<open>value.get_bool()\<close> have the types
  \<open>simdjson_result<uint64_t>\<close> and \<open>simdjson_result<bool>\<close>, \<open>value.get_string().value()\<close> is a
  \<open>std::string_view\<close>, and the literals are \<open>int\<close>, \<open>bool\<close> and \<open>const char*\<close>. The bytes of such a
  view belong to the parser, which is a local of \<open>read_config\<close>: a \<open>view\<close> is \<open>Some\<close> of its bytes while
  the parser lives and \<open>None\<close>, dangling, from the end of \<open>read_config\<close> on.

  The JSON library is a parameter: \<open>json_api\<close> is the part of the \<open>simdjson\<close> DOM interface
  the code calls.
\<close>

subsection \<open>Values and parameters\<close>

type_synonym view = "string option"

datatype any_value =
    Any_empty
  | Any_result_uint64 u64
  | Any_result_bool bool
  | Any_string_view view
  | Any_cstr string
  | Any_int int
  | Any_bool bool
  | Any_string string

text \<open>\<open>any_cast\<close> to \<open>std::string\<close>, \<open>int\<close> and \<open>bool\<close>, and \<open>has_value\<close>.\<close>

fun any_cast_string :: "any_value \<Rightarrow> exn + string" where
  "any_cast_string (Any_string s) = Inr s"
| "any_cast_string _ = Inl Bad_any_cast"

fun any_cast_int :: "any_value \<Rightarrow> exn + int" where
  "any_cast_int (Any_int i) = Inr i"
| "any_cast_int _ = Inl Bad_any_cast"

fun any_cast_bool :: "any_value \<Rightarrow> exn + bool" where
  "any_cast_bool (Any_bool b) = Inr b"
| "any_cast_bool _ = Inl Bad_any_cast"

fun is_type_bool :: "any_value \<Rightarrow> bool" where
  "is_type_bool (Any_bool b) = True"
| "is_type_bool _ = False"

definition has_value :: "any_value \<Rightarrow> bool" where
  "has_value a \<longleftrightarrow> a \<noteq> Any_empty"

datatype config_parameter =
    UNKNOWN | SERVER_HTTP_PORT | SERVER_HTTPS_PORT | SERVER_ROOTPATH | SERVER_LOGPATH
   | CONNECTION_TIMEOUT_MS | SERVER_DOMAINNAME | SERVER_SSL_CERTPATH
   | CONNECTION_MAX_IO_CONTEXTS | CONNECTION_USE_IOURING | THREADPOOL_SIZE | CPU_CORES
   | REQUESTS_ACTIVE_MAX | REQUESTS_QUEUED_MAX | AVAILABLE_NODENAMES | WHZ_CLI_PATH
   | DATABASE_PATH | DATABASE_NAME | DATABASE_USER | DATABASE_PASSWORD | DATABASE_PORT
   | DATABASE_HOST | DATABASE_ENGINE | LUA_SCRIPT_PATH | LUA_START_SCRIPT_FILENAME
   | LUA_GC_STEPSIZE | LOG_TRACE_L3 | LOG_TRACE_L2 | LOG_TRACE_L1 | LOG_DEBUG | LOG_INFO
   | LOG_WARNING | LOG_ERROR | LOG_CRITICAL | LOG_BACKTRACE | LOG_FILENAME | LOG_ROTATION_DAYS
   | LOG_ROTATION_MB | LOG_PATH

text \<open>The enumerators in the order of their \<open>uint8_t\<close> values, from 0.\<close>

definition all_parameters :: "config_parameter list" where
  "all_parameters =
     [UNKNOWN, SERVER_HTTP_PORT, SERVER_HTTPS_PORT, SERVER_ROOTPATH, SERVER_LOGPATH,
      CONNECTION_TIMEOUT_MS, SERVER_DOMAINNAME, SERVER_SSL_CERTPATH,
      CONNECTION_MAX_IO_CONTEXTS, CONNECTION_USE_IOURING, THREADPOOL_SIZE, CPU_CORES,
      REQUESTS_ACTIVE_MAX, REQUESTS_QUEUED_MAX, AVAILABLE_NODENAMES, WHZ_CLI_PATH,
      DATABASE_PATH, DATABASE_NAME, DATABASE_USER, DATABASE_PASSWORD, DATABASE_PORT,
      DATABASE_HOST, DATABASE_ENGINE, LUA_SCRIPT_PATH, LUA_START_SCRIPT_FILENAME,
      LUA_GC_STEPSIZE, LOG_TRACE_L3, LOG_TRACE_L2, LOG_TRACE_L1, LOG_DEBUG, LOG_INFO,
      LOG_WARNING, LOG_ERROR, LOG_CRITICAL, LOG_BACKTRACE, LOG_FILENAME, LOG_ROTATION_DAYS,
      LOG_ROTATION_MB, LOG_PATH]"

record config =
  config_loaded :: bool
  config_filepath :: string
  server_http_port :: any_value
  server_https_port :: any_value
  server_rootpath :: any_value
  server_logpath :: any_value
  connection_timeout_ms :: any_value
  server_domainname :: any_value
  server_ssl_certpath :: any_value
  connection_max_io_context :: any_value
  connection_use_iouring :: any_value
  threadpool_size :: any_value
  cpu_cores :: any_value
  requests_active_max :: any_value
  requests_queued_max :: any_value
  available_nodenames :: any_value
  whz_cli_path :: any_value
  database_path :: any_value
  database_name :: any_value
  database_user :: any_value
  database_password :: any_value
  database_port :: any_value
  database_host :: any_value
  database_engine :: any_value
  lua_script_path :: any_value
  lua_start_script_filename :: any_value
  lua_gc_stepsize :: any_value
  log_trace_L3 :: any_value
  log_trace_L2 :: any_value
  log_trace_L1 :: any_value
  log_debug :: any_value
  log_info :: any_value
  log_warning :: any_value
  log_error :: any_value
  log_critical :: any_value
  log_backtrace :: any_value
  log_filename :: any_value
  log_rotation_days :: any_value
  log_rotation_mb :: any_value
  log_path :: any_value

definition empty_config :: config where
  "empty_config =
     \<lparr>config_loaded = False, config_filepath = [],
      server_http_port = Any_empty, server_https_port = Any_empty, server_rootpath = Any_empty,
      server_logpath = Any_empty, connection_timeout_ms = Any_empty,
      server_domainname = Any_empty, server_ssl_certpath = Any_empty,
      connection_max_io_context = Any_empty, connection_use_iouring = Any_empty,
      threadpool_size = Any_empty, cpu_cores = Any_empty, requests_active_max = Any_empty,
      requests_queued_max = Any_empty, available_nodenames = Any_empty, whz_cli_path = Any_empty,
      database_path = Any_empty, database_name = Any_empty, database_user = Any_empty,
      database_password = Any_empty, database_port = Any_empty, database_host = Any_empty,
      database_engine = Any_empty, lua_script_path = Any_empty,
      lua_start_script_filename = Any_empty, lua_gc_stepsize = Any_empty,
      log_trace_L3 = Any_empty, log_trace_L2 = Any_empty, log_trace_L1 = Any_empty,
      log_debug = Any_empty, log_info = Any_empty, log_warning = Any_empty,
      log_error = Any_empty, log_critical = Any_empty, log_backtrace = Any_empty,
      log_filename = Any_empty, log_rotation_days = Any_empty, log_rotation_mb = Any_empty,
      log_path = Any_empty\<rparr>"

text \<open>The part of the JSON library the code uses, over its type of elements.\<close>

record 'e json_api =
  json_load :: "string \<Rightarrow> 'e option"
  json_object :: "'e \<Rightarrow> (string \<times> 'e) list option"
  json_is_null :: "'e \<Rightarrow> bool"
  json_is_uint64 :: "'e \<Rightarrow> bool"
  json_is_bool :: "'e \<Rightarrow> bool"
  json_is_string :: "'e \<Rightarrow> bool"
  json_get_uint64 :: "'e \<Rightarrow> u64"
  json_get_bool :: "'e \<Rightarrow> bool"
  json_get_string :: "'e \<Rightarrow> string"

subsection \<open>Operations\<close>

text \<open>The name of a parameter in the file: the chain of comparisons, in its order.\<close>

definition param_of_key :: "string \<Rightarrow> config_parameter" where
  "param_of_key key =
     (if key = ''SERVER_HTTP_PORT'' then SERVER_HTTP_PORT
     else if key = ''SERVER_HTTPS_PORT'' then SERVER_HTTPS_PORT
     else if key = ''SERVER_ROOTPATH'' then SERVER_ROOTPATH
     else if key = ''SERVER_LOGPATH'' then SERVER_LOGPATH
     else if key = ''CONNECTION_TIMEOUT_MS'' then CONNECTION_TIMEOUT_MS
     else if key = ''SERVER_DOMAINNAME'' then SERVER_DOMAINNAME
     else if key = ''SERVER_SSL_CERTPATH'' then SERVER_SSL_CERTPATH
     else if key = ''CONNECTION_MAX_IO_CONTEXTS'' then CONNECTION_MAX_IO_CONTEXTS
     else if key = ''CONNECTION_USE_IOURING'' then CONNECTION_USE_IOURING
     else if key = ''THREADPOOL_SIZE'' then THREADPOOL_SIZE
     else if key = ''CPU_CORES'' then CPU_CORES
     else if key = ''REQUESTS_ACTIVE_MAX'' then REQUESTS_ACTIVE_MAX
     else if key = ''REQUESTS_QUEUED_MAX'' then REQUESTS_QUEUED_MAX
     else if key = ''AVAILABLE_NODENAMES'' then AVAILABLE_NODENAMES
     else if key = ''WHZ_CLI_PATH'' then WHZ_CLI_PATH
     else if key = ''DATABASE_PATH'' then DATABASE_PATH
     else if key = ''DATABASE_NAME'' then DATABASE_NAME
     else if key = ''DATABASE_USER'' then DATABASE_USER
     else if key = ''DATABASE_PASSWORD'' then DATABASE_PASSWORD
     else if key = ''DATABASE_PORT'' then DATABASE_PORT
     else if key = ''DATABASE_HOST'' then DATABASE_HOST
     else if key = ''DATABASE_ENGINE'' then DATABASE_ENGINE
     else if key = ''LUA_SCRIPT_PATH'' then LUA_SCRIPT_PATH
     else if key = ''LUA_START_SCRIPT_FILENAME'' then LUA_START_SCRIPT_FILENAME
     else if key = ''LUA_GC_STEPSIZE'' then LUA_GC_STEPSIZE
     else if key = ''LOG_TRACE_L3'' then LOG_TRACE_L3
     else if key = ''LOG_TRACE_L2'' then LOG_TRACE_L2
     else if key = ''LOG_TRACE_L1'' then LOG_TRACE_L1
     else if key = ''LOG_DEBUG'' then LOG_DEBUG
     else if key = ''LOG_INFO'' then LOG_INFO
     else if key = ''LOG_WARNING'' then LOG_WARNING
     else if key = ''LOG_ERROR'' then LOG_ERROR
     else if key = ''LOG_CRITICAL'' then LOG_CRITICAL
     else if key = ''LOG_BACKTRACE'' then LOG_BACKTRACE
     else if key = ''LOG_FILENAME'' then LOG_FILENAME
     else if key = ''LOG_ROTATION_DAYS'' then LOG_ROTATION_DAYS
     else if key = ''LOG_ROTATION_MB'' then LOG_ROTATION_MB
     else if key = ''LOG_PATH'' then LOG_PATH
     else UNKNOWN)"

text \<open>The recurring branches: the value of the file when it has the type, else a default.\<close>

definition uint_member :: "'e json_api \<Rightarrow> 'e \<Rightarrow> int \<Rightarrow> any_value" where
  "uint_member j v d =
     (if \<not> json_is_null j v \<and> json_is_uint64 j v then Any_result_uint64 (json_get_uint64 j v) else Any_int d)"

definition string_member :: "'e json_api \<Rightarrow> 'e \<Rightarrow> any_value" where
  "string_member j v =
     (if \<not> json_is_null j v \<and> json_is_string j v then Any_string_view (Some (json_get_string j v)) else Any_cstr [])"

definition bool_member :: "'e json_api \<Rightarrow> 'e \<Rightarrow> any_value" where
  "bool_member j v =
     (if \<not> json_is_null j v \<and> json_is_bool j v then Any_result_bool (json_get_bool j v) else Any_bool False)"

text \<open>\<open>LOG_INFO\<close> alone is stored as \<open>bool(value)\<close>.\<close>

definition plain_bool_member :: "'e json_api \<Rightarrow> 'e \<Rightarrow> any_value" where
  "plain_bool_member j v =
     (if \<not> json_is_null j v \<and> json_is_bool j v then Any_bool (json_get_bool j v) else Any_bool False)"

text \<open>The switch of \<open>read_config\<close>, in three parts.\<close>

definition store_server :: "'e json_api \<Rightarrow> config_parameter \<Rightarrow> 'e \<Rightarrow> config \<Rightarrow> config" where
  "store_server j p v c =
     (case p of
          SERVER_HTTP_PORT \<Rightarrow> c\<lparr>server_http_port := uint_member j v 0\<rparr>
        | SERVER_HTTPS_PORT \<Rightarrow> c\<lparr>server_https_port := uint_member j v 0\<rparr>
        | SERVER_ROOTPATH \<Rightarrow> c\<lparr>server_rootpath := string_member j v\<rparr>
        | SERVER_LOGPATH \<Rightarrow> c\<lparr>server_logpath := string_member j v\<rparr>
        | CONNECTION_TIMEOUT_MS \<Rightarrow> c\<lparr>connection_timeout_ms := uint_member j v 5000\<rparr>
        | SERVER_DOMAINNAME \<Rightarrow> c\<lparr>server_domainname := string_member j v\<rparr>
        | SERVER_SSL_CERTPATH \<Rightarrow> c\<lparr>server_ssl_certpath := string_member j v\<rparr>
        | CONNECTION_MAX_IO_CONTEXTS \<Rightarrow> c\<lparr>connection_max_io_context := uint_member j v 100\<rparr>
        | CONNECTION_USE_IOURING \<Rightarrow> c\<lparr>connection_use_iouring := bool_member j v\<rparr>
        | THREADPOOL_SIZE \<Rightarrow> c\<lparr>threadpool_size := uint_member j v 100\<rparr>
        | CPU_CORES \<Rightarrow> c\<lparr>cpu_cores := uint_member j v 8\<rparr>
        | REQUESTS_ACTIVE_MAX \<Rightarrow> c\<lparr>requests_active_max := uint_member j v 8\<rparr>
        | REQUESTS_QUEUED_MAX \<Rightarrow> c\<lparr>requests_queued_max := uint_member j v 100\<rparr>
        | AVAILABLE_NODENAMES \<Rightarrow> c\<lparr>available_nodenames := string_member j v\<rparr>
        | WHZ_CLI_PATH \<Rightarrow> c\<lparr>whz_cli_path := string_member j v\<rparr>
        | _ \<Rightarrow> c)"

definition store_database_lua :: "'e json_api \<Rightarrow> config_parameter \<Rightarrow> 'e \<Rightarrow> config \<Rightarrow> config" where
  "store_database_lua j p v c =
     (case p of
          DATABASE_PATH \<Rightarrow> c\<lparr>database_path := string_member j v\<rparr>
        | DATABASE_NAME \<Rightarrow> c\<lparr>database_name := string_member j v\<rparr>
        | DATABASE_USER \<Rightarrow> c\<lparr>database_user := string_member j v\<rparr>
        | DATABASE_PASSWORD \<Rightarrow> c\<lparr>database_password := string_member j v\<rparr>
        | DATABASE_PORT \<Rightarrow> c\<lparr>database_port := uint_member j v 0\<rparr>
        | DATABASE_HOST \<Rightarrow> c\<lparr>database_host := string_member j v\<rparr>
        | DATABASE_ENGINE \<Rightarrow> c\<lparr>database_engine := string_member j v\<rparr>
        | LUA_SCRIPT_PATH \<Rightarrow> c\<lparr>lua_script_path := string_member j v\<rparr>
        | LUA_START_SCRIPT_FILENAME \<Rightarrow> c\<lparr>lua_start_script_filename := string_member j v\<rparr>
        | LUA_GC_STEPSIZE \<Rightarrow> c\<lparr>lua_gc_stepsize := uint_member j v 1000000\<rparr>
        | _ \<Rightarrow> c)"

definition store_logging :: "'e json_api \<Rightarrow> config_parameter \<Rightarrow> 'e \<Rightarrow> config \<Rightarrow> config" where
  "store_logging j p v c =
     (case p of
          LOG_TRACE_L3 \<Rightarrow> c\<lparr>log_trace_L3 := bool_member j v\<rparr>
        | LOG_TRACE_L2 \<Rightarrow> c\<lparr>log_trace_L2 := bool_member j v\<rparr>
        | LOG_TRACE_L1 \<Rightarrow> c\<lparr>log_trace_L1 := bool_member j v\<rparr>
        | LOG_DEBUG \<Rightarrow> c\<lparr>log_debug := bool_member j v\<rparr>
        | LOG_INFO \<Rightarrow> c\<lparr>log_info := plain_bool_member j v\<rparr>
        | LOG_WARNING \<Rightarrow> c\<lparr>log_warning := bool_member j v\<rparr>
        | LOG_ERROR \<Rightarrow> c\<lparr>log_error := bool_member j v\<rparr>
        | LOG_CRITICAL \<Rightarrow> c\<lparr>log_critical := bool_member j v\<rparr>
        | LOG_BACKTRACE \<Rightarrow> c\<lparr>log_backtrace := bool_member j v\<rparr>
        | LOG_FILENAME \<Rightarrow> c\<lparr>log_filename := string_member j v\<rparr>
        | LOG_ROTATION_DAYS \<Rightarrow> c\<lparr>log_rotation_days := uint_member j v 1\<rparr>
        | LOG_ROTATION_MB \<Rightarrow> c\<lparr>log_rotation_mb := uint_member j v 50\<rparr>
        | LOG_PATH \<Rightarrow> c\<lparr>log_path := string_member j v\<rparr>
        | _ \<Rightarrow> c)"

definition store_param :: "'e json_api \<Rightarrow> config_parameter \<Rightarrow> 'e \<Rightarrow> config \<Rightarrow> config" where
  "store_param j p v c = store_logging j p v (store_database_lua j p v (store_server j p v c))"

text \<open>The body of the loop over the fields of the object.\<close>

definition store_field :: "'e json_api \<Rightarrow> string \<times> 'e \<Rightarrow> config \<Rightarrow> config" where
  "store_field j kv c = store_param j (param_of_key (fst kv)) (snd kv) c"

text \<open>The end of the parser's life: the views into its buffer dangle, whichever member holds them.\<close>

fun parser_gone :: "any_value \<Rightarrow> any_value" where
  "parser_gone (Any_string_view s) = Any_string_view None"
| "parser_gone a = a"

definition destroy_parser :: "config \<Rightarrow> config" where
  "destroy_parser c =
     c\<lparr>server_http_port := parser_gone (server_http_port c),
       server_https_port := parser_gone (server_https_port c),
       server_rootpath := parser_gone (server_rootpath c),
       server_logpath := parser_gone (server_logpath c),
       connection_timeout_ms := parser_gone (connection_timeout_ms c),
       server_domainname := parser_gone (server_domainname c),
       server_ssl_certpath := parser_gone (server_ssl_certpath c),
       connection_max_io_context := parser_gone (connection_max_io_context c),
       connection_use_iouring := parser_gone (connection_use_iouring c),
       threadpool_size := parser_gone (threadpool_size c),
       cpu_cores := parser_gone (cpu_cores c),
       requests_active_max := parser_gone (requests_active_max c),
       requests_queued_max := parser_gone (requests_queued_max c),
       available_nodenames := parser_gone (available_nodenames c),
       whz_cli_path := parser_gone (whz_cli_path c),
       database_path := parser_gone (database_path c),
       database_name := parser_gone (database_name c),
       database_user := parser_gone (database_user c),
       database_password := parser_gone (database_password c),
       database_port := parser_gone (database_port c),
       database_host := parser_gone (database_host c),
       database_engine := parser_gone (database_engine c),
       lua_script_path := parser_gone (lua_script_path c),
       lua_start_script_filename := parser_gone (lua_start_script_filename c),
       lua_gc_stepsize := parser_gone (lua_gc_stepsize c),
       log_trace_L3 := parser_gone (log_trace_L3 c),
       log_trace_L2 := parser_gone (log_trace_L2 c),
       log_trace_L1 := parser_gone (log_trace_L1 c),
       log_debug := parser_gone (log_debug c),
       log_info := parser_gone (log_info c),
       log_warning := parser_gone (log_warning c),
       log_error := parser_gone (log_error c),
       log_critical := parser_gone (log_critical c),
       log_backtrace := parser_gone (log_backtrace c),
       log_filename := parser_gone (log_filename c),
       log_rotation_days := parser_gone (log_rotation_days c),
       log_rotation_mb := parser_gone (log_rotation_mb c),
       log_path := parser_gone (log_path c)\<rparr>"

text \<open>
  \<open>read_config\<close>: the first condition is \<open>sfilepath.empty() != true || exists(sfilepath)\<close>.
  Iterating over the result of \<open>get_object()\<close> throws when the document is not an object. Where
  nothing was stored the end of the parser changes nothing.
\<close>

definition read_config ::
  "'e json_api \<Rightarrow> (string \<Rightarrow> bool) \<Rightarrow> string \<Rightarrow> config \<Rightarrow> exn + bool \<times> config" where
  "read_config j exists sfilepath c =
     (if sfilepath \<noteq> [] \<or> exists sfilepath
      then (case json_load j sfilepath of
              None \<Rightarrow> Inr (False, c)
            | Some doc \<Rightarrow>
                (case json_object j doc of
                   None \<Rightarrow> Inl Simdjson_error
                 | Some kvs \<Rightarrow>
                     Inr (True, destroy_parser ((fold (store_field j) kvs c)\<lparr>config_loaded := True\<rparr>))))
      else Inr (False, c))"

definition is_config_loaded :: "config \<Rightarrow> bool" where
  "is_config_loaded c = config_loaded c"

definition relaod_config :: "'e json_api \<Rightarrow> (string \<Rightarrow> bool) \<Rightarrow> config \<Rightarrow> exn + bool \<times> config" where
  "relaod_config j exists c = read_config j exists [] c"

definition get_config_value :: "config_parameter \<Rightarrow> config \<Rightarrow> any_value" where
  "get_config_value p c =
     (case p of
          SERVER_HTTP_PORT \<Rightarrow> server_http_port c
        | SERVER_HTTPS_PORT \<Rightarrow> server_https_port c
        | SERVER_ROOTPATH \<Rightarrow> server_rootpath c
        | SERVER_LOGPATH \<Rightarrow> server_logpath c
        | CONNECTION_TIMEOUT_MS \<Rightarrow> connection_timeout_ms c
        | SERVER_DOMAINNAME \<Rightarrow> server_domainname c
        | SERVER_SSL_CERTPATH \<Rightarrow> server_ssl_certpath c
        | CONNECTION_MAX_IO_CONTEXTS \<Rightarrow> connection_max_io_context c
        | CONNECTION_USE_IOURING \<Rightarrow> connection_use_iouring c
        | THREADPOOL_SIZE \<Rightarrow> threadpool_size c
        | CPU_CORES \<Rightarrow> cpu_cores c
        | REQUESTS_ACTIVE_MAX \<Rightarrow> requests_active_max c
        | REQUESTS_QUEUED_MAX \<Rightarrow> requests_queued_max c
        | AVAILABLE_NODENAMES \<Rightarrow> available_nodenames c
        | WHZ_CLI_PATH \<Rightarrow> whz_cli_path c
        | DATABASE_PATH \<Rightarrow> database_path c
        | DATABASE_NAME \<Rightarrow> database_name c
        | DATABASE_USER \<Rightarrow> database_user c
        | DATABASE_PASSWORD \<Rightarrow> database_password c
        | DATABASE_PORT \<Rightarrow> database_port c
        | DATABASE_HOST \<Rightarrow> database_host c
        | DATABASE_ENGINE \<Rightarrow> database_engine c
        | LUA_SCRIPT_PATH \<Rightarrow> lua_script_path c
        | LUA_START_SCRIPT_FILENAME \<Rightarrow> lua_start_script_filename c
        | LUA_GC_STEPSIZE \<Rightarrow> lua_gc_stepsize c
        | LOG_TRACE_L3 \<Rightarrow> log_trace_L3 c
        | LOG_TRACE_L2 \<Rightarrow> log_trace_L2 c
        | LOG_TRACE_L1 \<Rightarrow> log_trace_L1 c
        | LOG_DEBUG \<Rightarrow> log_debug c
        | LOG_INFO \<Rightarrow> log_info c
        | LOG_WARNING \<Rightarrow> log_warning c
        | LOG_ERROR \<Rightarrow> log_error c
        | LOG_CRITICAL \<Rightarrow> log_critical c
        | LOG_BACKTRACE \<Rightarrow> log_backtrace c
        | LOG_FILENAME \<Rightarrow> log_filename c
        | LOG_ROTATION_DAYS \<Rightarrow> log_rotation_days c
        | LOG_ROTATION_MB \<Rightarrow> log_rotation_mb c
        | LOG_PATH \<Rightarrow> log_path c
        | _ \<Rightarrow> Any_cstr ''Unknown'')"

text \<open>
  \<open>createJSON_config\<close>: the loop casts every value to \<open>std::string\<close> and looks the string up in an
  empty object; the file is written afterwards, when it opens (\<open>can_open\<close>).
\<close>

fun cast_values :: "config \<Rightarrow> config_parameter list \<Rightarrow> exn + string list" where
  "cast_values c [] = Inr []"
| "cast_values c (p # ps) =
     (case any_cast_string (get_config_value p c) of
        Inl e \<Rightarrow> Inl e
      | Inr pname \<Rightarrow> (case cast_values c ps of Inl e \<Rightarrow> Inl e | Inr names \<Rightarrow> Inr (pname # names)))"

definition createJSON_config :: "(string \<Rightarrow> bool) \<Rightarrow> string \<Rightarrow> config \<Rightarrow> exn + bool" where
  "createJSON_config can_open output_filepath c =
     (case cast_values c (tl all_parameters) of
        Inl e \<Rightarrow> Inl e
      | Inr _ \<Rightarrow> Inr (can_open output_filepath))"

subsection \<open>What a parameter holds after it was stored\<close>

fun member_value :: "'e json_api \<Rightarrow> config_parameter \<Rightarrow> 'e \<Rightarrow> any_value" where
  "member_value j UNKNOWN v = Any_cstr ''Unknown''"
| "member_value j SERVER_HTTP_PORT v = uint_member j v 0"
| "member_value j SERVER_HTTPS_PORT v = uint_member j v 0"
| "member_value j SERVER_ROOTPATH v = string_member j v"
| "member_value j SERVER_LOGPATH v = string_member j v"
| "member_value j CONNECTION_TIMEOUT_MS v = uint_member j v 5000"
| "member_value j SERVER_DOMAINNAME v = string_member j v"
| "member_value j SERVER_SSL_CERTPATH v = string_member j v"
| "member_value j CONNECTION_MAX_IO_CONTEXTS v = uint_member j v 100"
| "member_value j CONNECTION_USE_IOURING v = bool_member j v"
| "member_value j THREADPOOL_SIZE v = uint_member j v 100"
| "member_value j CPU_CORES v = uint_member j v 8"
| "member_value j REQUESTS_ACTIVE_MAX v = uint_member j v 8"
| "member_value j REQUESTS_QUEUED_MAX v = uint_member j v 100"
| "member_value j AVAILABLE_NODENAMES v = string_member j v"
| "member_value j WHZ_CLI_PATH v = string_member j v"
| "member_value j DATABASE_PATH v = string_member j v"
| "member_value j DATABASE_NAME v = string_member j v"
| "member_value j DATABASE_USER v = string_member j v"
| "member_value j DATABASE_PASSWORD v = string_member j v"
| "member_value j DATABASE_PORT v = uint_member j v 0"
| "member_value j DATABASE_HOST v = string_member j v"
| "member_value j DATABASE_ENGINE v = string_member j v"
| "member_value j LUA_SCRIPT_PATH v = string_member j v"
| "member_value j LUA_START_SCRIPT_FILENAME v = string_member j v"
| "member_value j LUA_GC_STEPSIZE v = uint_member j v 1000000"
| "member_value j LOG_TRACE_L3 v = bool_member j v"
| "member_value j LOG_TRACE_L2 v = bool_member j v"
| "member_value j LOG_TRACE_L1 v = bool_member j v"
| "member_value j LOG_DEBUG v = bool_member j v"
| "member_value j LOG_INFO v = plain_bool_member j v"
| "member_value j LOG_WARNING v = bool_member j v"
| "member_value j LOG_ERROR v = bool_member j v"
| "member_value j LOG_CRITICAL v = bool_member j v"
| "member_value j LOG_BACKTRACE v = bool_member j v"
| "member_value j LOG_FILENAME v = string_member j v"
| "member_value j LOG_ROTATION_DAYS v = uint_member j v 1"
| "member_value j LOG_ROTATION_MB v = uint_member j v 50"
| "member_value j LOG_PATH v = string_member j v"


text \<open>The members as an array, and the place of a parameter in it (its \<open>uint8_t\<close> value less one).\<close>

definition members :: "config \<Rightarrow> any_value list" where
  "members c =
     [server_http_port c, server_https_port c, server_rootpath c, server_logpath c,
      connection_timeout_ms c, server_domainname c, server_ssl_certpath c,
      connection_max_io_context c, connection_use_iouring c, threadpool_size c, cpu_cores c,
      requests_active_max c, requests_queued_max c, available_nodenames c, whz_cli_path c,
      database_path c, database_name c, database_user c, database_password c, database_port c,
      database_host c, database_engine c, lua_script_path c, lua_start_script_filename c,
      lua_gc_stepsize c, log_trace_L3 c, log_trace_L2 c, log_trace_L1 c, log_debug c, log_info c,
      log_warning c, log_error c, log_critical c, log_backtrace c, log_filename c,
      log_rotation_days c, log_rotation_mb c, log_path c]"

fun param_index :: "config_parameter \<Rightarrow> nat" where
  "param_index UNKNOWN = 0"
| "param_index SERVER_HTTP_PORT = 1"
| "param_index SERVER_HTTPS_PORT = 2"
| "param_index SERVER_ROOTPATH = 3"
| "param_index SERVER_LOGPATH = 4"
| "param_index CONNECTION_TIMEOUT_MS = 5"
| "param_index SERVER_DOMAINNAME = 6"
| "param_index SERVER_SSL_CERTPATH = 7"
| "param_index CONNECTION_MAX_IO_CONTEXTS = 8"
| "param_index CONNECTION_USE_IOURING = 9"
| "param_index THREADPOOL_SIZE = 10"
| "param_index CPU_CORES = 11"
| "param_index REQUESTS_ACTIVE_MAX = 12"
| "param_index REQUESTS_QUEUED_MAX = 13"
| "param_index AVAILABLE_NODENAMES = 14"
| "param_index WHZ_CLI_PATH = 15"
| "param_index DATABASE_PATH = 16"
| "param_index DATABASE_NAME = 17"
| "param_index DATABASE_USER = 18"
| "param_index DATABASE_PASSWORD = 19"
| "param_index DATABASE_PORT = 20"
| "param_index DATABASE_HOST = 21"
| "param_index DATABASE_ENGINE = 22"
| "param_index LUA_SCRIPT_PATH = 23"
| "param_index LUA_START_SCRIPT_FILENAME = 24"
| "param_index LUA_GC_STEPSIZE = 25"
| "param_index LOG_TRACE_L3 = 26"
| "param_index LOG_TRACE_L2 = 27"
| "param_index LOG_TRACE_L1 = 28"
| "param_index LOG_DEBUG = 29"
| "param_index LOG_INFO = 30"
| "param_index LOG_WARNING = 31"
| "param_index LOG_ERROR = 32"
| "param_index LOG_CRITICAL = 33"
| "param_index LOG_BACKTRACE = 34"
| "param_index LOG_FILENAME = 35"
| "param_index LOG_ROTATION_DAYS = 36"
| "param_index LOG_ROTATION_MB = 37"
| "param_index LOG_PATH = 38"

text \<open>The order of the enumerators is that of their values.\<close>

lemma all_parameters_index: "param_index p < 39 \<and> all_parameters ! param_index p = p"
  by (cases p) (simp_all add: all_parameters_def)

lemma param_index_inj: "param_index p = param_index q \<longleftrightarrow> p = q"
  by (metis all_parameters_index)

instantiation config_parameter :: linorder
begin

definition less_eq_config_parameter :: "config_parameter \<Rightarrow> config_parameter \<Rightarrow> bool" where
  "less_eq_config_parameter p q \<longleftrightarrow> param_index p \<le> param_index q"

definition less_config_parameter :: "config_parameter \<Rightarrow> config_parameter \<Rightarrow> bool" where
  "less_config_parameter p q \<longleftrightarrow> param_index p < param_index q"

instance
  by intro_classes (auto simp: less_eq_config_parameter_def less_config_parameter_def param_index_inj)

end

lemma param_index_pos: "0 < param_index p \<longleftrightarrow> p \<noteq> UNKNOWN"
  by (cases p) simp_all

lemma members_store:
  "p \<noteq> UNKNOWN \<Longrightarrow> members (store_param j p v c) = (members c)[param_index p - 1 := member_value j p v]"
  by (cases p)
     (simp_all add: members_def store_param_def store_server_def store_database_lua_def store_logging_def)

lemma get_members: "p \<noteq> UNKNOWN \<Longrightarrow> get_config_value p c = members c ! (param_index p - 1)"
  by (cases p) (simp_all add: members_def get_config_value_def)

lemma length_members [simp]: "length (members c) = 38"
  by (simp add: members_def)

lemma store_unknown [simp]: "store_param j UNKNOWN v c = c"
  by (simp add: store_param_def store_server_def store_database_lua_def store_logging_def)

subsection \<open>Parameter stores\<close>

text \<open>
  What the readers of the configuration rely on: a parameter has the value it was last given, and
  giving a value to one parameter leaves the others alone.
\<close>

locale param_store =
  fixes get :: "'p \<Rightarrow> 's \<Rightarrow> 'a"
    and put :: "'p \<Rightarrow> 'v \<Rightarrow> 's \<Rightarrow> 's"
    and val :: "'p \<Rightarrow> 'v \<Rightarrow> 'a"
    and known :: "'p \<Rightarrow> bool"
  assumes get_put_same: "known p \<Longrightarrow> get p (put p v s) = val p v"
    and get_put_other: "known p \<Longrightarrow> p \<noteq> q \<Longrightarrow> get p (put q v s) = get p s"
begin

lemma get_fold:
  "known p \<Longrightarrow>
   get p (fold (\<lambda>(q, v). put q v) kvs s) =
     (case map_of (rev kvs) p of None \<Rightarrow> get p s | Some v \<Rightarrow> val p v)"
proof (induction kvs rule: rev_induct)
  case (snoc kv kvs)
  then show ?case by (cases kv) (auto simp: get_put_same get_put_other)
qed simp

lemma get_fold_ok:
  assumes "known p" "ok (get p s)" "\<And>v. ok (val p v)"
  shows "ok (get p (fold (\<lambda>(q, v). put q v) kvs s))"
  using assms by (simp add: get_fold split: option.split)

end

interpretation config_store:
  param_store get_config_value "store_param j" "member_value j" "\<lambda>p. p \<noteq> UNKNOWN" for j
proof
  fix p q :: config_parameter and v c
  show "get_config_value p (store_param j p v c) = member_value j p v" if "p \<noteq> UNKNOWN"
    using that all_parameters_index [of p] param_index_pos [of p]
    by (auto simp: get_members members_store nth_list_update)
  show "get_config_value p (store_param j q v c) = get_config_value p c" if "p \<noteq> UNKNOWN" "p \<noteq> q"
  proof (cases "q = UNKNOWN")
    case False
    have "param_index q - 1 \<noteq> param_index p - 1"
      using that False param_index_pos [of p] param_index_pos [of q] param_index_inj [of p q] by linarith
    then show ?thesis using that False by (simp add: get_members members_store)
  qed simp
qed

text \<open>The name of a parameter in the file.\<close>

fun param_name :: "config_parameter \<Rightarrow> string" where
  "param_name UNKNOWN = ''UNKNOWN''"
| "param_name SERVER_HTTP_PORT = ''SERVER_HTTP_PORT''"
| "param_name SERVER_HTTPS_PORT = ''SERVER_HTTPS_PORT''"
| "param_name SERVER_ROOTPATH = ''SERVER_ROOTPATH''"
| "param_name SERVER_LOGPATH = ''SERVER_LOGPATH''"
| "param_name CONNECTION_TIMEOUT_MS = ''CONNECTION_TIMEOUT_MS''"
| "param_name SERVER_DOMAINNAME = ''SERVER_DOMAINNAME''"
| "param_name SERVER_SSL_CERTPATH = ''SERVER_SSL_CERTPATH''"
| "param_name CONNECTION_MAX_IO_CONTEXTS = ''CONNECTION_MAX_IO_CONTEXTS''"
| "param_name CONNECTION_USE_IOURING = ''CONNECTION_USE_IOURING''"
| "param_name THREADPOOL_SIZE = ''THREADPOOL_SIZE''"
| "param_name CPU_CORES = ''CPU_CORES''"
| "param_name REQUESTS_ACTIVE_MAX = ''REQUESTS_ACTIVE_MAX''"
| "param_name REQUESTS_QUEUED_MAX = ''REQUESTS_QUEUED_MAX''"
| "param_name AVAILABLE_NODENAMES = ''AVAILABLE_NODENAMES''"
| "param_name WHZ_CLI_PATH = ''WHZ_CLI_PATH''"
| "param_name DATABASE_PATH = ''DATABASE_PATH''"
| "param_name DATABASE_NAME = ''DATABASE_NAME''"
| "param_name DATABASE_USER = ''DATABASE_USER''"
| "param_name DATABASE_PASSWORD = ''DATABASE_PASSWORD''"
| "param_name DATABASE_PORT = ''DATABASE_PORT''"
| "param_name DATABASE_HOST = ''DATABASE_HOST''"
| "param_name DATABASE_ENGINE = ''DATABASE_ENGINE''"
| "param_name LUA_SCRIPT_PATH = ''LUA_SCRIPT_PATH''"
| "param_name LUA_START_SCRIPT_FILENAME = ''LUA_START_SCRIPT_FILENAME''"
| "param_name LUA_GC_STEPSIZE = ''LUA_GC_STEPSIZE''"
| "param_name LOG_TRACE_L3 = ''LOG_TRACE_L3''"
| "param_name LOG_TRACE_L2 = ''LOG_TRACE_L2''"
| "param_name LOG_TRACE_L1 = ''LOG_TRACE_L1''"
| "param_name LOG_DEBUG = ''LOG_DEBUG''"
| "param_name LOG_INFO = ''LOG_INFO''"
| "param_name LOG_WARNING = ''LOG_WARNING''"
| "param_name LOG_ERROR = ''LOG_ERROR''"
| "param_name LOG_CRITICAL = ''LOG_CRITICAL''"
| "param_name LOG_BACKTRACE = ''LOG_BACKTRACE''"
| "param_name LOG_FILENAME = ''LOG_FILENAME''"
| "param_name LOG_ROTATION_DAYS = ''LOG_ROTATION_DAYS''"
| "param_name LOG_ROTATION_MB = ''LOG_ROTATION_MB''"
| "param_name LOG_PATH = ''LOG_PATH''"

lemma param_of_key_name: "param_of_key (param_name p) = p"
  by (cases p) (simp_all add: param_of_key_def)

lemma param_of_key_known: "param_of_key k \<noteq> UNKNOWN \<Longrightarrow> param_name (param_of_key k) = k"
  unfolding param_of_key_def by (simp split: if_splits)

lemma param_of_key_iff: "p \<noteq> UNKNOWN \<Longrightarrow> param_of_key k = p \<longleftrightarrow> k = param_name p"
  using param_of_key_name param_of_key_known by metis

lemma map_of_param_of_key:
  "p \<noteq> UNKNOWN \<Longrightarrow> map_of (map (\<lambda>(k, v). (param_of_key k, v)) kvs) p = map_of kvs (param_name p)"
  by (induction kvs) (auto simp: param_of_key_known param_of_key_name)

lemma fold_store_field:
  "fold (store_field j) kvs c = fold (\<lambda>(q, v). store_param j q v) (map (\<lambda>(k, v). (param_of_key k, v)) kvs) c"
  by (induction kvs arbitrary: c) (auto simp: store_field_def)

lemma get_loaded [simp]: "get_config_value p (c\<lparr>config_loaded := b\<rparr>) = get_config_value p c"
  by (cases p) (simp_all add: get_config_value_def)

lemma get_destroy [simp]: "get_config_value p (destroy_parser c) = parser_gone (get_config_value p c)"
  by (cases p) (simp_all add: get_config_value_def destroy_parser_def)

lemma loaded_destroy [simp]: "config_loaded (destroy_parser c) = config_loaded c"
  by (simp add: destroy_parser_def)

lemma read_config_value:
  assumes "read_config j exists f c = Inr (True, c')" "p \<noteq> UNKNOWN"
  shows "\<exists>doc kvs. json_load j f = Some doc \<and> json_object j doc = Some kvs \<and>
    get_config_value p c' =
      parser_gone (case map_of (rev kvs) (param_name p) of None \<Rightarrow> get_config_value p c | Some v \<Rightarrow> member_value j p v)"
  using assms
  by (auto simp: read_config_def fold_store_field config_store.get_fold map_of_param_of_key rev_map
      split: if_splits option.splits)

subsection \<open>The types the members can have\<close>

datatype param_kind = Uint_kind int | String_kind | Bool_kind | Plain_bool_kind

fun kind_of :: "config_parameter \<Rightarrow> param_kind" where
  "kind_of UNKNOWN = String_kind"
| "kind_of SERVER_HTTP_PORT = Uint_kind 0"
| "kind_of SERVER_HTTPS_PORT = Uint_kind 0"
| "kind_of SERVER_ROOTPATH = String_kind"
| "kind_of SERVER_LOGPATH = String_kind"
| "kind_of CONNECTION_TIMEOUT_MS = Uint_kind 5000"
| "kind_of SERVER_DOMAINNAME = String_kind"
| "kind_of SERVER_SSL_CERTPATH = String_kind"
| "kind_of CONNECTION_MAX_IO_CONTEXTS = Uint_kind 100"
| "kind_of CONNECTION_USE_IOURING = Bool_kind"
| "kind_of THREADPOOL_SIZE = Uint_kind 100"
| "kind_of CPU_CORES = Uint_kind 8"
| "kind_of REQUESTS_ACTIVE_MAX = Uint_kind 8"
| "kind_of REQUESTS_QUEUED_MAX = Uint_kind 100"
| "kind_of AVAILABLE_NODENAMES = String_kind"
| "kind_of WHZ_CLI_PATH = String_kind"
| "kind_of DATABASE_PATH = String_kind"
| "kind_of DATABASE_NAME = String_kind"
| "kind_of DATABASE_USER = String_kind"
| "kind_of DATABASE_PASSWORD = String_kind"
| "kind_of DATABASE_PORT = Uint_kind 0"
| "kind_of DATABASE_HOST = String_kind"
| "kind_of DATABASE_ENGINE = String_kind"
| "kind_of LUA_SCRIPT_PATH = String_kind"
| "kind_of LUA_START_SCRIPT_FILENAME = String_kind"
| "kind_of LUA_GC_STEPSIZE = Uint_kind 1000000"
| "kind_of LOG_TRACE_L3 = Bool_kind"
| "kind_of LOG_TRACE_L2 = Bool_kind"
| "kind_of LOG_TRACE_L1 = Bool_kind"
| "kind_of LOG_DEBUG = Bool_kind"
| "kind_of LOG_INFO = Plain_bool_kind"
| "kind_of LOG_WARNING = Bool_kind"
| "kind_of LOG_ERROR = Bool_kind"
| "kind_of LOG_CRITICAL = Bool_kind"
| "kind_of LOG_BACKTRACE = Bool_kind"
| "kind_of LOG_FILENAME = String_kind"
| "kind_of LOG_ROTATION_DAYS = Uint_kind 1"
| "kind_of LOG_ROTATION_MB = Uint_kind 50"
| "kind_of LOG_PATH = String_kind"

fun has_kind :: "param_kind \<Rightarrow> any_value \<Rightarrow> bool" where
  "has_kind k Any_empty \<longleftrightarrow> True"
| "has_kind (Uint_kind d) (Any_result_uint64 n) \<longleftrightarrow> True"
| "has_kind (Uint_kind d) (Any_int i) \<longleftrightarrow> i = d"
| "has_kind String_kind (Any_string_view s) \<longleftrightarrow> s = None"
| "has_kind String_kind (Any_cstr s) \<longleftrightarrow> s = [] \<or> s = ''Unknown''"
| "has_kind Bool_kind (Any_result_bool b) \<longleftrightarrow> True"
| "has_kind Bool_kind (Any_bool b) \<longleftrightarrow> \<not> b"
| "has_kind Plain_bool_kind (Any_bool b) \<longleftrightarrow> True"
| "has_kind _ _ \<longleftrightarrow> False"

text \<open>What a field of each type leaves in a member once \<open>read_config\<close> has returned.\<close>

fun left_by :: "'e json_api \<Rightarrow> param_kind \<Rightarrow> 'e \<Rightarrow> any_value" where
  "left_by j (Uint_kind d) v =
     (if json_is_null j v \<or> \<not> json_is_uint64 j v then Any_int d else Any_result_uint64 (json_get_uint64 j v))"
| "left_by j String_kind v = (if json_is_null j v \<or> \<not> json_is_string j v then Any_cstr [] else Any_string_view None)"
| "left_by j Bool_kind v =
     (if json_is_null j v \<or> \<not> json_is_bool j v then Any_bool False else Any_result_bool (json_get_bool j v))"
| "left_by j Plain_bool_kind v = Any_bool (\<not> json_is_null j v \<and> json_is_bool j v \<and> json_get_bool j v)"

lemma member_value_left: "p \<noteq> UNKNOWN \<Longrightarrow> parser_gone (member_value j p v) = left_by j (kind_of p) v"
  by (cases p) (simp_all add: uint_member_def string_member_def bool_member_def plain_bool_member_def)

lemma left_by_kind: "has_kind k (left_by j k v)"
  by (cases k) simp_all

lemma parser_gone_kind: "has_kind k a \<Longrightarrow> parser_gone a = a"
  by (cases a; cases k) simp_all

lemma get_unknown [simp]: "get_config_value UNKNOWN c = Any_cstr ''Unknown''"
  by (simp add: get_config_value_def)

text \<open>The configurations that reading files can produce.\<close>

inductive config_reach :: "'e json_api \<Rightarrow> (string \<Rightarrow> bool) \<Rightarrow> config \<Rightarrow> bool" for j exists where
  reach_empty: "config_reach j exists empty_config"
| reach_read: "config_reach j exists c \<Longrightarrow> read_config j exists f c = Inr (b, c') \<Longrightarrow> config_reach j exists c'"

lemma read_config_False: "read_config j exists f c = Inr (False, c') \<Longrightarrow> c' = c"
  by (auto simp: read_config_def split: if_splits option.splits)

lemma config_kinds: "config_reach j exists c \<Longrightarrow> has_kind (kind_of p) (get_config_value p c)"
proof (induction rule: config_reach.induct)
  case reach_empty
  show ?case by (cases p) (simp_all add: get_config_value_def empty_config_def)
next
  case (reach_read c f b c')
  show ?case
  proof (cases "b \<and> p \<noteq> UNKNOWN")
    case True
    with reach_read.hyps(2) read_config_value [of j exists f c c' p] reach_read.IH show ?thesis
      by (auto simp: member_value_left left_by_kind parser_gone_kind split: option.splits)
  next
    case False
    then consider "p = UNKNOWN" | "b = False" by blast
    then have "p = UNKNOWN \<or> c' = c"
      using reach_read.hyps(2) by cases (auto dest: read_config_False)
    then show ?thesis using reach_read.IH by (elim disjE) simp_all
  qed
qed

subsection \<open>A small JSON library\<close>

text \<open>An instance of the interface, for evaluating the operations on concrete documents.\<close>

datatype json =
    J_null
  | J_bool bool
  | J_uint u64
  | J_string string
  | J_object "(string \<times> json) list"

definition sample_api :: "(string \<Rightarrow> json option) \<Rightarrow> json json_api" where
  "sample_api files =
     \<lparr>json_load = files,
      json_object = (\<lambda>e. case e of J_object kvs \<Rightarrow> Some kvs | _ \<Rightarrow> None),
      json_is_null = (\<lambda>e. case e of J_null \<Rightarrow> True | _ \<Rightarrow> False),
      json_is_uint64 = (\<lambda>e. case e of J_uint n \<Rightarrow> True | _ \<Rightarrow> False),
      json_is_bool = (\<lambda>e. case e of J_bool b \<Rightarrow> True | _ \<Rightarrow> False),
      json_is_string = (\<lambda>e. case e of J_string s \<Rightarrow> True | _ \<Rightarrow> False),
      json_get_uint64 = (\<lambda>e. case e of J_uint n \<Rightarrow> n | _ \<Rightarrow> 0),
      json_get_bool = (\<lambda>e. case e of J_bool b \<Rightarrow> b | _ \<Rightarrow> False),
      json_get_string = (\<lambda>e. case e of J_string s \<Rightarrow> s | _ \<Rightarrow> [])\<rparr>"

definition sample_document :: json where
  "sample_document =
     J_object [(''SERVER_HTTP_PORT'', J_uint 80), (''LOG_ERROR'', J_bool True), (''LOG_INFO'', J_bool True),
       (''SERVER_HTTP_PORT'', J_uint 8080), (''LUA_GC_STEPSIZE'', J_uint 200), (''NO_SUCH_KEY'', J_null),
       (''LUA_START_SCRIPT_FILENAME'', J_string ''main.lua'')]"

definition sample_json :: "json json_api" where
  "sample_json = sample_api [''whz_config.json'' \<mapsto> sample_document]"

definition sample_config :: config where
  "sample_config =
     empty_config\<lparr>config_loaded := True, server_http_port := Any_result_uint64 8080,
       log_error := Any_result_bool True, log_info := Any_bool True, lua_gc_stepsize := Any_result_uint64 200,
       lua_start_script_filename := Any_string_view None\<rparr>"

lemma read_sample: "read_config sample_json exists ''whz_config.json'' empty_config = Inr (True, sample_config)"
  by (simp add: read_config_def sample_json_def sample_api_def sample_document_def store_field_def
      param_of_key_def store_param_def store_server_def store_database_lua_def store_logging_def
      uint_member_def bool_member_def plain_bool_member_def string_member_def sample_config_def empty_config_def destroy_parser_def)

lemma sample_reach: "config_reach sample_json exists sample_config"
  by (rule reach_read [OF reach_empty read_sample])

subsection \<open>Properties\<close>

text \<open>C17 (config_read_values). Reading a file that holds a JSON object succeeds, marks the configuration as loaded,
  and leaves in every parameter what the last field of its name leaves there: a number or switch of the
  right type its value, anything else the default; a string only a dangling view, as the parser that
  owns its bytes is gone. A parameter the file does not name keeps its value, but that no view survives,
  and unknown names change nothing.\<close>

theorem config_read_values:
  assumes "f \<noteq> []" "json_load j f = Some doc" "json_object j doc = Some kvs"
  shows "\<exists>c'. read_config j exists f c = Inr (True, c') \<and> is_config_loaded c' \<and>
    (\<forall>p. p \<noteq> UNKNOWN \<longrightarrow> get_config_value p c' =
       (case map_of (rev kvs) (param_name p) of
          None \<Rightarrow> parser_gone (get_config_value p c) | Some v \<Rightarrow> left_by j (kind_of p) v))"
  using assms
  by (auto simp: read_config_def is_config_loaded_def fold_store_field config_store.get_fold
      map_of_param_of_key rev_map member_value_left split: option.split)

theorem config_read_values_witness:
  "\<exists>c'. read_config sample_json (\<lambda>_. False) ''whz_config.json'' empty_config = Inr (True, c') \<and>
     get_config_value SERVER_HTTP_PORT c' = Any_result_uint64 8080 \<and>
     get_config_value LUA_START_SCRIPT_FILENAME c' = Any_string_view None"
proof -
  let ?kvs = "case sample_document of J_object kvs \<Rightarrow> kvs"
  have "json_load sample_json ''whz_config.json'' = Some sample_document"
    and "json_object sample_json sample_document = Some ?kvs"
    by (simp_all add: sample_json_def sample_api_def sample_document_def)
  from config_read_values [OF _ this, of "\<lambda>_. False" empty_config]
  obtain c' where c': "read_config sample_json (\<lambda>_. False) ''whz_config.json'' empty_config = Inr (True, c')"
    "\<And>p. p \<noteq> UNKNOWN \<Longrightarrow> get_config_value p c' = (case map_of (rev ?kvs) (param_name p) of
          None \<Rightarrow> parser_gone (get_config_value p empty_config) | Some v \<Rightarrow> left_by sample_json (kind_of p) v)"
    by auto
  from c'(2) [of SERVER_HTTP_PORT] c'(2) [of LUA_START_SCRIPT_FILENAME] c'(1) show ?thesis
    by (simp add: sample_document_def sample_json_def sample_api_def)
qed

text \<open>C34 (config_types). In every configuration that reading files can produce, a member is empty or holds a value of
  one of the two types its branch assigns: a \<open>simdjson_result\<close> or the \<open>int\<close> default for the
  numbers, a dangling view or a literal for the strings, a \<open>simdjson_result\<close> or \<open>false\<close> for the switches, and a
  plain \<open>bool\<close> for \<open>LOG_INFO\<close>.\<close>

theorem config_types:
  assumes "config_reach j exists c"
  shows "has_kind (kind_of p) (get_config_value p c)"
  using assms by (rule config_kinds)

theorem config_types_witness: "has_kind (kind_of LOG_ERROR) (get_config_value LOG_ERROR sample_config)"
  using sample_reach by (rule config_types)

text \<open>C37 (config_never_written). \<open>createJSON_config\<close> never writes a file: on every configuration that reading files can
  produce it throws \<open>bad_any_cast\<close> at the first parameter, because no member ever holds a
  \<open>std::string\<close>.\<close>

theorem config_never_written:
  assumes "config_reach j exists c"
  shows "createJSON_config can_open out c = Inl Bad_any_cast"
proof -
  have "any_cast_string (get_config_value SERVER_HTTP_PORT c) = Inl Bad_any_cast"
    using config_kinds [OF assms, of SERVER_HTTP_PORT]
    by (cases "get_config_value SERVER_HTTP_PORT c") simp_all
  then show ?thesis by (simp add: createJSON_config_def all_parameters_def)
qed

theorem config_never_written_witness:
  "createJSON_config (\<lambda>_. True) ''whz_config2.json'' sample_config = Inl Bad_any_cast"
  using sample_reach by (rule config_never_written)

text \<open>(reload_fails). Reloading never reloads: it reads the file with the empty name, which does not exist,
  reports failure and leaves the configuration as it was.\<close>

theorem reload_fails:
  assumes "\<not> exists []"
  shows "relaod_config j exists c = Inr (False, c)"
  using assms by (simp add: relaod_config_def read_config_def)

theorem reload_fails_witness: "relaod_config sample_json (\<lambda>f. f = ''whz_config.json'') sample_config = Inr (False, sample_config)"
  by (rule reload_fails) simp

end
