(* ===== verification/Qlogger.thy ===== *)
theory Qlogger
  imports Config
begin

section \<open>The logger (\<open>whz_quill_wrapper.hpp\<close>, \<open>whz_quill_wrapper.cpp\<close>)\<close>

text \<open>
  Each level method asks the configuration whether its switch is on and then hands the message to
  the logging library. The library itself is not modelled: the state is the list of the calls made
  to it, and the flag that \<open>stopLogger\<close> sets. Output to the console is left out.
\<close>

datatype log_level =
    Trace_L3 | Trace_L2 | Trace_L1 | Debug | Info | Warning | Error | Critical | Backtrace

text \<open>The settings of the file the log rotates through, and the calls made to the library.\<close>

datatype sink_setting =
    Rotation_time_daily string | Open_mode char | Rotation_max_file_size int | Remove_old_files bool
  | Timezone_local_time | Naming_date_and_time | Append_start_date_time

datatype quill_call =
    Backend_start | Create_sink string "sink_setting list" | Create_logger string string string
  | Log log_level string | Flush_log | Remove_logger | Backend_stop

record qlogger =
  is_backend_closed :: bool
  quill_calls :: "quill_call list"

definition call_quill :: "quill_call \<Rightarrow> qlogger \<Rightarrow> qlogger" where
  "call_quill a q = q\<lparr>quill_calls := quill_calls q @ [a]\<rparr>"

definition sink_config :: "sink_setting list" where
  "sink_config =
     [Rotation_time_daily ''00:00'', Open_mode (CHR ''w''), Rotation_max_file_size (1024 * 1024 * 5),
      Remove_old_files False, Timezone_local_time, Naming_date_and_time, Append_start_date_time]"

definition new_qlogger :: qlogger where
  "new_qlogger =
     call_quill
       (Create_logger ''logger_user''
          (''%(time) [%(thread_id)] %(short_source_location:<28) '' @ ''%(log_level:<9) %(logger:<12) %(message)'')
          ''%H:%M:%S.%Qus'')
       (call_quill (Create_sink ''whz_logfile.log'' sink_config)
          (call_quill Backend_start \<lparr>is_backend_closed = False, quill_calls = []\<rparr>))"

definition destroy_qlogger :: "qlogger \<Rightarrow> qlogger" where
  "destroy_qlogger q = (if \<not> is_backend_closed q then call_quill Flush_log q else q)"

text \<open>The body the nine methods share, for the switch \<open>p\<close> and the level \<open>l\<close>.\<close>

definition log_switch :: "config_parameter \<Rightarrow> config \<Rightarrow> exn + bool" where
  "log_switch p cfg =
     (if is_type_bool (get_config_value p cfg) then any_cast_bool (get_config_value p cfg) else Inr False)"

definition log_at :: "log_level \<Rightarrow> config_parameter \<Rightarrow> config \<Rightarrow> string \<Rightarrow> qlogger \<Rightarrow> exn + qlogger" where
  "log_at l p cfg fmtstr q =
     (case log_switch p cfg of
        Inl e \<Rightarrow> Inl e
      | Inr bLogVal \<Rightarrow> Inr (if bLogVal then call_quill (Log l fmtstr) q else q))"

definition trace_L3 :: "config \<Rightarrow> string \<Rightarrow> qlogger \<Rightarrow> exn + qlogger" where
  "trace_L3 = log_at Trace_L3 LOG_TRACE_L3"

definition trace_L2 :: "config \<Rightarrow> string \<Rightarrow> qlogger \<Rightarrow> exn + qlogger" where
  "trace_L2 = log_at Trace_L2 LOG_TRACE_L2"

definition trace_L1 :: "config \<Rightarrow> string \<Rightarrow> qlogger \<Rightarrow> exn + qlogger" where
  "trace_L1 = log_at Trace_L1 LOG_TRACE_L1"

definition debug :: "config \<Rightarrow> string \<Rightarrow> qlogger \<Rightarrow> exn + qlogger" where
  "debug = log_at Debug LOG_DEBUG"

definition info :: "config \<Rightarrow> string \<Rightarrow> qlogger \<Rightarrow> exn + qlogger" where
  "info = log_at Info LOG_INFO"

definition warning :: "config \<Rightarrow> string \<Rightarrow> qlogger \<Rightarrow> exn + qlogger" where
  "warning = log_at Warning LOG_WARNING"

definition error :: "config \<Rightarrow> string \<Rightarrow> qlogger \<Rightarrow> exn + qlogger" where
  "error = log_at Error LOG_ERROR"

definition critical :: "config \<Rightarrow> string \<Rightarrow> qlogger \<Rightarrow> exn + qlogger" where
  "critical = log_at Critical LOG_CRITICAL"

definition backtrace :: "config \<Rightarrow> string \<Rightarrow> qlogger \<Rightarrow> exn + qlogger" where
  "backtrace = log_at Backtrace LOG_BACKTRACE"

definition stopLogger :: "qlogger \<Rightarrow> qlogger" where
  "stopLogger q =
     (call_quill Backend_stop (call_quill Remove_logger (call_quill Flush_log q)))\<lparr>is_backend_closed := True\<rparr>"

lemmas level_defs = trace_L3_def trace_L2_def trace_L1_def debug_def info_def warning_def error_def
  critical_def backtrace_def

subsection \<open>Properties\<close>

lemma log_switch_total: "log_switch p cfg = Inr (get_config_value p cfg = Any_bool True)"
  by (cases "get_config_value p cfg") (simp_all add: log_switch_def)

lemma log_at_eq:
  "log_at l p cfg s q = Inr (if get_config_value p cfg = Any_bool True then call_quill (Log l s) q else q)"
  by (simp add: log_at_def log_switch_total)

lemma switch_off:
  assumes "config_reach j exists cfg" "kind_of p = Bool_kind"
  shows "get_config_value p cfg \<noteq> Any_bool True"
  using config_kinds [OF assms(1), of p] assms(2) by auto

text \<open>C21 (only_info_is_logged). On every configuration that reading files can produce, eight of the nine level methods
  do nothing at all, whatever the file says about their switches: only \<open>info\<close> can reach the log,
  and it does exactly when its switch was read as true. No level method throws.\<close>

theorem only_info_is_logged:
  assumes "config_reach j exists cfg"
  shows "trace_L3 cfg s q = Inr q \<and> trace_L2 cfg s q = Inr q \<and> trace_L1 cfg s q = Inr q \<and>
    debug cfg s q = Inr q \<and> warning cfg s q = Inr q \<and> error cfg s q = Inr q \<and>
    critical cfg s q = Inr q \<and> backtrace cfg s q = Inr q \<and>
    info cfg s q =
      Inr (if get_config_value LOG_INFO cfg = Any_bool True then call_quill (Log Info s) q else q)"
  using switch_off [OF assms] by (simp add: level_defs log_at_eq)

theorem only_info_is_logged_witness:
  "error sample_config ''disk full'' new_qlogger = Inr new_qlogger \<and>
   info sample_config ''hello'' new_qlogger = Inr (call_quill (Log Info ''hello'') new_qlogger)"
  using only_info_is_logged [OF sample_reach, of "''disk full''" new_qlogger]
    only_info_is_logged [OF sample_reach, of "''hello''" new_qlogger]
  by (simp add: sample_config_def get_config_value_def)

end
