(* ===== verification/Lua_Core.thy ===== *)
theory Lua_Core
  imports Config
begin

section \<open>The Lua engine's front end (\<open>whz_LUA_core.hpp\<close>, \<open>whz_LUA_core.cpp\<close>)\<close>

text \<open>
  The engine finds the start-up script, reads it and runs it, and steps the garbage collector. The
  interpreter (\<open>sol::state\<close>) is a parameter: \<open>lua_engine\<close> has the calls the code makes on
  it. The file system is given by \<open>exists\<close> and by the bytes an opened \<open>ifstream\<close> delivers. Log
  messages are left out.
\<close>

record 'l lua_engine =
  lua_open_libraries :: "'l \<Rightarrow> exn + 'l"
  lua_script :: "string \<Rightarrow> 'l \<Rightarrow> exn + 'l"
  lua_collect_garbage :: "'l \<Rightarrow> 'l"
  lua_step_gc :: "int \<Rightarrow> 'l \<Rightarrow> bool \<times> 'l"

record 'l lua_core =
  lua01 :: 'l
  startup_script_path :: string
  startup_script_content_str :: string

type_synonym lua_files = "(string \<Rightarrow> bool) \<times> (string \<Rightarrow> string option)"

definition init_LUA_path :: "lua_files \<Rightarrow> string \<Rightarrow> 'l lua_core \<Rightarrow> bool \<times> 'l lua_core" where
  "init_LUA_path files p l =
     (if \<not> fst files p then (False, l)
      else if path_extension p \<noteq> ''.lua'' then (False, l)
      else let l1 = l\<lparr>startup_script_path := p\<rparr>
           in case snd files p of
                None \<Rightarrow> (False, l1)
              | Some bytes \<Rightarrow> (True, l1\<lparr>startup_script_content_str := bytes\<rparr>))"

definition init_LUA_string :: "lua_files \<Rightarrow> string \<Rightarrow> 'l lua_core \<Rightarrow> bool \<times> 'l lua_core" where
  "init_LUA_string files s l =
     (let l1 = l\<lparr>startup_script_path := s\<rparr> in init_LUA_path files (startup_script_path l1) l1)"

definition get_LUA_startup_script_path :: "config \<Rightarrow> 'l lua_core \<Rightarrow> exn + bool \<times> 'l lua_core" where
  "get_LUA_startup_script_path cfg l =
     (if is_config_loaded cfg then
        (let lua_script_path = get_config_value LUA_START_SCRIPT_FILENAME cfg
         in if has_value lua_script_path then
              (case any_cast_string lua_script_path of
                 Inl e \<Rightarrow> Inl e | Inr s \<Rightarrow> Inr (True, l\<lparr>startup_script_path := s\<rparr>))
            else Inr (False, l))
      else Inr (False, l))"

definition init_LUA :: "config \<Rightarrow> lua_files \<Rightarrow> 'l lua_core \<Rightarrow> exn + bool \<times> 'l lua_core" where
  "init_LUA cfg files l =
     (case get_LUA_startup_script_path cfg l of
        Inl e \<Rightarrow> Inl e
      | Inr (_, l1) \<Rightarrow> Inr (init_LUA_path files (startup_script_path l1) l1))"

definition run_LUA_startup_script :: "'l lua_engine \<Rightarrow> 'l lua_core \<Rightarrow> bool \<times> 'l lua_core" where
  "run_LUA_startup_script e l =
     (if startup_script_path l = [] then (False, l)
      else (case lua_open_libraries e (lua01 l) of
              Inl _ \<Rightarrow> (False, l\<lparr>lua01 := lua_collect_garbage e (lua01 l)\<rparr>)
            | Inr s1 \<Rightarrow>
                (case lua_script e (startup_script_content_str l) s1 of
                   Inl _ \<Rightarrow> (False, l\<lparr>lua01 := lua_collect_garbage e s1\<rparr>)
                 | Inr s2 \<Rightarrow> (True, l\<lparr>lua01 := lua_collect_garbage e s2\<rparr>))))"

definition step_LUA_gc :: "'l lua_engine \<Rightarrow> config \<Rightarrow> 'l lua_core \<Rightarrow> exn + bool \<times> 'l lua_core" where
  "step_LUA_gc e cfg l =
     (if has_value (get_config_value LUA_GC_STEPSIZE cfg) then
        (case any_cast_int (get_config_value LUA_GC_STEPSIZE cfg) of
           Inl x \<Rightarrow> Inl x
         | Inr n \<Rightarrow> (let (b, s) = lua_step_gc e n (lua01 l) in Inr (b, l\<lparr>lua01 := s\<rparr>)))
      else let (b, s) = lua_step_gc e 100 (lua01 l) in Inr (b, l\<lparr>lua01 := s\<rparr>))"

subsection \<open>Properties\<close>

definition fresh_lua :: "nat lua_core" where
  "fresh_lua = \<lparr>lua01 = 0, startup_script_path = [], startup_script_content_str = []\<rparr>"

definition counting_engine :: "nat lua_engine" where
  "counting_engine =
     \<lparr>lua_open_libraries = Inr, lua_script = (\<lambda>s n. Inr (n + length s)), lua_collect_garbage = id,
      lua_step_gc = (\<lambda>k n. (True, n + nat k))\<rparr>"

text \<open>(lua_script_runs). A script given by name is loaded only when the file exists, is called \<open>*.lua\<close> and
  opens; running it then hands exactly the bytes of the file to the interpreter, succeeds exactly
  when the interpreter does, and ends with a garbage collection either way.\<close>

theorem lua_script_runs:
  assumes "init_LUA_string files s l = (True, l')" "lua_open_libraries e (lua01 l) = Inr s1"
  shows "\<exists>bytes. fst files s \<and> path_extension s = ''.lua'' \<and> snd files s = Some bytes \<and>
    run_LUA_startup_script e l' =
      (case lua_script e bytes s1 of
         Inl _ \<Rightarrow> (False, l'\<lparr>lua01 := lua_collect_garbage e s1\<rparr>)
       | Inr s2 \<Rightarrow> (True, l'\<lparr>lua01 := lua_collect_garbage e s2\<rparr>))"
proof -
  have l': "lua01 l' = lua01 l" "startup_script_path l' = s" "snd files s = Some (startup_script_content_str l')"
    "fst files s" "path_extension s = ''.lua''"
    using assms(1) by (auto simp: init_LUA_string_def init_LUA_path_def Let_def split: if_splits option.splits)
  have "s \<noteq> []" using l'(5) by (auto simp: path_extension_def file_name_def rfind_def rfind_upto.simps)
  then show ?thesis using l' assms(2) by (simp add: run_LUA_startup_script_def split: sum.split)
qed

theorem lua_script_runs_witness:
  "run_LUA_startup_script counting_engine
     \<lparr>lua01 = 0, startup_script_path = ''a.lua'', startup_script_content_str = ''x = 1''\<rparr> =
   (True, \<lparr>lua01 = 5, startup_script_path = ''a.lua'', startup_script_content_str = ''x = 1''\<rparr>)"
proof -
  have i: "init_LUA_string (\<lambda>p. p = ''a.lua'', [''a.lua'' \<mapsto> ''x = 1'']) ''a.lua'' fresh_lua =
      (True, \<lparr>lua01 = 0, startup_script_path = ''a.lua'', startup_script_content_str = ''x = 1''\<rparr>)"
    by (simp add: init_LUA_string_def init_LUA_path_def fresh_lua_def path_extension_def file_name_def
        rfind_def rfind_upto.simps)
  have "lua_open_libraries counting_engine (lua01 fresh_lua) = Inr 0"
    by (simp add: counting_engine_def fresh_lua_def)
  from lua_script_runs [OF i this] show ?thesis
    by (auto simp: counting_engine_def)
qed

text \<open>(lua_config_start_fails). The start-up script named in the configuration file is never started: on a fresh
  engine and a configuration that reading files can produce, \<open>init_LUA()\<close> throws \<open>bad_any_cast\<close>
  when the file names a script, and otherwise looks for a file with the empty name and fails.\<close>

theorem lua_config_start_fails:
  assumes "config_reach j exists cfg" "startup_script_path l = []" "\<not> fst files []"
  shows "init_LUA cfg files l =
    (if is_config_loaded cfg \<and> has_value (get_config_value LUA_START_SCRIPT_FILENAME cfg)
     then Inl Bad_any_cast else Inr (False, l))"
proof -
  have "any_cast_string (get_config_value LUA_START_SCRIPT_FILENAME cfg) = Inl Bad_any_cast"
    using config_kinds [OF assms(1), of LUA_START_SCRIPT_FILENAME]
    by (cases "get_config_value LUA_START_SCRIPT_FILENAME cfg") simp_all
  then show ?thesis
    using assms(2,3) by (simp add: init_LUA_def get_LUA_startup_script_path_def init_LUA_path_def)
qed

theorem lua_config_start_fails_witness:
  "init_LUA sample_config (\<lambda>p. p = ''main.lua'', [''main.lua'' \<mapsto> ''print(1)'']) fresh_lua = Inl Bad_any_cast"
  by (subst lua_config_start_fails [OF sample_reach])
     (simp_all add: fresh_lua_def sample_config_def is_config_loaded_def has_value_def get_config_value_def)

text \<open>(lua_gc_step). A garbage collection step works only when the configuration file gave no usable step size: a
  number in the file makes the step throw \<open>bad_any_cast\<close>, an unusable value means a step of
  1000000, and no value at all a step of 100.\<close>

theorem lua_gc_step:
  assumes "config_reach j exists cfg"
  shows "step_LUA_gc e cfg l =
    (case get_config_value LUA_GC_STEPSIZE cfg of
       Any_empty \<Rightarrow> Inr (map_prod id (\<lambda>s. l\<lparr>lua01 := s\<rparr>) (lua_step_gc e 100 (lua01 l)))
     | Any_result_uint64 n \<Rightarrow> Inl Bad_any_cast
     | _ \<Rightarrow> Inr (map_prod id (\<lambda>s. l\<lparr>lua01 := s\<rparr>) (lua_step_gc e 1000000 (lua01 l))))"
  using config_kinds [OF assms, of LUA_GC_STEPSIZE]
  by (cases "get_config_value LUA_GC_STEPSIZE cfg")
     (auto simp: step_LUA_gc_def has_value_def split: prod.split)

theorem lua_gc_step_witness:
  "step_LUA_gc counting_engine sample_config fresh_lua = Inl Bad_any_cast"
  by (subst lua_gc_step [OF sample_reach]) (simp add: sample_config_def get_config_value_def)

end
