(* ===== verification/Routing.thy ===== *)
theory Routing
  imports Prelude "HOL-Library.Multiset"
begin

section \<open>The routing table (\<open>http_routing.hpp\<close>, \<open>http_routing.cpp\<close>)\<close>

text \<open>
  The table maps the last part of a path to the path. It is an unordered multimap, whose order the
  library does not promise: a multiset of entries. The URL library is a parameter: \<open>parse_uri\<close> gives
  the path of a URI it accepts. Logging is left out.
\<close>

type_synonym path_list = "(string \<times> string) multiset"

record http_routing =
  basedomain :: string
  page_pathResources :: path_list


definition insert_path :: "string \<times> string \<Rightarrow> http_routing \<Rightarrow> http_routing" where
  "insert_path e r = r\<lparr>page_pathResources := add_mset e (page_pathResources r)\<rparr>"

text \<open>
  \<open>substr\<close> throws when the position is beyond the end; the positions here are at most the size,
  so the value is total. \<open>npos + 1\<close> wraps to 0.
\<close>

definition pos_after :: "nat option \<Rightarrow> nat" where
  "pos_after p = (case p of None \<Rightarrow> 0 | Some i \<Rightarrow> i + 1)"

definition addPathResource ::
  "(string \<Rightarrow> string option) \<Rightarrow> string \<Rightarrow> http_routing \<Rightarrow> (bool \<times> http_routing) option" where
  "addPathResource parse_uri path r =
     (case parse_uri path of
        None \<Rightarrow> Some (False, r)
      | Some sPath \<Rightarrow>
          (case rfind sPath (CHR ''/'') of
             None \<Rightarrow> Some (False, r)
           | Some pos \<Rightarrow>
               (if pos = length sPath - 1 then
                  (let spos = rfind_upto sPath (CHR ''/'') (length sPath - 1)
                   in case substr sPath (pos_after spos) pos of
                        None \<Rightarrow> None
                      | Some sPathname \<Rightarrow> Some (True, insert_path (sPathname, sPath) r))
                else
                  (case substr sPath (pos + 1) (length sPath) of
                     None \<Rightarrow> None
                   | Some sfilename \<Rightarrow> Some (True, insert_path (sfilename, sPath) r)))))"

text \<open>The overload for a file system path, whose \<open>string()\<close> is the text of the path.\<close>

definition addPathResource_path ::
  "(string \<Rightarrow> string option) \<Rightarrow> string \<Rightarrow> http_routing \<Rightarrow> (bool \<times> http_routing) option" where
  "addPathResource_path parse_uri path r = addPathResource parse_uri path r"




subsection \<open>What the table holds\<close>







subsection \<open>Properties\<close>



end
