(* ===== verification/Template_Cache.thy ===== *)
theory Template_Cache
  imports Framing "HOL-Library.Multiset"
begin

section \<open>The template cache (\<open>whz_templateCache.hpp\<close>, \<open>whz_templateCache.cpp\<close>)\<close>

text \<open>
  The cache holds the text of the \<open>.whzt\<close> files below a directory in an unordered multimap and can
  write them into a memory-mapped file. The library promises no order: the cache is a multiset, and an
  operation that iterates over it has the order as an argument, a list of its entries. The directory
  walk is given by the entries it reaches, with the bytes an \<open>ifstream\<close> on a regular file delivers, and
  by whether it ends with an exception of the file system. The memory mapping is an explicit byte
  array: a \<open>memcpy\<close> beyond its end would be undefined behaviour and is \<open>None\<close>. Of the system calls
  only success or failure is a parameter. Messages are left out.
\<close>

type_synonym templates = "(string \<times> string) multiset"

record dir_entry =
  de_path :: string
  de_regular :: bool
  de_content :: "string option"

record dir_walk =
  walk_entries :: "dir_entry list"
  walk_throws :: bool

record mmap_os =
  os_open :: bool
  os_ftruncate :: bool
  os_mmap :: bool

subsection \<open>Loading and looking up\<close>

fun load_entries :: "dir_entry list \<Rightarrow> templates \<Rightarrow> templates" where
  "load_entries [] ts = ts"
| "load_entries (e # es) ts =
     load_entries es
       (if de_regular e \<and> path_extension (de_path e) = ''.whzt'' then
          (case de_content e of Some text \<Rightarrow> add_mset (de_path e, text) ts | None \<Rightarrow> ts)
        else ts)"

text \<open>\<open>equal_range\<close> is a range of the entries with the key; its first element is returned.\<close>

definition getTemplate :: "(string \<times> string) list \<Rightarrow> string \<Rightarrow> string" where
  "getTemplate ts path = (case find (\<lambda>t. fst t = path) ts of Some t \<Rightarrow> snd t | None \<Rightarrow> [])"

subsection \<open>The memory-mapped file\<close>

definition memcpy :: "string \<Rightarrow> nat \<Rightarrow> string \<Rightarrow> string option" where
  "memcpy mem ptr bytes =
     (if ptr + length bytes \<le> length mem
      then Some (take ptr mem @ bytes @ drop (ptr + length bytes) mem) else None)"

text \<open>\<open>s.c_str()\<close> has \<open>s.size() + 1\<close> bytes.\<close>

definition with_nul :: "string \<Rightarrow> string" where
  "with_nul s = s @ [NUL]"

fun template_size :: "(string \<times> string) list \<Rightarrow> nat" where
  "template_size [] = 0"
| "template_size ((k, v) # ts) = length k + length v + 2 + template_size ts"

fun copy_templates :: "string \<Rightarrow> nat \<Rightarrow> (string \<times> string) list \<Rightarrow> string option" where
  "copy_templates mem ptr [] = Some mem"
| "copy_templates mem ptr ((k, v) # ts) =
     (case memcpy mem ptr (with_nul k) of
        None \<Rightarrow> None
      | Some mem1 \<Rightarrow>
          (let ptr1 = ptr + length k + 1
           in case memcpy mem1 ptr1 (with_nul v) of
                None \<Rightarrow> None
              | Some mem2 \<Rightarrow> copy_templates mem2 (ptr1 + length v + 1) ts))"

text \<open>\<open>ftruncate\<close> cuts the file or fills it up with zero bytes.\<close>

definition ftruncate :: "nat \<Rightarrow> string \<Rightarrow> string" where
  "ftruncate n s = take n s @ replicate (n - length s) NUL"

text \<open>The content of the target file afterwards (the inner option: it may not exist).\<close>

definition memoryMapTemplates :: "mmap_os \<Rightarrow> (string \<times> string) list \<Rightarrow> string option \<Rightarrow> string option option" where
  "memoryMapTemplates os ts old =
     (if \<not> os_open os then Some old
      else let file = (case old of None \<Rightarrow> [] | Some s \<Rightarrow> s);
               size = template_size ts
           in if \<not> os_ftruncate os then Some (Some file)
              else let map = ftruncate size file
                   in if \<not> os_mmap os then Some (Some map)
                      else map_option Some (copy_templates map 0 ts))"

text \<open>
  The whole of \<open>loadTemplates\<close>: how it ends (\<open>Returns True\<close> for a return), the cache and the default
  target file afterwards. \<open>iterate\<close> is the order the cache is iterated in.
\<close>

definition loadTemplates ::
  "mmap_os \<Rightarrow> (templates \<Rightarrow> (string \<times> string) list) \<Rightarrow> dir_walk \<Rightarrow> bool \<Rightarrow> templates \<Rightarrow> string option
     \<Rightarrow> (outcome \<times> templates \<times> string option) option" where
  "loadTemplates os iterate directory domemorymap ts old =
     (let ts1 = load_entries (walk_entries directory) ts
      in if walk_throws directory then Some (Filesystem_error, ts1, old)
         else if ts1 \<noteq> {#} \<and> domemorymap
         then map_option (\<lambda>f. (Returns True, ts1, f)) (memoryMapTemplates os (iterate ts1) old)
         else Some (Returns True, ts1, old))"

definition reloadTemplates ::
  "mmap_os \<Rightarrow> (templates \<Rightarrow> (string \<times> string) list) \<Rightarrow> dir_walk \<Rightarrow> templates \<Rightarrow> string option
     \<Rightarrow> (outcome \<times> templates \<times> string option) option" where
  "reloadTemplates os iterate directory ts old = loadTemplates os iterate directory False {#} old"

subsection \<open>The layout of the file\<close>

definition encode_template :: "string \<times> string \<Rightarrow> string" where
  "encode_template t = with_nul (fst t) @ with_nul (snd t)"

definition read_cstr :: "string \<Rightarrow> (string \<times> string) option" where
  "read_cstr s = (if NUL \<in> set s then Some (c_str s, drop (Suc (length (c_str s))) s) else None)"

definition decode_template :: "string \<Rightarrow> ((string \<times> string) \<times> string) option" where
  "decode_template s =
     (case read_cstr s of
        None \<Rightarrow> None
      | Some (k, s1) \<Rightarrow> (case read_cstr s1 of None \<Rightarrow> None | Some (v, s2) \<Rightarrow> Some ((k, v), s2)))"

definition template_ok :: "string \<times> string \<Rightarrow> bool" where
  "template_ok t \<longleftrightarrow> NUL \<notin> set (fst t) \<and> NUL \<notin> set (snd t)"

lemma read_cstr_with_nul: "NUL \<notin> set k \<Longrightarrow> read_cstr (with_nul k @ s) = Some (k, s)"
proof -
  assume "NUL \<notin> set k"
  then have "c_str k = k" by (auto simp: c_str_def takeWhile_eq_all_conv)
  then have "c_str (k @ NUL # s) = k" by (simp add: c_str_NUL)
  then show ?thesis by (simp add: read_cstr_def with_nul_def)
qed

interpretation template_wire: framed_codec encode_template decode_template "\<lambda>t. t" template_ok
proof
  fix t :: "string \<times> string" and rest
  show "template_ok t \<Longrightarrow> decode_template (encode_template t @ rest) = Some (t, rest)"
    by (cases t) (simp add: template_ok_def decode_template_def encode_template_def read_cstr_with_nul)
qed

lemma length_encode: "length (concat (map encode_template ts)) = template_size ts"
  by (induction ts rule: template_size.induct) (simp_all add: encode_template_def with_nul_def)

lemma memcpy_exact:
  "length a = ptr \<Longrightarrow> length bytes \<le> length b \<Longrightarrow>
   memcpy (a @ b) ptr bytes = Some ((a @ bytes) @ drop (length bytes) b)"
  by (auto simp: memcpy_def)

lemma copy_templates_exact:
  "length a = ptr \<Longrightarrow> length b = template_size ts \<Longrightarrow>
   copy_templates (a @ b) ptr ts = Some (a @ concat (map encode_template ts))"
proof (induction ts arbitrary: a b ptr rule: template_size.induct)
  case (2 k v ts)
  let ?a1 = "a @ with_nul k" and ?b1 = "drop (length (with_nul k)) b"
  let ?a2 = "?a1 @ with_nul v" and ?b2 = "drop (length (with_nul v)) ?b1"
  have l: "length (with_nul k) \<le> length b" "length (with_nul v) \<le> length ?b1"
    using "2.prems" by (simp_all add: with_nul_def)
  have m: "memcpy (a @ b) ptr (with_nul k) = Some (?a1 @ ?b1)"
    using "2.prems"(1) l(1) by (rule memcpy_exact)
  have n: "memcpy (?a1 @ ?b1) (ptr + length k + 1) (with_nul v) = Some (?a2 @ ?b2)"
    by (rule memcpy_exact) (use "2.prems"(1) l(2) in \<open>simp_all add: with_nul_def\<close>)
  have "copy_templates (?a2 @ ?b2) (ptr + length k + 1 + length v + 1) ts = Some (?a2 @ concat (map encode_template ts))"
    by (rule "2.IH") (use "2.prems" in \<open>simp_all add: with_nul_def\<close>)
  with m n show ?case by (simp add: encode_template_def [of "(k, v)"] Let_def)
qed simp

lemma length_ftruncate [simp]: "length (ftruncate n s) = n"
  by (simp add: ftruncate_def)

lemma memory_map_file:
  "os_open os \<Longrightarrow> os_ftruncate os \<Longrightarrow> os_mmap os \<Longrightarrow>
   memoryMapTemplates os ts old = Some (Some (concat (map encode_template ts)))"
  using copy_templates_exact [of "[]" 0 "ftruncate (template_size ts) s" ts for s]
  by (simp add: memoryMapTemplates_def Let_def)

lemma memory_map_total: "memoryMapTemplates os ts old \<noteq> None"
  using copy_templates_exact [of "[]" 0 "ftruncate (template_size ts) s" ts for s]
  by (simp add: memoryMapTemplates_def Let_def)

text \<open>The templates a walk finds.\<close>

definition found :: "dir_entry list \<Rightarrow> (string \<times> string) list" where
  "found es = List.map_filter (\<lambda>e. if de_regular e \<and> path_extension (de_path e) = ''.whzt''
     then map_option (\<lambda>text. (de_path e, text)) (de_content e) else None) es"

lemma load_entries_eq: "load_entries es ts = ts + mset (found es)"
  unfolding found_def by (induction es arbitrary: ts) (auto simp: map_filter_simps split: option.split)

lemma map_filter_member: "x \<in> set (List.map_filter f es) \<longleftrightarrow> (\<exists>e\<in>set es. f e = Some x)"
  by (induction es) (auto simp: map_filter_simps split: option.split)

lemma found_iff:
  "(p, t) \<in> set (found es) \<longleftrightarrow>
     path_extension p = ''.whzt'' \<and> (\<exists>e\<in>set es. de_path e = p \<and> de_regular e \<and> de_content e = Some t)"
  unfolding found_def map_filter_member by (auto split: if_splits)

lemma getTemplate_member: "getTemplate ts p = [] \<or> (p, getTemplate ts p) \<in> set ts"
proof (cases "find (\<lambda>t. fst t = p) ts")
  case (Some x)
  then have "x \<in> set ts" "fst x = p" by (auto simp: find_Some_iff in_set_conv_nth)
  with Some show ?thesis by (auto simp: getTemplate_def)
qed (simp add: getTemplate_def)

lemma getTemplate_unique:
  assumes "(p, t) \<in> set ts" "\<And>u. (p, u) \<in> set ts \<Longrightarrow> u = t"
  shows "getTemplate ts p = t"
proof (cases "find (\<lambda>t. fst t = p) ts")
  case None
  with assms(1) show ?thesis by (auto simp: find_None_iff)
next
  case (Some x)
  then have "x \<in> set ts" "fst x = p" by (auto simp: find_Some_iff in_set_conv_nth)
  with Some assms(2) [of "snd x"] show ?thesis by (auto simp: getTemplate_def)
qed

lemma getTemplate_absent: "(\<And>u. (p, u) \<notin> set ts) \<Longrightarrow> getTemplate ts p = []"
  using getTemplate_member [of ts p] by blast

subsection \<open>Properties\<close>

text \<open>C25 (template_file_roundtrip). The memory-mapped file is written without touching a byte outside the mapping,
  whatever the file held before and in whatever order the cache is iterated; when the system calls
  succeed and no template contains a NUL byte, reading the file back as pairs of C strings gives the
  cached templates and nothing more.\<close>

theorem template_file_roundtrip:
  assumes "os_open os" "os_ftruncate os" "os_mmap os" "\<not> walk_throws directory"
    and "load_entries (walk_entries directory) ts = cache" "cache \<noteq> {#}" "\<And>t. t \<in># cache \<Longrightarrow> template_ok t"
    and "mset (iterate cache) = cache"
  shows "\<exists>file us. loadTemplates os iterate directory True ts old = Some (Returns True, cache, Some file) \<and>
    length file = template_size us \<and> decode_n decode_template (size cache) file = Some (us, []) \<and> mset us = cache"
proof -
  have ok: "template_ok t" if "t \<in> set (iterate cache)" for t
    using that assms(7,8) by (metis set_mset_mset)
  have "length (iterate cache) = size cache" using assms(8) by (metis size_mset)
  then show ?thesis
    using memory_map_file [OF assms(1-3), of "iterate cache" old] length_encode [of "iterate cache"]
      template_wire.decode_n_concat [OF ok, of "iterate cache" "[]"] assms(4-6,8)
    by (simp add: loadTemplates_def)
qed

theorem template_file_roundtrip_witness:
  "\<exists>file us. loadTemplates \<lparr>os_open = True, os_ftruncate = True, os_mmap = True\<rparr>
       (\<lambda>c. [(''b.whzt'', []), (''a.whzt'', ''hello'')])
       \<lparr>walk_entries = [\<lparr>de_path = ''a.whzt'', de_regular = True, de_content = Some ''hello''\<rparr>,
                         \<lparr>de_path = ''b.whzt'', de_regular = True, de_content = Some []\<rparr>], walk_throws = False\<rparr>
       True {#} (Some ''stale content'') =
       Some (Returns True, {#(''a.whzt'', ''hello''), (''b.whzt'', [])#}, Some file) \<and>
     length file = template_size us \<and>
     decode_n decode_template (size {#(''a.whzt'', ''hello''), (''b.whzt'', [])#}) file = Some (us, []) \<and>
     mset us = {#(''a.whzt'', ''hello''), (''b.whzt'', [])#}"
  by (rule template_file_roundtrip)
     (auto simp: template_ok_def path_extension_def file_name_def rfind_def rfind_upto.simps)

text \<open>(template_load_total). Loading never writes outside the mapping, and the cache afterwards is the old one with
  the readable \<open>.whzt\<close> files the walk reached; so loading twice keeps the old text of a changed template
  beside the new one, while reloading starts from nothing. When the walk throws, as for a directory
  that is missing, a reload has lost the cache.\<close>

theorem template_load_total:
  "\<exists>f. loadTemplates os iterate d b ts old =
     Some (if walk_throws d then Filesystem_error else Returns True, ts + mset (found (walk_entries d)), f) \<and>
   reloadTemplates os iterate d ts old =
     Some (if walk_throws d then Filesystem_error else Returns True, mset (found (walk_entries d)), old)"
  using memory_map_total [of os "iterate (load_entries (walk_entries d) ts)" old]
  by (auto simp: loadTemplates_def reloadTemplates_def load_entries_eq Let_def)

text \<open>(template_lookup). When the paths of the directory are distinct, a lookup after loading an empty cache gives
  the text of the file for every readable \<open>.whzt\<close> file, and the empty string for other paths, whatever
  the order of the cache.\<close>

theorem template_lookup:
  assumes "distinct (map de_path es)" "mset us = load_entries es {#}"
  shows "getTemplate us p =
    (case find (\<lambda>e. de_path e = p) es of
       None \<Rightarrow> []
     | Some e \<Rightarrow> (if de_regular e \<and> path_extension p = ''.whzt'' then (case de_content e of None \<Rightarrow> [] | Some t \<Rightarrow> t) else []))"
proof -
  have us: "set us = set (found es)" using assms(2) by (metis add_0 load_entries_eq set_mset_mset)
  show ?thesis
  proof (cases "find (\<lambda>e. de_path e = p) es")
    case None
    then have "(p, u) \<notin> set us" for u unfolding us found_iff by (auto simp: find_None_iff)
    with None show ?thesis by (simp add: getTemplate_absent)
  next
    case (Some e)
    then have e: "e \<in> set es" "de_path e = p" by (auto simp: find_Some_iff in_set_conv_nth)
    have only: "d = e" if "d \<in> set es" "de_path d = p" for d
      using assms(1) e that by (auto simp: distinct_map dest: inj_onD)
    have "(p, u) \<in> set us \<longleftrightarrow> path_extension p = ''.whzt'' \<and> de_regular e \<and> de_content e = Some u" for u
      unfolding us found_iff using e only by blast
    moreover have "getTemplate us p = []" if "\<And>u. (p, u) \<notin> set us"
      using that by (rule getTemplate_absent)
    moreover have "getTemplate us p = t" if "(p, t) \<in> set us" "\<And>u. (p, u) \<in> set us \<Longrightarrow> u = t" for t
      using that by (rule getTemplate_unique)
    ultimately show ?thesis unfolding Some by (simp split: option.split)
  qed
qed

theorem template_lookup_witness:
  "getTemplate [(''t/a.whzt'', ''A'')] ''t/a.whzt'' = ''A''"
  by (subst template_lookup [of "[\<lparr>de_path = ''t/a.whzt'', de_regular = True, de_content = Some ''A''\<rparr>,
      \<lparr>de_path = ''t/b.html'', de_regular = True, de_content = Some ''B''\<rparr>]"])
     (simp_all add: path_extension_def file_name_def rfind_def rfind_upto.simps)

end
