(* ===== verification/Resources.thy ===== *)
theory Resources
  imports Qlogger
begin

section \<open>Resource files (\<open>whz_resources.hpp\<close>, \<open>whz_resources.cpp\<close>)\<close>

text \<open>
  A resource object loads a file into a string and, for images, also into a byte buffer on the heap.
  The heap is the list of the buffers allocated so far, \<open>None\<close> for one that was freed, and a pointer is
  an index into it; freeing a buffer twice is undefined behaviour (\<open>None\<close>). The bytes of a new buffer
  are indeterminate until they are read. The file system is a parameter. Messages go to the logger of
  the object, which asks the configuration whether to log them. The constructor of the class is declared but defined nowhere; the
  theorems start from an object with a null pointer.
\<close>

subsection \<open>The state\<close>

datatype resource_type = CSS | HTML | WHZT | JS | IMAGE_PNG | IMAGE_JPG | UNKNOWN

text \<open>The configuration is the singleton, as the object finds it when it logs.\<close>

type_synonym buffer = "char option list"

record resources =
  resourceFileExists :: bool
  resourceContentStr :: string
  resourcePath :: string
  resourceType :: resource_type
  resourceContentByte :: "nat option"
  buffers :: "buffer option list"
  res_config :: config
  res_logger :: qlogger

text \<open>
  What the file system says about a path, and what opening it for reading gives: the size of the file
  and the bytes that reading delivers, fewer than the size when the read fails half-way.
\<close>

record filesystem =
  status_of :: "string \<Rightarrow> file_status"
  open_read :: "string \<Rightarrow> (nat \<times> string) option"

definition delete_buffer :: "nat option \<Rightarrow> buffer option list \<Rightarrow> buffer option list option" where
  "delete_buffer ptr h =
     (case ptr of
        None \<Rightarrow> Some h
      | Some a \<Rightarrow> (if a < length h \<and> h ! a \<noteq> None then Some (h[a := None]) else None))"

subsection \<open>Operations\<close>

definition type_of_extension :: "string \<Rightarrow> resource_type" where
  "type_of_extension fpath =
     (let ext = path_extension fpath
      in if ext = ''.css'' then CSS
         else if ext = ''.html'' \<or> ext = ''.htm'' then HTML
         else if ext = ''.whzt'' then WHZT
         else if ext = ''.js'' then JS
         else if ext = ''.png'' then IMAGE_PNG
         else if ext = ''.jpg'' \<or> ext = ''.jpeg'' then IMAGE_JPG
         else UNKNOWN)"

text \<open>\<open>_qlogger.error\<close>; it never throws (\<open>log_switch_total\<close>).\<close>

definition log_error :: "string \<Rightarrow> resources \<Rightarrow> resources" where
  "log_error msg r =
     (case error (res_config r) msg (res_logger r) of Inl e \<Rightarrow> r | Inr q \<Rightarrow> r\<lparr>res_logger := q\<rparr>)"

text \<open>\<open>None\<close>: the test for the file throws.\<close>

definition checkResourceFileExists :: "filesystem \<Rightarrow> string \<Rightarrow> resources \<Rightarrow> (bool \<times> resources) option" where
  "checkResourceFileExists fs fpath r =
     (case status_of fs fpath of
        Stat_error \<Rightarrow> None
      | Missing \<Rightarrow> Some (False, r)
      | st \<Rightarrow>
          (let bRet = (st = Regular);
               r1 = (if bRet then r\<lparr>resourceFileExists := True, resourcePath := fpath\<rparr>
                     else r\<lparr>resourceFileExists := False, resourcePath := [], resourceType := UNKNOWN\<rparr>);
               r2 = r1\<lparr>resourceType := type_of_extension fpath\<rparr>
           in Some (bRet,
                if type_of_extension fpath = UNKNOWN
                then log_error (''Failed to open the file '' @ fpath @ '', file extension is unknown/unsupported.'') r2
                else r2)))"

definition is_image :: "resource_type \<Rightarrow> bool" where
  "is_image t \<longleftrightarrow> t = IMAGE_PNG \<or> t = IMAGE_JPG"

text \<open>
  The first read of an opened file: into a new buffer, whose address overwrites the pointer, or into the
  string, which is filled with zeros before.
\<close>

definition first_read :: "nat \<times> string \<Rightarrow> resources \<Rightarrow> resources" where
  "first_read f r =
     (case f of (fsize, delivered) \<Rightarrow>
        if is_image (resourceType r)
        then r\<lparr>resourceContentByte := Some (length (buffers r)),
               buffers := buffers r @ [Some (take fsize (map Some delivered @ replicate fsize None))]\<rparr>
        else r\<lparr>resourceContentStr := take fsize (delivered @ replicate fsize NUL)\<rparr>)"

text \<open>
  The second read repeats the first into the string. When the first one fell short the stream is in a
  failed state, \<open>tellg\<close> gives -1 and the resizing of the string to that throws.
\<close>

definition second_read :: "nat \<times> string \<Rightarrow> resources \<Rightarrow> outcome \<times> resources" where
  "second_read f r =
     (case f of (fsize, delivered) \<Rightarrow>
        if length delivered < fsize then (Length_error, r)
        else (Returns True, r\<lparr>resourceContentStr := take fsize delivered\<rparr>))"

definition loadResource :: "filesystem \<Rightarrow> string \<Rightarrow> resources \<Rightarrow> outcome \<times> resources" where
  "loadResource fs sfilepath r =
     (let r0 = r\<lparr>resourcePath := sfilepath\<rparr>
      in case checkResourceFileExists fs sfilepath r0 of
           None \<Rightarrow> (Filesystem_error, r0)
         | Some (False, r1) \<Rightarrow> (Returns False, r1)
         | Some (True, r1) \<Rightarrow>
             (case open_read fs sfilepath of
                None \<Rightarrow> (Returns False, log_error (''Failed to open the file '' @ sfilepath) r1)
              | Some f \<Rightarrow> second_read f (first_read f r1)))"

definition unloadResource :: "resources \<Rightarrow> (bool \<times> resources) option" where
  "unloadResource r =
     map_option (\<lambda>h. (True, r\<lparr>resourcePath := [], buffers := h, resourceContentByte := None,
         resourceContentStr := [], resourceFileExists := False, resourceType := UNKNOWN\<rparr>))
       (delete_buffer (resourceContentByte r) (buffers r))"

text \<open>The destructor: what is left of the heap.\<close>

definition destroy_resources :: "resources \<Rightarrow> buffer option list option" where
  "destroy_resources r = delete_buffer (resourceContentByte r) (buffers r)"

text \<open>The queries. \<open>None\<close> in \<open>getResourceSize\<close> is the exception of the library.\<close>

definition resourceExists :: "resources \<Rightarrow> bool" where
  "resourceExists r = resourceFileExists r"

definition resourceisFile :: "filesystem \<Rightarrow> resources \<Rightarrow> bool option" where
  "resourceisFile fs r =
     (case status_of fs (resourcePath r) of Stat_error \<Rightarrow> None | st \<Rightarrow> Some (st = Regular))"

definition resourceisDir :: "filesystem \<Rightarrow> resources \<Rightarrow> bool option" where
  "resourceisDir fs r =
     (case status_of fs (resourcePath r) of Stat_error \<Rightarrow> None | st \<Rightarrow> Some (st = Directory))"

definition getResourceType :: "resources \<Rightarrow> resource_type option" where
  "getResourceType r = Some (resourceType r)"

definition getResourcePathFilename :: "resources \<Rightarrow> string option" where
  "getResourcePathFilename r = Some (file_name (resourcePath r))"

definition getResourcePathDirname :: "resources \<Rightarrow> string option" where
  "getResourcePathDirname r = Some (if starts_with (resourcePath r) ''/'' then ''/'' else [])"

definition getResourcePathFullpath :: "resources \<Rightarrow> string option" where
  "getResourcePathFullpath r = Some (resourcePath r)"

definition getResourceSize :: "(string \<Rightarrow> nat option) \<Rightarrow> resources \<Rightarrow> nat option" where
  "getResourceSize file_size r = file_size (resourcePath r)"

definition getAvailableSystemSpace :: "(string \<Rightarrow> nat option) \<Rightarrow> resources \<Rightarrow> nat option" where
  "getAvailableSystemSpace available r = available (resourcePath r)"

definition getResourceContentStr :: "resources \<Rightarrow> string option" where
  "getResourceContentStr r = Some (resourceContentStr r)"

definition getResourceContentBytes :: "resources \<Rightarrow> nat option option" where
  "getResourceContentBytes r = Some (resourceContentByte r)"

subsection \<open>The buffers of an object\<close>

datatype resource_op = Load filesystem string | Unload

fun apply_op :: "resource_op \<Rightarrow> resources \<Rightarrow> resources option" where
  "apply_op (Load fs p) r = Some (snd (loadResource fs p r))"
| "apply_op Unload r = map_option snd (unloadResource r)"

definition live :: "buffer option list \<Rightarrow> nat" where
  "live h = length (filter (\<lambda>b. b \<noteq> None) h)"

definition holds :: "resources \<Rightarrow> nat" where
  "holds r = (case resourceContentByte r of None \<Rightarrow> 0 | Some _ \<Rightarrow> 1)"

definition valid_ptr :: "resources \<Rightarrow> bool" where
  "valid_ptr r \<longleftrightarrow> (case resourceContentByte r of None \<Rightarrow> True | Some a \<Rightarrow> a < length (buffers r) \<and> buffers r ! a \<noteq> None)"

text \<open>A load that allocates a buffer, and the number of buffers whose only pointer a history overwrites.\<close>

definition allocates :: "filesystem \<Rightarrow> string \<Rightarrow> bool" where
  "allocates fs p \<longleftrightarrow> status_of fs p = Regular \<and> open_read fs p \<noteq> None \<and> is_image (type_of_extension p)"

fun lost_buffers :: "nat \<Rightarrow> resource_op list \<Rightarrow> nat" where
  "lost_buffers held [] = 0"
| "lost_buffers held (Unload # ops) = lost_buffers 0 ops"
| "lost_buffers held (Load fs p # ops) = (if allocates fs p then held + lost_buffers 1 ops else lost_buffers held ops)"

abbreviation errors_on :: "resources \<Rightarrow> bool" where
  "errors_on r \<equiv> get_config_value LOG_ERROR (res_config r) = Any_bool True"

lemma log_error_eq:
  "log_error msg r = (if errors_on r then r\<lparr>res_logger := call_quill (Log Error msg) (res_logger r)\<rparr> else r)"
  by (simp add: log_error_def error_def log_at_eq)

lemma delete_buffer_valid:
  assumes "valid_ptr r"
  obtains h where "delete_buffer (resourceContentByte r) (buffers r) = Some h" "live h + holds r = live (buffers r)"
proof (cases "resourceContentByte r")
  case None
  then show ?thesis using that by (simp add: delete_buffer_def holds_def)
next
  case (Some a)
  with assms have a: "a < length (buffers r)" "buffers r ! a \<noteq> None" by (simp_all add: valid_ptr_def)
  have split: "buffers r = take a (buffers r) @ buffers r ! a # drop (Suc a) (buffers r)" by (rule id_take_nth_drop) fact
  have "live ((buffers r)[a := None]) + 1 = live (buffers r)"
    proof -
    have "live (buffers r) = live (take a (buffers r) @ buffers r ! a # drop (Suc a) (buffers r))"
      by (rule arg_cong [OF split])
    then show ?thesis unfolding upd_conv_take_nth_drop [OF a(1)] using a(2) by (simp add: live_def)
  qed
  then show ?thesis using that Some a by (simp add: delete_buffer_def holds_def)
qed

lemma check_buffers:
  "checkResourceFileExists fs p r = Some (ok, r') \<Longrightarrow>
   buffers r' = buffers r \<and> resourceContentByte r' = resourceContentByte r \<and> (ok \<longleftrightarrow> status_of fs p = Regular) \<and>
   (ok \<longrightarrow> resourceType r' = type_of_extension p)"
  by (auto simp: checkResourceFileExists_def Let_def log_error_eq split: file_status.splits if_splits)

lemma load_buffers:
  "buffers (snd (loadResource fs p r)) = buffers r \<and> resourceContentByte (snd (loadResource fs p r)) = resourceContentByte r
   \<and> \<not> allocates fs p \<or>
   (\<exists>b. buffers (snd (loadResource fs p r)) = buffers r @ [Some b]) \<and>
   resourceContentByte (snd (loadResource fs p r)) = Some (length (buffers r)) \<and> allocates fs p"
proof (cases "checkResourceFileExists fs p (r\<lparr>resourcePath := p\<rparr>)")
  case None
  then show ?thesis
    by (auto simp: loadResource_def allocates_def checkResourceFileExists_def Let_def split: file_status.splits)
next
  case (Some x)
  then obtain ok r1 where x: "checkResourceFileExists fs p (r\<lparr>resourcePath := p\<rparr>) = Some (ok, r1)" by (cases x) auto
  from check_buffers [OF this] show ?thesis
    by (cases ok; cases "open_read fs p")
       (auto simp: loadResource_def x allocates_def log_error_eq first_read_def second_read_def Let_def split: prod.split)
qed

lemma live_snoc: "live (h @ [Some b]) = live h + 1"
  by (simp add: live_def)

lemma run_ops:
  "valid_ptr r \<Longrightarrow> \<exists>r' h. fold_opt apply_op ops r = Some r' \<and> destroy_resources r' = Some h \<and>
     live h + holds r = live (buffers r) + lost_buffers (holds r) ops"
proof (induction ops arbitrary: r)
  case Nil
  then show ?case by (auto simp: destroy_resources_def elim: delete_buffer_valid)
next
  case (Cons op ops)
  show ?case
  proof (cases op)
    case Unload
    from Cons.prems obtain h where h: "delete_buffer (resourceContentByte r) (buffers r) = Some h"
        "live h + holds r = live (buffers r)" by (rule delete_buffer_valid)
    let ?r = "r\<lparr>resourcePath := [], buffers := h, resourceContentByte := None, resourceContentStr := [],
        resourceFileExists := False, resourceType := UNKNOWN\<rparr>"
    have "apply_op op r = Some ?r" using Unload h by (simp add: unloadResource_def)
    moreover have "valid_ptr ?r" "holds ?r = 0" by (simp_all add: valid_ptr_def holds_def)
    ultimately show ?thesis using Cons.IH [of ?r] Unload h(2) by auto
  next
    case (Load fs p)
    let ?r = "snd (loadResource fs p r)"
    have valid: "valid_ptr ?r" using load_buffers [of fs p r] Cons.prems
      by (auto simp: valid_ptr_def split: option.splits)
    have "live (buffers ?r) + lost_buffers (holds ?r) ops + holds r =
        live (buffers r) + lost_buffers (holds r) (op # ops) + holds ?r"
      using load_buffers [of fs p r] Load by (auto simp: holds_def live_snoc)
    then show ?thesis using Cons.IH [OF valid] Load by auto
  qed
qed

subsection \<open>Properties\<close>

text \<open>(load_result). Loading a readable regular file stores its path, its type and its bytes, as a string and for
  an image also in a fresh buffer, and returns true; a missing file, one that is not regular and one
  that cannot be opened give false, a failing read or test an exception.\<close>

definition extension_checked :: "string \<Rightarrow> resources \<Rightarrow> resources" where
  "extension_checked p r =
     (if type_of_extension p = UNKNOWN
      then log_error (''Failed to open the file '' @ p @ '', file extension is unknown/unsupported.'') r else r)"

theorem load_result:
  "loadResource fs p r =
     (case status_of fs p of
        Stat_error \<Rightarrow> (Filesystem_error, r\<lparr>resourcePath := p\<rparr>)
      | Missing \<Rightarrow> (Returns False, r\<lparr>resourcePath := p\<rparr>)
      | Regular \<Rightarrow>
          (let known = extension_checked p
                 (r\<lparr>resourceFileExists := True, resourcePath := p, resourceType := type_of_extension p\<rparr>)
           in case open_read fs p of
                None \<Rightarrow> (Returns False, log_error (''Failed to open the file '' @ p) known)
              | Some (fsize, bytes) \<Rightarrow>
                  (if length bytes < fsize then (Length_error, first_read (fsize, bytes) known)
                   else (Returns True,
                     (if is_image (type_of_extension p)
                      then known\<lparr>resourceContentByte := Some (length (buffers r)),
                                 buffers := buffers r @ [Some (map Some (take fsize bytes))]\<rparr>
                      else known)\<lparr>resourceContentStr := take fsize bytes\<rparr>)))
      | _ \<Rightarrow>
          (Returns False, extension_checked p
             (r\<lparr>resourceFileExists := False, resourcePath := [], resourceType := type_of_extension p\<rparr>)))"
  by (auto simp: loadResource_def checkResourceFileExists_def extension_checked_def log_error_eq Let_def first_read_def
      second_read_def take_map split: file_status.split option.split)

text \<open>C30 (buffers_accounted). Whatever is loaded and unloaded, no buffer is freed twice; and the buffers still on
  the heap after the destructor are exactly those whose pointer was overwritten by loading another image
  without unloading in between.\<close>

theorem buffers_accounted:
  assumes "resourceContentByte r = None" "buffers r = []"
  shows "\<exists>r' h. fold_opt apply_op ops r = Some r' \<and> destroy_resources r' = Some h \<and> live h = lost_buffers 0 ops"
  using run_ops [of r ops] assms by (auto simp: valid_ptr_def holds_def live_def)

definition one_image :: filesystem where
  "one_image = \<lparr>status_of = \<lambda>p. if p = ''logo.png'' then Regular else Missing,
     open_read = \<lambda>p. if p = ''logo.png'' then Some (3, ''PNG'') else None\<rparr>"

definition null_resources :: resources where
  "null_resources = \<lparr>resourceFileExists = False, resourceContentStr = [], resourcePath = [], resourceType = UNKNOWN,
     resourceContentByte = None, buffers = [], res_config = sample_config, res_logger = new_qlogger\<rparr>"

theorem buffers_accounted_witness:
  "lost_buffers 0 [Load one_image ''logo.png'', Load one_image ''logo.png'', Unload] = 1 \<and>
   (\<exists>r' h. fold_opt apply_op [Load one_image ''logo.png'', Load one_image ''logo.png'', Unload] null_resources = Some r' \<and>
      destroy_resources r' = Some h \<and>
      live h = lost_buffers 0 [Load one_image ''logo.png'', Load one_image ''logo.png'', Unload])"
proof
  show "lost_buffers 0 [Load one_image ''logo.png'', Load one_image ''logo.png'', Unload] = 1"
    by code_simp
  show "\<exists>r' h. fold_opt apply_op [Load one_image ''logo.png'', Load one_image ''logo.png'', Unload] null_resources = Some r' \<and>
      destroy_resources r' = Some h \<and>
      live h = lost_buffers 0 [Load one_image ''logo.png'', Load one_image ''logo.png'', Unload]"
    by (rule buffers_accounted) (simp_all add: null_resources_def)
qed

text \<open>(missing_keeps_old). After a failed load of a missing file the object still answers that its resource
  exists and gives the content and the type of the one loaded before, under the new path.\<close>

theorem missing_keeps_old:
  assumes "status_of fs p = Missing"
  shows "loadResource fs p r = (Returns False, r\<lparr>resourcePath := p\<rparr>)"
    and "resourceExists (snd (loadResource fs p r)) = resourceExists r"
    and "getResourceContentStr (snd (loadResource fs p r)) = getResourceContentStr r"
    and "getResourceType (snd (loadResource fs p r)) = getResourceType r"
    and "getResourcePathFullpath (snd (loadResource fs p r)) = Some p"
  using assms
  by (simp_all add: loadResource_def checkResourceFileExists_def resourceExists_def getResourceContentStr_def
      getResourceType_def getResourcePathFullpath_def Let_def)

theorem missing_keeps_old_witness:
  "let r = snd (loadResource one_image ''logo.png'' null_resources)
   in resourceExists r \<and> resourceExists (snd (loadResource one_image ''gone.css'' r))"
  using missing_keeps_old(2) [of one_image "''gone.css''" "snd (loadResource one_image ''logo.png'' null_resources)"]
  unfolding Let_def by (simp add: one_image_def) code_simp

end
