(* ===== verification/Old_Resources.thy ===== *)
theory Old_Resources
  imports Resources
begin

section \<open>The first resource class (\<open>Resources.hpp\<close>, \<open>Resources.cpp\<close>, \<open>ResourceType.hpp\<close>)\<close>

text \<open>
  The class in the namespace \<open>WHZ\<close> that \<open>whz::resources\<close> replaced, operation by operation. Files, heap
  and pointers are modelled as there. It hands each message to a stream logger, a macro that the
  repository no longer defines (\<open>o_log\<close>: what it was handed), and prints it on the standard output as
  well (\<open>o_console\<close>: what was printed); a stream puts paths in quotes. The new class only calls its
  logger. The theorem says what the replacement kept and what it lost.
\<close>

subsection \<open>The state\<close>

datatype old_resource_type = Old_CSS | Old_HTML | Old_WHZT | Old_JS | Old_IMAGE_PNG | Old_IMAGE_JPG | Old_UNKNOWN




subsection \<open>Operations\<close>
















subsection \<open>The replacement\<close>

text \<open>
  The state of the new class that corresponds to one of the old, up to what they have said.
\<close>

fun new_type :: "old_resource_type \<Rightarrow> resource_type" where
  "new_type Old_CSS = CSS"
| "new_type Old_HTML = HTML"
| "new_type Old_WHZT = WHZT"
| "new_type Old_JS = JS"
| "new_type Old_IMAGE_PNG = IMAGE_PNG"
| "new_type Old_IMAGE_JPG = IMAGE_JPG"
| "new_type Old_UNKNOWN = UNKNOWN"


lemma new_type_iff [simp]:
  "new_type t = IMAGE_PNG \<longleftrightarrow> t = Old_IMAGE_PNG" "new_type t = IMAGE_JPG \<longleftrightarrow> t = Old_IMAGE_JPG"
  by (cases t; simp)+








subsection \<open>What they say\<close>




















subsection \<open>Properties\<close>




end
