(* ===== verification/Localization.thy ===== *)
theory Localization
  imports Prelude
begin

section \<open>Localization (\<open>LocalizationManager.hpp\<close>)\<close>

text \<open>
  The manager keeps a map from languages to locales and sets the global locale of the process. A
  locale is what the generator of the library makes of a directory, a domain and a language;
  translation and the conversions between encodings are parameters, the latter with the number of
  bytes they report.
\<close>

type_synonym locale_value = "string \<times> string \<times> string"

record localization =
  locales :: "string \<Rightarrow> locale_value option"
  global_locale :: "locale_value option"

definition new_localization :: localization where
  "new_localization = \<lparr>locales = Map.empty, global_locale = None\<rparr>"

text \<open>\<open>emplace\<close> keeps the entry there is.\<close>

definition addLocale :: "string \<Rightarrow> string \<Rightarrow> string \<Rightarrow> localization \<Rightarrow> localization" where
  "addLocale localeDir domain language m =
     (if locales m language = None
      then m\<lparr>locales := (locales m)(language := Some (localeDir, domain, language))\<rparr> else m)"

definition switchLocale :: "string \<Rightarrow> localization \<Rightarrow> localization" where
  "switchLocale language m =
     (case locales m language of None \<Rightarrow> m | Some l \<Rightarrow> m\<lparr>global_locale := Some l\<rparr>)"

definition translate :: "(locale_value option \<Rightarrow> string \<Rightarrow> string) \<Rightarrow> string \<Rightarrow> localization \<Rightarrow> string" where
  "translate lookup msg m = lookup (global_locale m) msg"

text \<open>
  The library fills a buffer of the given size and reports how much it wrote; the rest is cut off. It
  is undefined behaviour (\<open>None\<close>) when it writes more than the buffer holds.
\<close>

definition convert :: "(string \<Rightarrow> string) \<Rightarrow> nat \<Rightarrow> string \<Rightarrow> string option" where
  "convert conversion room s =
     (if length (conversion s) \<le> room then Some (take (length (conversion s)) (conversion s @ replicate room NUL)) else None)"

definition toLatin1 :: "(string \<Rightarrow> string) \<Rightarrow> string \<Rightarrow> string option" where
  "toLatin1 utf8_to_latin1 utf8Str = convert utf8_to_latin1 (length utf8Str) utf8Str"

definition toUtf8 :: "(string \<Rightarrow> string) \<Rightarrow> string \<Rightarrow> string option" where
  "toUtf8 latin1_to_utf8 latin1Str = convert latin1_to_utf8 (length latin1Str * 2) latin1Str"

definition isValidUtf8 :: "(string \<Rightarrow> bool) \<Rightarrow> string \<Rightarrow> bool" where
  "isValidUtf8 validate str = validate str"

datatype locale_call = Add_locale string string string | Switch_locale string

fun run_locale_call :: "locale_call \<Rightarrow> localization \<Rightarrow> localization" where
  "run_locale_call (Add_locale dir domain language) m = addLocale dir domain language m"
| "run_locale_call (Switch_locale language) m = switchLocale language m"

text \<open>The first locale a history adds for a language, and the one its last effective switch selects.\<close>

fun first_added :: "locale_call list \<Rightarrow> string \<Rightarrow> locale_value option" where
  "first_added [] l = None"
| "first_added (Add_locale dir domain language # cs) l =
     (if language = l then Some (dir, domain, language) else first_added cs l)"
| "first_added (Switch_locale language # cs) l = first_added cs l"

lemma first_added_snoc:
  "first_added (cs @ [c]) l = (case first_added cs l of None \<Rightarrow> first_added [c] l | Some x \<Rightarrow> Some x)"
  by (induction cs l rule: first_added.induct) auto

lemma locales_fold: "locales (fold run_locale_call cs new_localization) l = first_added cs l"
proof (induction cs rule: rev_induct)
  case (snoc c cs)
  then show ?case
    by (cases c) (auto simp: first_added_snoc addLocale_def switchLocale_def split: option.split)
qed (simp add: new_localization_def)

subsection \<open>Properties\<close>

text \<open>(locale_first_wins). Whatever calls were made, a language denotes the locale that was first added for it: adding
  it again changes nothing, and switching selects that first locale, or nothing when there is none.\<close>

theorem locale_first_wins:
  "locales (fold run_locale_call cs new_localization) l = first_added cs l \<and>
   global_locale (switchLocale l (fold run_locale_call cs new_localization)) =
     (case first_added cs l of None \<Rightarrow> global_locale (fold run_locale_call cs new_localization) | Some x \<Rightarrow> Some x)"
  by (simp add: locales_fold switchLocale_def split: option.split)

end
