(* ===== verification/Encryption.thy ===== *)
theory Encryption
  imports Prelude
begin

section \<open>Encryption, passwords and tokens (\<open>whz_encryption.hpp\<close>, \<open>whz_encryption.cpp\<close>)\<close>

text \<open>
  Libsodium is a parameter: a record of its functions and of the sizes it defines. A function that
  draws random numbers has the number of the draw as an argument. A function that reports its success
  gives the flag and the contents of the buffer it was to fill. Keys, messages and files are byte
  strings. A key shorter than the library reads is undefined behaviour (\<open>None\<close>). What the code
  prints on errors is collected in \<open>messages\<close>; all but the first of these texts also go to the logger,
  which is left out here.
\<close>

subsection \<open>The library and the files\<close>

record sodium =
  sodium_init :: int
  public_bytes :: nat
  secret_bytes :: nat
  seal_bytes :: nat
  sign_public_bytes :: nat
  sign_secret_bytes :: nat
  box_keypair :: "nat \<Rightarrow> (string \<times> string) option"
  random_buf :: "nat \<Rightarrow> nat \<Rightarrow> string"
  box_seal :: "nat \<Rightarrow> string \<Rightarrow> string \<Rightarrow> bool \<times> string"
  box_seal_open :: "string \<Rightarrow> string \<Rightarrow> string \<Rightarrow> string option"
  pwhash_str :: "nat \<Rightarrow> string \<Rightarrow> bool \<times> string"
  pwhash_str_verify :: "string \<Rightarrow> string \<Rightarrow> bool"
  sign_message :: "string \<Rightarrow> string \<Rightarrow> string"
  sign_open :: "string \<Rightarrow> string \<Rightarrow> bool \<times> nat option \<times> string"

record world =
  files :: "string \<Rightarrow> string option"
  can_write :: "string \<Rightarrow> bool"
  draws :: nat
  messages :: "string list"

definition complain :: "string \<Rightarrow> world \<Rightarrow> world" where
  "complain msg w = w\<lparr>messages := messages w @ [msg]\<rparr>"

definition drawn :: "world \<Rightarrow> world" where
  "drawn w = w\<lparr>draws := draws w + 1\<rparr>"

text \<open>Files are opened by their C string; \<open>write_file\<close> does nothing when the file cannot be opened.\<close>

definition read_file :: "string \<Rightarrow> world \<Rightarrow> string option" where
  "read_file p w = files w (c_str p)"

definition write_file :: "string \<Rightarrow> string \<Rightarrow> world \<Rightarrow> world" where
  "write_file p bytes w = (if can_write w (c_str p) then w\<lparr>files := (files w)(c_str p := Some bytes)\<rparr> else w)"

definition seal :: "sodium \<Rightarrow> nat \<Rightarrow> string \<Rightarrow> string \<Rightarrow> (bool \<times> string) option" where
  "seal lib n pk m =
     (if length pk < public_bytes lib then None else Some (box_seal lib n (take (public_bytes lib) pk) m))"

definition seal_open :: "sodium \<Rightarrow> string \<Rightarrow> string \<Rightarrow> string \<Rightarrow> string option option" where
  "seal_open lib pk sk c =
     (if length pk < public_bytes lib \<or> length sk < secret_bytes lib then None
      else Some (box_seal_open lib (take (public_bytes lib) pk) (take (secret_bytes lib) sk) c))"

subsection \<open>Operations\<close>

text \<open>The constructor reports a library that cannot be initialised and goes on.\<close>

definition new_encryption :: "sodium \<Rightarrow> world \<Rightarrow> world" where
  "new_encryption lib w = (if sodium_init lib < 0 then complain ''Error: Failed to initialize libsodium.'' w else w)"

definition resize :: "nat \<Rightarrow> string \<Rightarrow> string" where
  "resize n v = take n (v @ replicate n NUL)"

text \<open>One call of \<open>crypto_box_keypair\<close> on the resized vectors of the caller.\<close>

definition draw_keypair :: "sodium \<Rightarrow> string \<times> string \<Rightarrow> world \<Rightarrow> bool \<times> (string \<times> string) \<times> world" where
  "draw_keypair lib = (\<lambda>(publicKey, secretKey) w.
     let sized = (resize (public_bytes lib) publicKey, resize (secret_bytes lib) secretKey)
     in case box_keypair lib (draws w) of
          None \<Rightarrow> (False, sized, complain ''Error: Failed to generate key pair.'' (drawn w))
        | Some pair \<Rightarrow> (True, pair, drawn w))"

definition generateKeyPair :: "sodium \<Rightarrow> string \<times> string \<Rightarrow> world \<Rightarrow> (string \<times> string) \<times> world" where
  "generateKeyPair lib keys w =
     (case draw_keypair lib keys w of
        (False, pair, w1) \<Rightarrow> (pair, w1)
      | (True, pair, w1) \<Rightarrow>
          (if \<not> can_write w1 ''public.key''
           then (pair, complain ''Error: Failed to open public key file for writing.'' w1)
           else let w2 = write_file ''public.key'' (fst pair) w1
                in if \<not> can_write w2 ''secret.key''
                   then (pair, complain ''Error: Failed to open secret key file for writing.'' w2)
                   else snd (draw_keypair lib pair (write_file ''secret.key'' (snd pair) w2))))"

definition validateKeyPair :: "sodium \<Rightarrow> string \<Rightarrow> string \<Rightarrow> world \<Rightarrow> (bool \<times> world) option" where
  "validateKeyPair lib publicKey secretKey w =
     (let test_message = random_buf lib (draws w) (seal_bytes lib); w1 = drawn w
      in case seal lib (draws w1) publicKey test_message of
           None \<Rightarrow> None
         | Some (False, _) \<Rightarrow> Some (False, complain ''Error: Failed during key validation encryption.'' (drawn w1))
         | Some (True, ciphertext) \<Rightarrow>
             (case seal_open lib publicKey secretKey ciphertext of
                None \<Rightarrow> None
              | Some None \<Rightarrow> Some (False, complain ''Error: Failed during key validation decryption.'' (drawn w1))
              | Some (Some _) \<Rightarrow> Some (True, drawn w1)))"

text \<open>
  \<open>decryptFile\<close> hands a local array to the library as the public key that it never fills:
  \<open>publicKey\<close> stands for whatever the array holds.
\<close>

definition decrypted_name :: "string \<Rightarrow> string" where
  "decrypted_name p = (case rfind p (CHR ''.'') of None \<Rightarrow> p | Some i \<Rightarrow> take i p)"

definition decryptFile :: "sodium \<Rightarrow> string \<Rightarrow> string \<Rightarrow> string \<Rightarrow> world \<Rightarrow> world option" where
  "decryptFile lib publicKey encryptedFilePath secretKey w =
     (case read_file encryptedFilePath w of
        None \<Rightarrow> Some (complain ''Error: Failed to open encrypted file.'' w)
      | Some ciphertext \<Rightarrow>
          (if length ciphertext < seal_bytes lib then Some (complain ''Error: Ciphertext is too short.'' w)
           else case seal_open lib publicKey secretKey ciphertext of
                  None \<Rightarrow> None
                | Some None \<Rightarrow> Some (complain ''Error: Failed to decrypt file.'' w)
                | Some (Some plaintext) \<Rightarrow> Some (write_file (decrypted_name encryptedFilePath) plaintext w)))"

definition hashPassword :: "sodium \<Rightarrow> string \<Rightarrow> world \<Rightarrow> string \<times> world" where
  "hashPassword lib password w =
     (case pwhash_str lib (draws w) password of
        (True, hashed_password) \<Rightarrow> (hashed_password, drawn w)
      | (False, hashed_password) \<Rightarrow> (hashed_password, complain ''Error: Failed to hash password.'' (drawn w)))"

definition verifyPassword :: "sodium \<Rightarrow> string \<Rightarrow> string \<Rightarrow> bool" where
  "verifyPassword lib hashed_password password = pwhash_str_verify lib (c_str hashed_password) password"

text \<open>
  A token: \<open>byte seed i\<close> is the \<open>i\<close>-th byte the distribution draws from a Mersenne twister that was
  seeded with the 32 bits of \<open>seed\<close>.
\<close>

definition hex_digit :: "nat \<Rightarrow> char" where
  "hex_digit d = (if d < 10 then char_of (48 + d) else char_of (87 + d))"

definition hex_byte :: "u8 \<Rightarrow> string" where
  "hex_byte b = [hex_digit (unat b div 16), hex_digit (unat b mod 16)]"

definition token_size :: nat where
  "token_size = 32"

definition createCSRFToken :: "(u32 \<Rightarrow> nat \<Rightarrow> u8) \<Rightarrow> u32 \<Rightarrow> string" where
  "createCSRFToken byte seed = concat (map (\<lambda>i. hex_byte (byte seed i)) [0..<token_size])"

text \<open>A file that cannot be opened is reported and then read as an empty one.\<close>

definition encryptFile :: "sodium \<Rightarrow> string \<Rightarrow> string \<Rightarrow> world \<Rightarrow> world option" where
  "encryptFile lib filePath publicKey w =
     (let w1 = (case read_file filePath w of None \<Rightarrow> complain ''Error: Failed to open file.'' w | Some _ \<Rightarrow> w);
          plaintext = (case read_file filePath w of None \<Rightarrow> [] | Some bytes \<Rightarrow> bytes)
      in case seal lib (draws w1) publicKey plaintext of
           None \<Rightarrow> None
         | Some (ok, ciphertext) \<Rightarrow>
             (let w2 = (if ok then drawn w1 else complain ''Error: Failed to encrypt file.'' (drawn w1))
              in Some (write_file (filePath @ ''.enc'') ciphertext w2)))"

definition createSignedMessage :: "sodium \<Rightarrow> string \<Rightarrow> string \<Rightarrow> string option" where
  "createSignedMessage lib message secretKey =
     (if length secretKey < sign_secret_bytes lib then None
      else Some (sign_message lib (take (sign_secret_bytes lib) secretKey) message))"

text \<open>
  The length is a local variable without an initial value: when the library does not set it, or sets
  it beyond the buffer, building the result is undefined behaviour.
\<close>

definition verifySignedMessage :: "sodium \<Rightarrow> string \<Rightarrow> string \<Rightarrow> world \<Rightarrow> (string \<times> world) option" where
  "verifySignedMessage lib signed_message publicKey w =
     (if length publicKey < sign_public_bytes lib then None
      else case sign_open lib (take (sign_public_bytes lib) publicKey) signed_message of
             (ok, message_len, message) \<Rightarrow>
               (let w1 = (if ok then w else complain ''Error: Failed to verify signed message.'' w)
                in case message_len of
                     None \<Rightarrow> None
                   | Some n \<Rightarrow> (if n \<le> length message then Some (take n message, w1) else None)))"

subsection \<open>What the library promises\<close>

text \<open>
  A sealed message is longer by a constant and can be opened with the pair of keys it was sealed for;
  a public key of the right size that is not the recipient's does not open it.
\<close>

definition seal_law :: "sodium \<Rightarrow> bool" where
  "seal_law lib \<longleftrightarrow>
     (\<forall>i pk sk. box_keypair lib i = Some (pk, sk) \<longrightarrow>
        length pk = public_bytes lib \<and> length sk = secret_bytes lib \<and>
        (\<forall>k m c. box_seal lib k pk m = (True, c) \<longrightarrow>
           length c = length m + seal_bytes lib \<and> box_seal_open lib pk sk c = Some m \<and>
           (\<forall>pk'. length pk' = public_bytes lib \<and> pk' \<noteq> pk \<longrightarrow> box_seal_open lib pk' sk c = None)))"

definition pwhash_law :: "sodium \<Rightarrow> bool" where
  "pwhash_law lib \<longleftrightarrow>
     (\<forall>k pw buf. pwhash_str lib k pw = (True, buf) \<longrightarrow> pwhash_str_verify lib (c_str buf) pw)"

text \<open>A library for the witnesses: keys of one byte, a sealed message carries its key.\<close>

definition toy_sodium :: sodium where
  "toy_sodium =
     \<lparr>sodium_init = 0, public_bytes = 1, secret_bytes = 1, seal_bytes = 1, sign_public_bytes = 1, sign_secret_bytes = 1,
      box_keypair = \<lambda>i. Some (if even i then (''A'', ''A'') else (''B'', ''B'')), random_buf = \<lambda>i n. replicate n (CHR ''r''),
      box_seal = \<lambda>k pk m. (True, pk @ m),
      box_seal_open = \<lambda>pk sk c. if take 1 c = pk then Some (drop 1 c) else None,
      pwhash_str = \<lambda>k pw. (True, c_str pw @ replicate 4 NUL), pwhash_str_verify = \<lambda>h pw. h = c_str pw,
      sign_message = \<lambda>sk m. sk @ m,
      sign_open = \<lambda>pk s. if take 1 s = pk then (True, Some (length s - 1), drop 1 s) else (False, None, [])\<rparr>"

lemma toy_seal_law: "seal_law toy_sodium"
  by (auto simp: seal_law_def toy_sodium_def split: if_splits)

subsection \<open>Files\<close>

lemma decrypted_enc: "decrypted_name (p @ ''.enc'') = p"
proof -
  have "rfind (p @ CHR ''.'' # ''enc'') (CHR ''.'') = Some (length p)" by (rule rfind_append) simp
  then show ?thesis by (simp add: decrypted_name_def)
qed

lemma c_str_enc: "c_str f = f \<Longrightarrow> c_str (f @ ''.enc'') = f @ ''.enc''"
  by (simp add: c_str_append) (simp add: c_str_def)

text \<open>Encrypting writes the sealed bytes of the file, or of nothing when it cannot be read.\<close>

lemma encryptFile_files:
  assumes "seal_law lib" "box_keypair lib i = Some (pk, sk)" "c_str f = f" "can_write w (f @ ''.enc'')"
    and "box_seal lib (draws w) pk (case files w f of None \<Rightarrow> [] | Some m \<Rightarrow> m) = (True, c)"
  shows "\<exists>w1. encryptFile lib f pk w = Some w1 \<and> files w1 = (files w)(f @ ''.enc'' := Some c) \<and>
    can_write w1 = can_write w \<and> (messages w1 = messages w \<longleftrightarrow> files w f \<noteq> None)"
proof -
  have pk: "length pk = public_bytes lib" using assms(1,2) by (simp add: seal_law_def)
  then show ?thesis using assms(3-)
    by (cases "files w f")
       (simp_all add: encryptFile_def seal_def read_file_def write_file_def drawn_def complain_def c_str_enc)
qed

lemma decryptFile_sealed:
  assumes "seal_law lib" "box_keypair lib i = Some (pk, sk)" "c_str f = f" "box_seal lib k pk m = (True, c)"
    and "files w (f @ ''.enc'') = Some c" "can_write w f" "length pk' = public_bytes lib"
  shows "\<exists>w2. decryptFile lib pk' (f @ ''.enc'') sk w = Some w2 \<and>
    files w2 = (if pk' = pk then (files w)(f := Some m) else files w)"
proof -
  have law: "length sk = secret_bytes lib" "length c = length m + seal_bytes lib" "box_seal_open lib pk sk c = Some m"
    "pk' \<noteq> pk \<Longrightarrow> box_seal_open lib pk' sk c = None"
    using assms(1,2,4,7) by (simp_all add: seal_law_def)
  then show ?thesis using assms(3,5-)
    by (simp add: decryptFile_def read_file_def seal_open_def write_file_def complain_def c_str_enc decrypted_enc)
qed

subsection \<open>Properties\<close>

text \<open>C27 (encrypted_file_comes_back). A file encrypted for a generated public key is restored, whatever has
  happened to it since, when the uninitialised array in \<open>decryptFile\<close> happens to hold that public key;
  with any other content of the array nothing is written. Encrypting touches no file but the one with
  the name \<open>.enc\<close> behind, decrypting none but the target.\<close>

theorem encrypted_file_comes_back:
  assumes "seal_law lib" "box_keypair lib i = Some (pk, sk)" "fst (box_seal lib (draws w) pk m)"
    and "files w f = Some m" "c_str f = f" "can_write w f" "can_write w (f @ ''.enc'')"
    and "length array = public_bytes lib"
  shows "\<exists>c w1 w2. encryptFile lib f pk w = Some w1 \<and> files w1 = (files w)(f @ ''.enc'' := Some c) \<and>
    decryptFile lib array (f @ ''.enc'') sk (w1\<lparr>files := (files w1)(f := now)\<rparr>) = Some w2 \<and>
    files w2 = (files w1)(f := if array = pk then Some m else now)"
proof -
  obtain c where c: "box_seal lib (draws w) pk m = (True, c)" using assms(3) by (cases "box_seal lib (draws w) pk m") auto
  obtain w1 where w1: "encryptFile lib f pk w = Some w1" "files w1 = (files w)(f @ ''.enc'' := Some c)"
      "can_write w1 = can_write w"
    using encryptFile_files [OF assms(1,2,5,7), of c] assms(4) c by auto
  let ?w = "w1\<lparr>files := (files w1)(f := now)\<rparr>"
  have "files ?w (f @ ''.enc'') = Some c" "can_write ?w f" using w1 assms(6) by simp_all
  from decryptFile_sealed [OF assms(1,2,5) c this assms(8)] obtain w2 where
    "decryptFile lib array (f @ ''.enc'') sk ?w = Some w2" "files w2 = (if array = pk then (files ?w)(f := Some m) else files ?w)"
    by blast
  moreover from this(2) have "files w2 = (files w1)(f := if array = pk then Some m else now)" by simp
  ultimately show ?thesis using w1(1,2) by blast
qed

theorem encrypted_file_comes_back_witness:
  "let w = \<lparr>files = [''a.txt'' \<mapsto> ''hello''], can_write = \<lambda>p. True, draws = 0, messages = []\<rparr>
   in \<exists>c w1 w2. encryptFile toy_sodium ''a.txt'' ''A'' w = Some w1 \<and> files w1 = (files w)(''a.txt'' @ ''.enc'' := Some c) \<and>
     decryptFile toy_sodium ''A'' (''a.txt'' @ ''.enc'') ''A'' (w1\<lparr>files := (files w1)(''a.txt'' := None)\<rparr>) = Some w2 \<and>
     files w2 = (files w1)(''a.txt'' := if ''A'' = ''A'' then Some ''hello'' else None)"
  unfolding Let_def
  by (rule encrypted_file_comes_back [OF toy_seal_law, of 0]) (simp_all add: toy_sodium_def c_str_def)

text \<open>(encrypt_missing_file). Encrypting a file that cannot be opened overwrites the encrypted copy there was: with
  the right keys it now decrypts to an empty file.\<close>

theorem encrypt_missing_file:
  assumes "seal_law lib" "box_keypair lib i = Some (pk, sk)" "fst (box_seal lib (draws w) pk [])"
    and "files w f = None" "c_str f = f" "can_write w f" "can_write w (f @ ''.enc'')"
  shows "\<exists>w1 w2. encryptFile lib f pk w = Some w1 \<and> decryptFile lib pk (f @ ''.enc'') sk w1 = Some w2 \<and>
    files w2 f = Some [] \<and> messages w1 \<noteq> messages w"
proof -
  obtain c where c: "box_seal lib (draws w) pk [] = (True, c)" using assms(3) by (cases "box_seal lib (draws w) pk []") auto
  obtain w1 where w1: "encryptFile lib f pk w = Some w1" "files w1 = (files w)(f @ ''.enc'' := Some c)"
      "can_write w1 = can_write w" "messages w1 \<noteq> messages w"
    using encryptFile_files [OF assms(1,2,5,7), of c] assms(4) c by auto
  have "files w1 (f @ ''.enc'') = Some c" "can_write w1 f" "length pk = public_bytes lib"
    using w1 assms(1,2,6) by (simp_all add: seal_law_def)
  from decryptFile_sealed [OF assms(1,2,5) c this] w1(1,4) show ?thesis by auto
qed

theorem encrypt_missing_file_witness:
  "let w = \<lparr>files = [''a.txt.enc'' \<mapsto> ''Ahello''], can_write = \<lambda>p. True, draws = 0, messages = []\<rparr>
   in \<exists>w1 w2. encryptFile toy_sodium ''a.txt'' ''A'' w = Some w1 \<and>
     decryptFile toy_sodium ''A'' (''a.txt'' @ ''.enc'') ''A'' w1 = Some w2 \<and>
     files w2 ''a.txt'' = Some [] \<and> messages w1 \<noteq> messages w"
  unfolding Let_def
  by (rule encrypt_missing_file [OF toy_seal_law, of 0]) (simp_all add: toy_sodium_def c_str_def)

text \<open>(saved_keys_are_not_returned). When everything succeeds the files hold the first pair of keys drawn and the
  caller gets the second.\<close>

theorem saved_keys_are_not_returned:
  assumes "box_keypair lib (draws w) = Some (pk, sk)" "box_keypair lib (draws w + 1) = Some (pk', sk')"
    and "can_write w ''public.key''" "can_write w ''secret.key''"
  shows "\<exists>w1. generateKeyPair lib keys w = ((pk', sk'), w1) \<and>
    files w1 ''public.key'' = Some pk \<and> files w1 ''secret.key'' = Some sk"
  using assms
  by (cases keys) (simp add: generateKeyPair_def draw_keypair_def Let_def drawn_def write_file_def c_str_def)

theorem saved_keys_are_not_returned_witness:
  "let w = \<lparr>files = Map.empty, can_write = \<lambda>p. True, draws = 0, messages = []\<rparr>
   in \<exists>w1. generateKeyPair toy_sodium ([], []) w = ((''B'', ''B''), w1) \<and>
     files w1 ''public.key'' = Some ''A'' \<and> files w1 ''secret.key'' = Some ''A''"
  unfolding Let_def
  by (rule saved_keys_are_not_returned) (simp_all add: toy_sodium_def)

text \<open>(password_accepted). A password is accepted against its hash, with the zero bytes of the
  buffer behind it or without them.\<close>

theorem password_accepted:
  assumes "pwhash_law lib" "fst (pwhash_str lib (draws w) pw)"
  shows "verifyPassword lib (fst (hashPassword lib pw w)) pw"
    and "verifyPassword lib (c_str (fst (hashPassword lib pw w))) pw"
proof -
  obtain buf where "pwhash_str lib (draws w) pw = (True, buf)" using assms(2) by (cases "pwhash_str lib (draws w) pw") auto
  moreover have "c_str (c_str s) = c_str s" for s by (simp add: c_str_def)
  ultimately show "verifyPassword lib (fst (hashPassword lib pw w)) pw"
    "verifyPassword lib (c_str (fst (hashPassword lib pw w))) pw"
    using assms(1) by (simp_all add: pwhash_law_def verifyPassword_def hashPassword_def)
qed

lemma hex_digit_range: "d < 16 \<Longrightarrow> hex_digit d \<in> set ''0123456789abcdef''"
proof -
  have "\<forall>d\<in>set [0..<16]. hex_digit d \<in> set ''0123456789abcdef''" by code_simp
  then show "d < 16 \<Longrightarrow> hex_digit d \<in> set ''0123456789abcdef''" by simp
qed

lemma hex_byte_digits: "length (hex_byte b) = 2" "c \<in> set (hex_byte b) \<Longrightarrow> c \<in> set ''0123456789abcdef''"
proof -
  have "unat b < 256" using unsigned_less [of b] by simp
  then have "unat b div 16 < 16" "unat b mod 16 < 16" by simp_all
  from hex_digit_range [OF this(1)] hex_digit_range [OF this(2)]
  have "set (hex_byte b) \<subseteq> set ''0123456789abcdef''" by (simp add: hex_byte_def del: list.set(2)) simp
  then show "length (hex_byte b) = 2" "c \<in> set (hex_byte b) \<Longrightarrow> c \<in> set ''0123456789abcdef''"
    by (auto simp: hex_byte_def)
qed

text \<open>(csrf_tokens). A token has 64 lower-case hexadecimal digits, but as the generator is seeded with one 32-bit
  number there are at most \<open>2 ^ 32\<close> different ones.\<close>

theorem csrf_tokens:
  "length (createCSRFToken byte seed) = 64 \<and> set (createCSRFToken byte seed) \<subseteq> set ''0123456789abcdef'' \<and>
   card (range (createCSRFToken byte)) \<le> 2 ^ 32"
proof (intro conjI)
  show "length (createCSRFToken byte seed) = 64"
    by (simp add: createCSRFToken_def length_concat comp_def hex_byte_digits token_size_def sum_list_triv)
  show "set (createCSRFToken byte seed) \<subseteq> set ''0123456789abcdef''"
    unfolding createCSRFToken_def using hex_byte_digits(2) by (auto simp del: list.set)
  have "card (range (createCSRFToken byte)) \<le> card (UNIV :: u32 set)" by (rule card_image_le) simp
  also have "\<dots> = 2 ^ 32" by (simp add: card_word)
  finally show "card (range (createCSRFToken byte)) \<le> 2 ^ 32" .
qed

end
