(* ===== verification/Compression.thy ===== *)
theory Compression
  imports Qlogger
begin

section \<open>Archives (\<open>whz_datacompression.hpp\<close>)\<close>

text \<open>
  Libzip and libarchive are parameters. Of an archive in memory the model keeps its entries; what a
  library makes of them in a file and reads from one, and when its calls fail, are functions of the
  record \<open>archivers\<close>. An archive is read when it is opened. An exception of the file system is the
  outcome \<open>Filesystem_error\<close>; the disk keeps what was done before. Every failure is handed to the
  logger of the object, which asks the configuration whether errors are logged at all.
\<close>

subsection \<open>The disk and the libraries\<close>

text \<open>
  \<open>path_content\<close> is \<open>None\<close> for a file that cannot be read, whose size is then \<open>stat_size\<close> of the
  libraries below. The members of an archive stand for regular files.
\<close>

record disk =
  path_status :: "string \<Rightarrow> file_status"
  path_content :: "string \<Rightarrow> string option"
  settings :: config
  logger :: qlogger

record zip_member =
  zip_name :: string
  zip_data :: "string option"

record ar_member =
  ar_pathname :: string
  ar_blocks :: "string list"
  ar_reaches_eof :: bool

record archivers =
  can_create :: "string \<Rightarrow> bool"
  make_directories :: "string \<Rightarrow> bool"
  list_directory :: "string \<Rightarrow> string list option"
  stat_size :: "string \<Rightarrow> nat"
  zip_error :: "string \<Rightarrow> nat"
  zip_add_ok :: "string \<Rightarrow> string \<Rightarrow> bool"
  zip_level_ok :: "int \<Rightarrow> bool"
  zip_encode :: "int \<Rightarrow> (string \<times> string) list \<Rightarrow> string option"
  zip_decode :: "string \<Rightarrow> zip_member list option"
  ar_encode :: "u32 \<Rightarrow> (string \<times> nat \<times> string) list \<Rightarrow> string"
  ar_decode :: "string \<Rightarrow> ar_member list option"
  readsome_ok :: "string \<Rightarrow> bool"
  ar_header_ok :: "string \<Rightarrow> bool"
  ar_block_ok :: "string \<Rightarrow> nat \<Rightarrow> bool"

text \<open>\<open>qlogger.error\<close>; it never throws (\<open>log_switch_total\<close>).\<close>

definition report :: "string \<Rightarrow> disk \<Rightarrow> disk" where
  "report msg d =
     (case error (settings d) msg (logger d) of Inl e \<Rightarrow> d | Inr q \<Rightarrow> d\<lparr>logger := q\<rparr>)"

definition write_disk :: "string \<Rightarrow> string \<Rightarrow> disk \<Rightarrow> disk" where
  "write_disk p bytes d = d\<lparr>path_status := (path_status d)(p := Regular), path_content := (path_content d)(p := Some bytes)\<rparr>"

definition remove_disk :: "string \<Rightarrow> disk \<Rightarrow> disk" where
  "remove_disk p d = d\<lparr>path_status := (path_status d)(p := Missing), path_content := (path_content d)(p := None)\<rparr>"

text \<open>\<open>create_directories\<close>: the path and every directory above it.\<close>

definition create_directories :: "archivers \<Rightarrow> string \<Rightarrow> disk \<Rightarrow> disk option" where
  "create_directories lib p d =
     (if make_directories lib p
      then Some (d\<lparr>path_status := \<lambda>q. if prefix (q @ ''/'') (p @ ''/'') then Directory else path_status d q\<rparr>)
      else None)"

subsection \<open>Zip archives\<close>

text \<open>\<open>zip_file_add\<close> with \<open>ZIP_FL_OVERWRITE\<close>: an entry of the same name is replaced.\<close>

fun zip_put :: "string \<Rightarrow> string \<Rightarrow> (string \<times> string) list \<Rightarrow> (string \<times> string) list" where
  "zip_put n f [] = [(n, f)]"
| "zip_put n f ((m, g) # es) = (if m = n then (n, f) # es else (m, g) # zip_put n f es)"

text \<open>
  The entries are names with the files they are read from when the archive is closed. Closing fails
  without a trace when a file cannot be read or the archive not be written; an empty archive is not
  written and the file that was there is removed.
\<close>

definition zip_close :: "archivers \<Rightarrow> int \<Rightarrow> string \<Rightarrow> (string \<times> string) list \<Rightarrow> disk \<Rightarrow> disk" where
  "zip_close lib lvl output es d =
     (if es = [] then remove_disk output d
      else if \<exists>e\<in>set es. path_content d (snd e) = None then d
      else case zip_encode lib lvl (map (\<lambda>(n, f). (n, the (path_content d f))) es) of
             None \<Rightarrow> d
           | Some bytes \<Rightarrow> write_disk output bytes d)"

fun add_files ::
  "archivers \<Rightarrow> int \<Rightarrow> string \<Rightarrow> disk \<Rightarrow> string list \<Rightarrow> (string \<times> string) list \<Rightarrow> outcome \<times> disk" where
  "add_files lib lvl output d [] es = (Returns True, zip_close lib lvl output es d)"
| "add_files lib lvl output d (file # fs) es =
     (case path_status d file of
        Stat_error \<Rightarrow> (Filesystem_error, d)
      | Regular \<Rightarrow>
          (if \<not> zip_add_ok lib (file_name file) file
           then (Returns False, report ''Compression Error: Failed to add file to ZIP archive'' (zip_close lib lvl output es d))
           else if \<not> zip_level_ok lib lvl
           then (Returns False, report ''Compression Error: Failed to set compression level'' d)
           else add_files lib lvl output d fs (zip_put (file_name file) file es))
      | _ \<Rightarrow> add_files lib lvl output d fs es)"

definition compressZip :: "archivers \<Rightarrow> string list \<Rightarrow> string \<Rightarrow> int \<Rightarrow> disk \<Rightarrow> outcome \<times> disk" where
  "compressZip lib fs output lvl d =
     (if \<not> can_create lib output
      then (Returns False, report (''Compression Error('' @ dec_string (zip_error lib output) @ ''): Failed to create ZIP archive'') d)
      else add_files lib lvl output d fs [])"

fun extract_zip :: "archivers \<Rightarrow> string \<Rightarrow> zip_member list \<Rightarrow> disk \<Rightarrow> outcome \<times> disk" where
  "extract_zip lib outputDir [] d = (Returns True, d)"
| "extract_zip lib outputDir (e # es) d =
     (case zip_data e of
        None \<Rightarrow> (Returns False, report ''Decompression Error: Failed to open file inside ZIP archive'' d)
      | Some bytes \<Rightarrow>
          (let outFilePath = path_join outputDir (zip_name e)
           in case create_directories lib (parent_path outFilePath) d of
                None \<Rightarrow> (Filesystem_error, d)
              | Some d1 \<Rightarrow>
                  extract_zip lib outputDir es
                    (if can_create lib outFilePath then write_disk outFilePath bytes d1 else d1)))"

definition decompressZip :: "archivers \<Rightarrow> string \<Rightarrow> string \<Rightarrow> disk \<Rightarrow> outcome \<times> disk" where
  "decompressZip lib archive outputDir d =
     (case Option.bind (path_content d archive) (zip_decode lib) of
        None \<Rightarrow> (Returns False, report (''Decompression Error('' @ dec_string (zip_error lib archive) @ ''): Failed to open ZIP archive'') d)
      | Some es \<Rightarrow> extract_zip lib outputDir es d)"

subsection \<open>7z archives\<close>

text \<open>
  The file is created before the others are read. The data of a file is what \<open>readsome\<close> hands out,
  which may be nothing; the results of the library's calls are not looked at.
\<close>

fun seven_entries :: "archivers \<Rightarrow> disk \<Rightarrow> string list \<Rightarrow> (string \<times> nat \<times> string) list option" where
  "seven_entries lib d [] = Some []"
| "seven_entries lib d (file # fs) =
     (case path_status d file of
        Stat_error \<Rightarrow> None
      | Regular \<Rightarrow>
          map_option ((#) (case path_content d file of
              None \<Rightarrow> (file, stat_size lib file, [])
            | Some bytes \<Rightarrow> (file, length bytes, if readsome_ok lib file then bytes else [])))
            (seven_entries lib d fs)
      | _ \<Rightarrow> seven_entries lib d fs)"

definition compress7z :: "archivers \<Rightarrow> string list \<Rightarrow> string \<Rightarrow> u32 \<Rightarrow> disk \<Rightarrow> outcome \<times> disk" where
  "compress7z lib fs output lvl d =
     (if \<not> can_create lib output then (Returns False, report ''Compression Error: Failed to open output file'' d)
      else let d1 = write_disk output [] d
           in case seven_entries lib d1 fs of
                None \<Rightarrow> (Filesystem_error, d1)
              | Some es \<Rightarrow> (Returns True, write_disk output (ar_encode lib lvl es) d1))"

text \<open>The blocks of an entry up to the first that cannot be written, and whether all were.\<close>

fun copy_blocks :: "(nat \<Rightarrow> bool) \<Rightarrow> nat \<Rightarrow> string list \<Rightarrow> string \<times> bool" where
  "copy_blocks ok i [] = ([], True)"
| "copy_blocks ok i (b # bs) = (if ok i then map_prod (\<lambda>s. b @ s) id (copy_blocks ok (Suc i) bs) else ([], False))"

definition extract_member :: "archivers \<Rightarrow> string \<Rightarrow> ar_member \<Rightarrow> disk \<Rightarrow> disk" where
  "extract_member lib outputDir e d =
     (let fullOutputPath = path_join outputDir (ar_pathname e)
      in if \<not> ar_header_ok lib fullOutputPath
         then report (''Decompression Error: Failed to write header for file: '' @ ar_pathname e) d
         else case copy_blocks (ar_block_ok lib fullOutputPath) 0 (ar_blocks e) of
                (bytes, written) \<Rightarrow>
                  (let d1 = write_disk fullOutputPath bytes d;
                       d2 = (if written then d1
                             else report (''Decompression Error: Failed to write data for file: '' @ ar_pathname e) d1)
                   in if written \<and> ar_reaches_eof e then d2
                      else report (''Decompression Error: Failed to read data for file: '' @ ar_pathname e) d2))"

definition decompress7z :: "archivers \<Rightarrow> string \<Rightarrow> string \<Rightarrow> disk \<Rightarrow> outcome \<times> disk" where
  "decompress7z lib archive outputDir d =
     (case Option.bind (path_content d archive) (ar_decode lib) of
        None \<Rightarrow> (Returns False, report (''Decompression Error: Failed to open 7z archive: '' @ archive) d)
      | Some es \<Rightarrow> (Returns True, fold (extract_member lib outputDir) es d))"

subsection \<open>The public operations\<close>

definition compress :: "archivers \<Rightarrow> string list \<Rightarrow> string \<Rightarrow> string \<Rightarrow> int \<Rightarrow> disk \<Rightarrow> outcome \<times> disk" where
  "compress lib fs output fmt compressionLevel d =
     (case path_status d (parent_path output) of
        Stat_error \<Rightarrow> (Filesystem_error, d)
      | st \<Rightarrow>
          (let d1 = (if st = Missing
                     then report (''Compression Error: Output directory does not exist: '' @ parent_path output) d else d)
           in if fmt = ''zip'' then compressZip lib fs output compressionLevel d1
              else if fmt = ''7z'' then compress7z lib fs output (word_of_int compressionLevel) d1
              else (Returns False, report ''Compression Error: Unsupported file format. Use only .zip or .7z'' d1)))"

definition decompress :: "archivers \<Rightarrow> string \<Rightarrow> string \<Rightarrow> disk \<Rightarrow> outcome \<times> disk" where
  "decompress lib archive outputDir d =
     (case path_status d archive of
        Stat_error \<Rightarrow> (Filesystem_error, d)
      | Missing \<Rightarrow> (Returns False, report (''Compression Error: Output directory does not exist: '' @ archive) d)
      | _ \<Rightarrow>
          (if path_extension archive = ''.zip'' then decompressZip lib archive outputDir d
           else if path_extension archive = ''.7z'' then decompress7z lib archive outputDir d
           else (Returns False, report ''Compression Error: Unsupported file format. Use only .zip or .7z'' d)))"

text \<open>\<open>list_directory\<close> gives the paths of everything below a directory.\<close>

definition compressDirectory :: "archivers \<Rightarrow> string \<Rightarrow> string \<Rightarrow> string \<Rightarrow> disk \<Rightarrow> outcome \<times> disk" where
  "compressDirectory lib directory output fmt d =
     (case path_status d directory of
        Stat_error \<Rightarrow> (Filesystem_error, d)
      | Missing \<Rightarrow> (Returns False, report (''Compression Error: Directory does not exist: '' @ directory) d)
      | _ \<Rightarrow>
          (case path_status d (parent_path output) of
             Stat_error \<Rightarrow> (Filesystem_error, d)
           | Missing \<Rightarrow>
               (Returns False, report (''Compression Error: Output directory does not exist: '' @ parent_path output) d)
           | _ \<Rightarrow>
               (case list_directory lib directory of
                  None \<Rightarrow> (Filesystem_error, d)
                | Some paths \<Rightarrow>
                    (if Stat_error \<in> path_status d ` set paths then (Filesystem_error, d)
                     else compress lib (filter (\<lambda>p. path_status d p = Regular) paths) output fmt 6 d))))"

definition decompressToDirectory :: "archivers \<Rightarrow> string \<Rightarrow> string \<Rightarrow> disk \<Rightarrow> outcome \<times> disk" where
  "decompressToDirectory lib archive outputDir d = decompress lib archive outputDir d"

subsection \<open>What is promised of the libraries\<close>

definition zip_law :: "archivers \<Rightarrow> bool" where
  "zip_law lib \<longleftrightarrow>
     (\<forall>lvl es bytes. zip_encode lib lvl es = Some bytes \<longrightarrow>
        zip_decode lib bytes = Some (map (\<lambda>(n, c). \<lparr>zip_name = n, zip_data = Some c\<rparr>) es))"

text \<open>Libraries for the witnesses: an archive is the list of its names and contents, every character behind a plus.\<close>

fun pack :: "string list \<Rightarrow> string" where
  "pack [] = []"
| "pack (s # ss) = concat (map (\<lambda>c. [CHR ''+'', c]) s) @ ''.'' @ pack ss"

fun unpack :: "string \<Rightarrow> string \<Rightarrow> string list" where
  "unpack acc [] = []"
| "unpack acc (x # s) =
     (if x = CHR ''.'' then acc # unpack [] s
      else case s of [] \<Rightarrow> [] | c # t \<Rightarrow> unpack (acc @ [c]) t)"

fun pairs_of :: "string list \<Rightarrow> (string \<times> string) list" where
  "pairs_of (a # b # ss) = (a, b) # pairs_of ss"
| "pairs_of _ = []"

definition pack_pairs :: "(string \<times> string) list \<Rightarrow> string" where
  "pack_pairs es = pack (concat (map (\<lambda>(n, c). [n, c]) es))"

definition unpack_pairs :: "string \<Rightarrow> (string \<times> string) list" where
  "unpack_pairs s = pairs_of (unpack [] s)"

definition plain_archivers :: archivers where
  "plain_archivers =
     \<lparr>can_create = \<lambda>p. True, make_directories = \<lambda>p. True, list_directory = \<lambda>p. None, stat_size = \<lambda>p. 0,
      zip_error = \<lambda>p. 0, zip_add_ok = \<lambda>n f. True, zip_level_ok = \<lambda>l. 0 \<le> l \<and> l \<le> 9,
      zip_encode = \<lambda>l es. Some (pack_pairs es),
      zip_decode = \<lambda>s. Some (map (\<lambda>(n, c). \<lparr>zip_name = n, zip_data = Some c\<rparr>) (unpack_pairs s)),
      ar_encode = \<lambda>l es. pack_pairs (map (\<lambda>(n, k, c). (n, c)) es),
      ar_decode = \<lambda>s. Some (map (\<lambda>(n, c). \<lparr>ar_pathname = n, ar_blocks = [c], ar_reaches_eof = True\<rparr>) (unpack_pairs s)),
      readsome_ok = \<lambda>p. True, ar_header_ok = \<lambda>p. True, ar_block_ok = \<lambda>p i. True\<rparr>"

lemma unpack_pack: "unpack [] (pack ss) = ss"
proof (induction ss)
  case (Cons s ss)
  have "unpack acc (concat (map (\<lambda>c. [CHR ''+'', c]) s) @ ''.'' @ t) = (acc @ s) # unpack [] t" for acc t
    by (induction s arbitrary: acc) simp_all
  from this [of "[]"] Cons show ?case by simp
qed simp

lemma unpack_pack_pairs: "unpack_pairs (pack_pairs es) = es"
  unfolding unpack_pairs_def pack_pairs_def unpack_pack by (induction es) auto

lemma plain_zip_law: "zip_law plain_archivers"
  by (simp add: zip_law_def plain_archivers_def unpack_pack_pairs comp_def case_prod_unfold)

text \<open>A message reaches the log only when the switch is a plain \<open>true\<close>; the files are not touched.\<close>

abbreviation error_switch :: "disk \<Rightarrow> bool" where
  "error_switch d \<equiv> get_config_value LOG_ERROR (settings d) = Any_bool True"

lemma report_eq: "report msg d = (if error_switch d then d\<lparr>logger := call_quill (Log Error msg) (logger d)\<rparr> else d)"
  by (simp add: report_def error_def log_at_eq)

lemma report_disk [simp]:
  "path_status (report msg d) = path_status d" "path_content (report msg d) = path_content d"
  "settings (report msg d) = settings d"
  by (simp_all add: report_eq)

subsection \<open>The entries of a zip archive\<close>

lemma map_of_zip_put: "map_of (zip_put n f es) = (map_of es)(n \<mapsto> f)"
  by (induction n f es rule: zip_put.induct) auto

lemma zip_put_names: "fst ` set (zip_put n f es) = insert n (fst ` set es)"
  by (induction n f es rule: zip_put.induct) auto

lemma zip_put_distinct: "distinct (map fst es) \<Longrightarrow> distinct (map fst (zip_put n f es))"
proof (induction n f es rule: zip_put.induct)
  case (2 n f m g es)
  then show ?case using zip_put_names [of n f es] by auto
qed simp

text \<open>The entries after putting a list of files; the last file of a name wins.\<close>

definition put_all :: "string list \<Rightarrow> (string \<times> string) list \<Rightarrow> (string \<times> string) list" where
  "put_all fs es = fold (\<lambda>f. zip_put (file_name f) f) fs es"

lemma put_all_distinct: "distinct (map fst es) \<Longrightarrow> distinct (map fst (put_all fs es))"
  unfolding put_all_def by (induction fs arbitrary: es) (simp_all add: zip_put_distinct)

lemma map_of_put_all: "map_of (put_all fs es) = map_of es ++ map_of (rev (map (\<lambda>f. (file_name f, f)) fs))"
  unfolding put_all_def
  by (induction fs arbitrary: es) (simp_all add: map_of_zip_put map_add_upd_left [symmetric] fun_eq_iff map_add_def
      split: option.split)

lemma map_of_last:
  "filter (\<lambda>g. k g = n) fs \<noteq> [] \<Longrightarrow> map_of (rev (map (\<lambda>f. (k f, f)) fs)) n = Some (last (filter (\<lambda>g. k g = n) fs))"
  by (induction fs rule: rev_induct) auto

lemma put_all_entry:
  assumes "(n, f) \<in> set (put_all fs [])"
  shows "f \<in> set fs \<and> n = file_name f"
proof -
  have "map_of (put_all fs []) n = Some f" using assms by (simp add: put_all_distinct)
  then have "map_of (rev (map (\<lambda>f. (file_name f, f)) fs)) n = Some f" by (simp add: map_of_put_all)
  from map_of_SomeD [OF this] show ?thesis by auto
qed

lemma put_all_last:
  assumes "f \<in> set fs"
  shows "(file_name f, last (filter (\<lambda>g. file_name g = file_name f) fs)) \<in> set (put_all fs [])"
proof -
  have "filter (\<lambda>g. file_name g = file_name f) fs \<noteq> []" using assms by (simp add: filter_empty_conv) blast
  from map_of_last [OF this] have "map_of (put_all fs []) (file_name f) = Some (last (filter (\<lambda>g. file_name g = file_name f) fs))"
    by (simp add: map_of_put_all)
  then show ?thesis by (rule map_of_SomeD)
qed

lemma add_files_ok:
  "(\<And>f. f \<in> set fs \<Longrightarrow> path_status d f \<noteq> Stat_error \<and> (path_status d f = Regular \<longrightarrow> zip_add_ok lib (file_name f) f)) \<Longrightarrow>
   zip_level_ok lib lvl \<Longrightarrow>
   add_files lib lvl output d fs es =
     (Returns True, zip_close lib lvl output (put_all (filter (\<lambda>f. path_status d f = Regular) fs) es) d)"
proof (induction fs arbitrary: es)
  case (Cons f fs)
  then have "path_status d f \<noteq> Stat_error" "path_status d f = Regular \<longrightarrow> zip_add_ok lib (file_name f) f" by simp_all
  with Cons show ?case by (cases "path_status d f") (simp_all add: put_all_def)
qed (simp add: put_all_def)

lemma extract_zip_ok:
  "list_all (\<lambda>e. zip_data e \<noteq> None) es \<Longrightarrow>
   (\<And>p. make_directories lib p) \<Longrightarrow> (\<And>e. e \<in> set es \<Longrightarrow> can_create lib (path_join outputDir (zip_name e))) \<Longrightarrow>
   \<exists>d2. extract_zip lib outputDir es d = (Returns True, d2) \<and>
     path_content d2 = path_content d ++ map_of (rev (map (\<lambda>e. (path_join outputDir (zip_name e), the (zip_data e))) es))"
proof (induction es arbitrary: d)
  case (Cons e es)
  then obtain bytes where b: "zip_data e = Some bytes" by auto
  let ?p = "path_join outputDir (zip_name e)"
  obtain d1 where d1: "create_directories lib (parent_path ?p) d = Some d1" "path_content d1 = path_content d"
    using Cons.prems(2) by (simp add: create_directories_def)
  have "can_create lib ?p" using Cons.prems(3) by simp
  then have "extract_zip lib outputDir (e # es) d = extract_zip lib outputDir es (write_disk ?p bytes d1)"
    using b d1(1) by (simp add: Let_def)
  moreover from Cons.IH [of "write_disk ?p bytes d1"] Cons.prems
  obtain d2 where "extract_zip lib outputDir es (write_disk ?p bytes d1) = (Returns True, d2)"
    "path_content d2 = path_content (write_disk ?p bytes d1) ++
       map_of (rev (map (\<lambda>e. (path_join outputDir (zip_name e), the (zip_data e))) es))" by auto
  ultimately show ?case using b d1(2) by (auto simp: write_disk_def fun_eq_iff map_add_def split: option.split)
qed simp

lemma map_of_rev_distinct: "distinct (map fst xs) \<Longrightarrow> (k, v) \<in> set xs \<Longrightarrow> map_of (rev xs) k = Some v"
  by (rule map_of_is_SomeI) (simp_all add: rev_map [symmetric])

lemma extract_distinct:
  assumes "\<And>p. make_directories lib p" "\<And>p. can_create lib p"
    and "distinct (map fst cs)" "\<And>n c. (n, c) \<in> set cs \<Longrightarrow> \<not> starts_with n ''/''"
  obtains d2 where "extract_zip lib outputDir (map (\<lambda>(n, c). \<lparr>zip_name = n, zip_data = Some c\<rparr>) cs) d = (Returns True, d2)"
    and "\<And>n c. (n, c) \<in> set cs \<Longrightarrow> path_content d2 (path_join outputDir n) = Some c"
proof -
  let ?es = "map (\<lambda>(n, c). \<lparr>zip_name = n, zip_data = Some c\<rparr>) cs"
  let ?xs = "map (\<lambda>(n, c). (path_join outputDir n, c)) cs"
  have es: "map (\<lambda>e. (path_join outputDir (zip_name e), the (zip_data e))) ?es = ?xs"
    by (simp add: comp_def case_prod_unfold)
  have "list_all (\<lambda>e. zip_data e \<noteq> None) ?es" by (auto simp: list_all_iff)
  from extract_zip_ok [of ?es lib outputDir d, OF this assms(1) assms(2)]
  obtain d2 where d2: "extract_zip lib outputDir ?es d = (Returns True, d2)" "path_content d2 = path_content d ++ map_of (rev ?xs)"
    unfolding es by blast
  have rel: "\<not> starts_with n ''/''" if "n \<in> fst ` set cs" for n using that assms(4) by auto
  have "inj_on (path_join outputDir) (fst ` set cs)" 
  proof (rule inj_onI)
    fix m n assume "m \<in> fst ` set cs" "n \<in> fst ` set cs" "path_join outputDir m = path_join outputDir n"
    then show "m = n" using path_join_inj [OF rel rel] by blast
  qed
  then have "distinct (map (path_join outputDir) (map fst cs))" using assms(3) by (simp add: distinct_map del: map_map)
  moreover have "map fst ?xs = map (path_join outputDir) (map fst cs)" by (simp add: comp_def case_prod_unfold)
  ultimately have dist: "distinct (map fst ?xs)" by (simp only:)
  have "path_content d2 (path_join outputDir n) = Some c" if "(n, c) \<in> set cs" for n c
  proof -
    have "(path_join outputDir n, c) \<in> set ?xs" using that by force
    from map_of_rev_distinct [OF dist this] show ?thesis using d2(2) by (simp add: map_add_def)
  qed
  with that d2(1) show ?thesis by blast
qed

subsection \<open>The entries of a 7z archive\<close>





subsection \<open>What is reported\<close>

text \<open>
  An operation hands messages to the logger, and it hands over one when it returns false. They reach
  the log when the switch is on.
\<close>

definition reports :: "disk \<Rightarrow> outcome \<times> disk \<Rightarrow> bool" where
  "reports d r \<longleftrightarrow> settings (snd r) = settings d \<and>
     (\<exists>msgs. quill_calls (logger (snd r)) = quill_calls (logger d) @ (if error_switch d then map (Log Error) msgs else []) \<and>
        (fst r = Returns False \<longrightarrow> msgs \<noteq> []))"

abbreviation same_log :: "disk \<Rightarrow> disk \<Rightarrow> bool" where
  "same_log d d1 \<equiv> settings d1 = settings d \<and> logger d1 = logger d"

lemma reports_same: "same_log d d1 \<Longrightarrow> out \<noteq> Returns False \<Longrightarrow> reports d (out, d1)"
  by (auto simp: reports_def)

lemma quill_report:
  "quill_calls (logger (report msg d)) = quill_calls (logger d) @ (if error_switch d then [Log Error msg] else [])"
  by (simp add: report_eq call_quill_def)

lemma reports_report: "same_log d d1 \<Longrightarrow> reports d (out, report msg d1)"
  unfolding reports_def by (auto simp: quill_report intro!: exI [of _ "[msg]"])

lemma reports_trans:
  assumes "settings d1 = settings d"
    "quill_calls (logger d1) = quill_calls (logger d) @ (if error_switch d then map (Log Error) msgs else [])" "reports d1 r"
  shows "reports d r"
proof -
  from assms(3) obtain more where
    "quill_calls (logger (snd r)) = quill_calls (logger d1) @ (if error_switch d1 then map (Log Error) more else [])"
    "fst r = Returns False \<longrightarrow> more \<noteq> []" by (auto simp: reports_def)
  then show ?thesis using assms unfolding reports_def by (intro conjI exI [of _ "msgs @ more"]) (auto simp: reports_def)
qed

lemma reports_keep: "same_log d d1 \<Longrightarrow> reports d1 r \<Longrightarrow> reports d r"
  by (rule reports_trans [where msgs = "[]"]) simp_all

lemma disk_log [simp]:
  "settings (write_disk p bytes d) = settings d" "logger (write_disk p bytes d) = logger d"
  "settings (remove_disk p d) = settings d" "logger (remove_disk p d) = logger d"
  "settings (zip_close lib lvl output es d) = settings d" "logger (zip_close lib lvl output es d) = logger d"
  by (auto simp: write_disk_def remove_disk_def zip_close_def split: option.split)

lemma create_directories_log: "create_directories lib p d = Some d1 \<Longrightarrow> same_log d d1"
  by (auto simp: create_directories_def split: if_splits)

lemma add_files_reports: "reports d (add_files lib lvl output d fs es)"
  by (induction fs arbitrary: es) (auto simp: reports_same reports_report split: file_status.split)

lemma extract_zip_reports: "reports d (extract_zip lib outputDir es d)"
proof (induction es arbitrary: d)
  case (Cons e es)
  have "reports d (extract_zip lib outputDir es (if b then write_disk p bytes d1 else d1))"
    if "create_directories lib q d = Some d1" for b p bytes q d1
    using create_directories_log [OF that] by (intro reports_keep [OF _ Cons.IH]) simp
  then show ?case by (auto simp: Let_def reports_same reports_report split: option.split)
qed (simp add: reports_same)

lemma extract_members_log:
  "settings (fold (extract_member lib outputDir) ms d) = settings d \<and>
   (\<exists>msgs. quill_calls (logger (fold (extract_member lib outputDir) ms d)) =
      quill_calls (logger d) @ (if error_switch d then map (Log Error) msgs else []))"
proof (induction ms arbitrary: d)
  case (Cons m ms)
  let ?d = "extract_member lib outputDir m d"
  have set: "settings ?d = settings d" by (simp add: extract_member_def Let_def split: prod.split)
  have "\<exists>msgs. quill_calls (logger ?d) = quill_calls (logger d) @ (if error_switch d then map (Log Error) msgs else [])"
    by (auto simp: extract_member_def Let_def quill_report split: prod.split
        intro: exI [of _ "[a]" for a] exI [of _ "[a, b]" for a b])
  then obtain msgs where "quill_calls (logger ?d) = quill_calls (logger d) @ (if error_switch d then map (Log Error) msgs else [])"
    by blast
  with Cons.IH [of ?d] set show ?case by (auto intro: exI [of _ "msgs @ more" for more])
qed (auto intro: exI [of _ "[]"])

lemma formats_report:
  "reports d (compressZip lib fs output lvl d)" "reports d (decompressZip lib archive outputDir d)"
  "reports d (compress7z lib fs output level d)" "reports d (decompress7z lib archive outputDir d)"
proof -
  show "reports d (compressZip lib fs output lvl d)"
    by (simp add: compressZip_def reports_report add_files_reports)
  show "reports d (decompressZip lib archive outputDir d)"
    by (simp add: decompressZip_def reports_report extract_zip_reports split: option.split)
  show "reports d (compress7z lib fs output level d)"
    by (simp add: compress7z_def Let_def reports_report reports_same split: option.split)
  show "reports d (decompress7z lib archive outputDir d)"
    using extract_members_log [of lib outputDir _ d]
    by (auto simp: decompress7z_def reports_report split: option.split) (simp add: reports_def)
qed

lemma compress_reports: "reports d (compress lib fs output fmt lvl d)"
proof -
  let ?d1 = "report (''Compression Error: Output directory does not exist: '' @ parent_path output) d"
  have missing: "reports d r" if "reports ?d1 r" for r
    by (rule reports_trans [where msgs = "[''Compression Error: Output directory does not exist: '' @ parent_path output]", OF _ _ that])
      (simp_all add: quill_report)
  have "reports d1 (if fmt = ''zip'' then compressZip lib fs output lvl d1
      else if fmt = ''7z'' then compress7z lib fs output (word_of_int lvl) d1
      else (Returns False, report msg d1))" for d1 msg
    by (simp add: formats_report reports_report)
  with missing show ?thesis by (simp add: compress_def Let_def reports_same split: file_status.split)
qed

subsection \<open>Properties\<close>

text \<open>(unzip_places). When its entries can be opened and its directories created, an archive is unpacked by writing
  the entries in order to the joins of the directory and their names: an entry with an absolute name
  replaces the file of that name, wherever it is.\<close>

theorem unzip_places:
  assumes "path_content d archive = Some bytes" "zip_decode lib bytes = Some es" "list_all (\<lambda>e. zip_data e \<noteq> None) es"
    and "\<And>p. make_directories lib p" "\<And>e. e \<in> set es \<Longrightarrow> can_create lib (path_join outputDir (zip_name e))"
  shows "\<exists>d2. decompressZip lib archive outputDir d = (Returns True, d2) \<and>
    path_content d2 = path_content d ++ map_of (rev (map (\<lambda>e. (if starts_with (zip_name e) ''/'' then zip_name e
      else path_join outputDir (zip_name e), the (zip_data e))) es))"
proof -
  have "(if starts_with n ''/'' then n else path_join outputDir n) = path_join outputDir n" for n
    by (simp add: path_join_absolute)
  then show ?thesis
    using extract_zip_ok [OF assms(3-5), of d] assms(1,2) by (simp add: decompressZip_def)
qed

theorem unzip_places_witness:
  "let d = \<lparr>path_status = \<lambda>p. Regular, path_content = [''a.zip'' \<mapsto> pack_pairs [(''/etc/passwd'', ''mine''), (''x'', ''y'')]], settings = sample_config, logger = new_qlogger\<rparr>
   in \<exists>d2. decompressZip plain_archivers ''a.zip'' ''out'' d = (Returns True, d2) \<and>
     path_content d2 = path_content d ++ map_of (rev (map (\<lambda>e. (if starts_with (zip_name e) ''/'' then zip_name e
       else path_join ''out'' (zip_name e), the (zip_data e)))
       [\<lparr>zip_name = ''/etc/passwd'', zip_data = Some ''mine''\<rparr>, \<lparr>zip_name = ''x'', zip_data = Some ''y''\<rparr>]))"
  unfolding Let_def
  by (rule unzip_places [where bytes = "pack_pairs [(''/etc/passwd'', ''mine''), (''x'', ''y'')]"])
     (simp_all add: plain_archivers_def unpack_pack_pairs)

text \<open>C26 (zip_roundtrip). Files packed into a zip archive and unpacked again are found under their file names; of
  several files with the same name only the last comes back, although both calls return true.\<close>

theorem zip_roundtrip:
  assumes "zip_law lib" "\<And>es. zip_encode lib lvl es \<noteq> None" "zip_level_ok lib lvl"
    and "\<And>p. can_create lib p" "\<And>p. make_directories lib p" "\<And>n f. zip_add_ok lib n f"
    and "path_status d (parent_path output) \<noteq> Stat_error" "path_extension output = ''.zip''"
    and "\<And>f. f \<in> set fs \<Longrightarrow> path_status d f \<noteq> Stat_error \<and> (path_status d f = Regular \<longrightarrow> path_content d f \<noteq> None)"
    and "f \<in> set fs" "path_status d f = Regular"
  shows "\<exists>d1 d2. compress lib fs output ''zip'' lvl d = (Returns True, d1) \<and>
    decompress lib output outputDir d1 = (Returns True, d2) \<and>
    path_content d2 (path_join outputDir (file_name f)) =
      path_content d (last (filter (\<lambda>g. file_name g = file_name f) (filter (\<lambda>g. path_status d g = Regular) fs)))"
proof -
  let ?fs = "filter (\<lambda>g. path_status d g = Regular) fs" and ?d0 = "if path_status d (parent_path output) = Missing
    then report (''Compression Error: Output directory does not exist: '' @ parent_path output) d else d"
  let ?E = "put_all ?fs []" and ?last = "last (filter (\<lambda>g. file_name g = file_name f) ?fs)"
  have d0: "path_status ?d0 = path_status d" "path_content ?d0 = path_content d" by simp_all
  obtain bytes where bytes: "zip_encode lib lvl (map (\<lambda>(n, f). (n, the (path_content d f))) ?E) = Some bytes"
    using assms(2) by blast
  have "f \<in> set ?fs" using assms(10,11) by simp
  note last = put_all_last [OF this]
  have readable: "path_content d g \<noteq> None" if "(n, g) \<in> set ?E" for n g
    using put_all_entry [OF that] assms(9) by simp
  then have E: "?E \<noteq> []" "\<not> (\<exists>e\<in>set ?E. path_content d (snd e) = None)" using last by (auto simp del: filter_filter)
  let ?d1 = "write_disk output bytes ?d0"
  have close: "zip_close lib lvl output ?E ?d0 = ?d1"
    using bytes unfolding zip_close_def d0 if_not_P [OF E(1)] if_not_P [OF E(2)] by simp
  have c: "compress lib fs output ''zip'' lvl d = (Returns True, ?d1)"
    using assms(3,4,7) add_files_ok [where d = ?d0 and fs = fs and lib = lib and lvl = lvl and es = "[]"] assms(6,9) close d0
    by (cases "path_status d (parent_path output)") (simp_all add: compress_def compressZip_def Let_def)
  let ?cs = "map (\<lambda>(n, f). (n, the (path_content d f))) ?E"
  have "zip_decode lib bytes = Some (map (\<lambda>(n, c). \<lparr>zip_name = n, zip_data = Some c\<rparr>) ?cs)"
    using assms(1) bytes unfolding zip_law_def by blast
  then have dec: "decompress lib output outputDir ?d1 =
      extract_zip lib outputDir (map (\<lambda>(n, c). \<lparr>zip_name = n, zip_data = Some c\<rparr>) ?cs) ?d1"
    using assms(8) by (simp add: decompress_def decompressZip_def write_disk_def)
  have names: "map fst ?cs = map fst ?E" by (simp add: comp_def case_prod_unfold)
  have "distinct (map fst ?cs)" unfolding names by (rule put_all_distinct) simp
  moreover have "\<not> starts_with n ''/''" if "(n, c) \<in> set ?cs" for n c
  proof -
    from that obtain g where "(n, g) \<in> set ?E" by auto
    from put_all_entry [OF this] show ?thesis using file_name_relative by blast
  qed
  ultimately obtain d2 where d2: "extract_zip lib outputDir (map (\<lambda>(n, c). \<lparr>zip_name = n, zip_data = Some c\<rparr>) ?cs) ?d1 =
      (Returns True, d2)" "\<And>n c. (n, c) \<in> set ?cs \<Longrightarrow> path_content d2 (path_join outputDir n) = Some c"
    using extract_distinct [OF assms(5,4), of ?cs outputDir ?d1] by blast
  have "(file_name f, the (path_content d ?last)) \<in> set ?cs" using last by force
  then have "path_content d2 (path_join outputDir (file_name f)) = Some (the (path_content d ?last))" by (rule d2(2))
  also have "\<dots> = path_content d ?last" using readable [OF last] by simp
  finally show ?thesis using c dec d2(1) by auto
qed

theorem zip_roundtrip_witness:
  "let d = \<lparr>path_status = \<lambda>p. if p \<in> {''a/x'', ''b/x''} then Regular else if p = [] then Missing else Directory,
            path_content = [''a/x'' \<mapsto> ''one'', ''b/x'' \<mapsto> ''two''], settings = sample_config, logger = new_qlogger\<rparr>
   in \<exists>d1 d2. compress plain_archivers [''a/x'', ''b/x''] ''o.zip'' ''zip'' 9 d = (Returns True, d1) \<and>
     decompress plain_archivers ''o.zip'' ''out'' d1 = (Returns True, d2) \<and>
     path_content d2 (path_join ''out'' (file_name ''a/x'')) =
       path_content d (last (filter (\<lambda>g. file_name g = file_name ''a/x'')
         (filter (\<lambda>g. path_status d g = Regular) [''a/x'', ''b/x''])))"
  unfolding Let_def
proof (rule zip_roundtrip [OF plain_zip_law])
  show "path_extension ''o.zip'' = ''.zip''" by code_simp
qed (auto simp: plain_archivers_def)



text \<open>C40 (archive_failures_unlogged). Every operation on archives that returns false has handed a message to the error logger, and
  the message reaches the log exactly when the switch is a plain \<open>true\<close>. But no configuration read from
  files has such a switch: on those no failure on an archive leaves a trace in the log.\<close>

theorem archive_failures_unlogged:
  "reports d (compress lib fs output fmt lvl d) \<and> reports d (decompress lib archive outputDir d) \<and>
   reports d (compressDirectory lib directory output fmt d) \<and> reports d (decompressToDirectory lib archive outputDir d) \<and>
   (config_reach j exists (settings d) \<longrightarrow>
     list_all (\<lambda>r. quill_calls (logger (snd r)) = quill_calls (logger d))
       [compress lib fs output fmt lvl d, decompress lib archive outputDir d, compressDirectory lib directory output fmt d,
        decompressToDirectory lib archive outputDir d])"
proof -
  have "reports d (decompress lib archive outputDir d)"
    by (simp add: decompress_def formats_report reports_report reports_same split: file_status.split)
  moreover have "reports d (compressDirectory lib directory output fmt d)"
    by (simp add: compressDirectory_def compress_reports reports_report reports_same split: file_status.split option.split)
  moreover have "quill_calls (logger (snd r)) = quill_calls (logger d)" if "config_reach j exists (settings d)" "reports d r" for r
    using that(2) switch_off [OF that(1), of LOG_ERROR] by (simp add: reports_def)
  ultimately show ?thesis by (simp add: compress_reports decompressToDirectory_def)
qed

theorem archive_failures_unlogged_witness:
  "let d = \<lparr>path_status = \<lambda>p. Missing, path_content = Map.empty, settings = sample_config, logger = new_qlogger\<rparr>;
       r = decompress plain_archivers ''o.7z'' ''out'' d
   in fst r = Returns False \<and> reports d r \<and> quill_calls (logger (snd r)) = quill_calls new_qlogger"
proof -
  let ?d = "\<lparr>path_status = \<lambda>p. Missing, path_content = Map.empty, settings = sample_config, logger = new_qlogger\<rparr>"
  have "config_reach sample_json (\<lambda>p. True) (settings ?d)" using sample_reach by simp
  with archive_failures_unlogged [of ?d plain_archivers "[]" "[]" "''zip''" 9 "''o.7z''" "''out''" "[]" sample_json "\<lambda>p. True"]
  show ?thesis by (simp add: Let_def) (simp add: decompress_def)
qed

text \<open>(zip_loss_unreported). The converse fails: when one of the files cannot be read, the archive is not written at all, and
  still the answer is true and nothing is logged.\<close>

theorem zip_loss_unreported:
  assumes "path_status d (parent_path output) \<notin> {Missing, Stat_error}" "can_create lib output" "zip_level_ok lib lvl"
    and "\<And>f. f \<in> set fs \<Longrightarrow> path_status d f = Regular \<and> zip_add_ok lib (file_name f) f"
    and "distinct (map file_name fs)" "f \<in> set fs" "path_content d f = None"
  shows "compress lib fs output ''zip'' lvl d = (Returns True, d)"
proof -
  have fs: "filter (\<lambda>f. path_status d f = Regular) fs = fs" using assms(4) by (simp add: filter_id_conv)
  have "filter (\<lambda>g. file_name g = file_name f) fs = [f]"
    using assms(5,6) by (induction fs) (auto simp: filter_empty_conv image_iff eq_commute [of "file_name f"])
  then have "(file_name f, f) \<in> set (put_all fs [])" using put_all_last [OF assms(6)] by simp
  then have "zip_close lib lvl output (put_all fs []) d = d" using assms(7) by (force simp: zip_close_def)
  with add_files_ok [where d = d and fs = fs and lib = lib and lvl = lvl and es = "[]"] fs assms(1-4)
  show ?thesis by (cases "path_status d (parent_path output)") (simp_all add: compress_def compressZip_def)
qed

theorem zip_loss_unreported_witness:
  "let d = \<lparr>path_status = \<lambda>p. if p = ''out'' then Directory else Regular, path_content = [''a'' \<mapsto> ''one''], settings = sample_config, logger = new_qlogger\<rparr>
   in compress plain_archivers [''a'', ''b''] ''out/o.zip'' ''zip'' 9 d = (Returns True, d)"
  unfolding Let_def
proof (rule zip_loss_unreported [where f = "''b''"])
  have "parent_path ''out/o.zip'' = ''out''" "distinct (map file_name [''a'', ''b''])" by code_simp+
  then show "path_status \<lparr>path_status = \<lambda>p. if p = ''out'' then Directory else Regular, path_content = [''a'' \<mapsto> ''one''], settings = sample_config, logger = new_qlogger\<rparr>
      (parent_path ''out/o.zip'') \<notin> {Missing, Stat_error}" "distinct (map file_name [''a'', ''b''])" by simp_all
qed (auto simp: plain_archivers_def)

text \<open>(format_refused). A format other than the two names without a dot, such as \<open>.zip\<close>, is refused: nothing is
  written, although the message asks for \<open>.zip\<close> or \<open>.7z\<close>.\<close>

theorem format_refused:
  assumes "fmt \<noteq> ''zip''" "fmt \<noteq> ''7z''"
  shows "fst (compressDirectory lib directory output fmt d) \<noteq> Returns True \<and>
    path_content (snd (compressDirectory lib directory output fmt d)) = path_content d \<and>
    path_status (snd (compressDirectory lib directory output fmt d)) = path_status d"
proof -
  have "fst (compress lib fs output fmt lvl d) \<noteq> Returns True \<and> path_content (snd (compress lib fs output fmt lvl d)) = path_content d \<and>
      path_status (snd (compress lib fs output fmt lvl d)) = path_status d" for fs lvl
    using assms by (auto simp: compress_def Let_def split: file_status.split)
  then show ?thesis by (auto simp: compressDirectory_def split: file_status.split option.split)
qed

theorem format_refused_witness:
  "let d = \<lparr>path_status = \<lambda>p. Directory, path_content = Map.empty, settings = sample_config, logger = new_qlogger\<rparr>
   in fst (compressDirectory plain_archivers ''external'' ''o.zip'' ''.zip'' d) \<noteq> Returns True \<and>
     path_content (snd (compressDirectory plain_archivers ''external'' ''o.zip'' ''.zip'' d)) = path_content d \<and>
     path_status (snd (compressDirectory plain_archivers ''external'' ''o.zip'' ''.zip'' d)) = path_status d"
  unfolding Let_def by (rule format_refused) simp_all

end
