(* ===== verification/Template_Processor.thy ===== *)
theory Template_Processor
  imports Prelude
begin

section \<open>Template processor (\<open>whz_templating.hpp\<close>, \<open>whz_templating.cpp\<close>)\<close>

text \<open>
  A template is read, compiled, and its variables are filled from a database. The template engine and
  the database are parameters. A \<open>std::expected\<close> is a sum with the error message on the left, and
  \<open>None\<close> is a call of \<open>std::terminate\<close>, which is all the two methods of \<open>TemplateDefiner\<close> do. As these
  are placeholders, the loop that uses them is also a function of what they would return.
\<close>

datatype sql_result = Row string | No_row | Sql_error string

record template_processor =
  db :: "string \<Rightarrow> sql_result"
  template_definer :: bool

type_synonym data_context = "string \<Rightarrow> string option"

definition GetTemplateVariables :: "string \<Rightarrow> string list option" where
  "GetTemplateVariables template_file = None"

definition GetSQLForVariable :: "string \<Rightarrow> string option" where
  "GetSQLForVariable variable_name = None"

definition Create ::
  "(string \<Rightarrow> string + (string \<Rightarrow> sql_result)) \<Rightarrow> string \<Rightarrow> string + template_processor" where
  "Create open_db db_path =
     (case open_db (c_str db_path) of
        Inl what \<Rightarrow> Inl (''Failed to open database: '' @ what)
      | Inr d \<Rightarrow> Inr \<lparr>db = d, template_definer = False\<rparr>)"

text \<open>The argument says whether the shared pointer is not null.\<close>

definition SetTemplateDefiner :: "bool \<Rightarrow> template_processor \<Rightarrow> template_processor" where
  "SetTemplateDefiner definer t = t\<lparr>template_definer := definer\<rparr>"

definition ReadTemplateFile :: "(string \<Rightarrow> string option) \<Rightarrow> string \<Rightarrow> string + string" where
  "ReadTemplateFile fs template_file =
     (case fs (c_str template_file) of
        None \<Rightarrow> Inl (''Failed to open template file: '' @ template_file)
      | Some text \<Rightarrow> Inr text)"

definition CompileTemplate :: "(string \<Rightarrow> string + 'fmt) \<Rightarrow> string \<Rightarrow> string + 'fmt" where
  "CompileTemplate engine template_content =
     (case engine template_content of
        Inl what \<Rightarrow> Inl (''Template compilation failed: '' @ what)
      | Inr fmt \<Rightarrow> Inr fmt)"

fun fetch_variables ::
  "(string \<Rightarrow> string option) \<Rightarrow> (string \<Rightarrow> sql_result) \<Rightarrow> string list \<Rightarrow> data_context \<Rightarrow> (string + data_context) option" where
  "fetch_variables sql_of query [] context = Some (Inr context)"
| "fetch_variables sql_of query (var # vs) context =
     (case sql_of var of
        None \<Rightarrow> None
      | Some sql \<Rightarrow>
          (case query sql of
             Row col \<Rightarrow> fetch_variables sql_of query vs (context(var := Some col))
           | No_row \<Rightarrow> fetch_variables sql_of query vs (context(var := Some []))
           | Sql_error what \<Rightarrow> Some (Inl (''SQL execution error for variable '' @ [CHR 0x27] @ var @ [CHR 0x27] @ '': '' @ what))))"

definition FetchData :: "template_processor \<Rightarrow> string \<Rightarrow> (string + data_context) option" where
  "FetchData t template_file =
     (if \<not> template_definer t then Some (Inl ''Template definer not set.'')
      else case GetTemplateVariables template_file of
             None \<Rightarrow> None
           | Some vars \<Rightarrow> fetch_variables GetSQLForVariable (db t) vars Map.empty)"

definition ProcessTemplate ::
  "(string \<Rightarrow> string option) \<Rightarrow> (string \<Rightarrow> string + 'fmt) \<Rightarrow> template_processor \<Rightarrow> string \<Rightarrow> (string + string) option" where
  "ProcessTemplate fs engine t template_file =
     (case ReadTemplateFile fs template_file of
        Inl err \<Rightarrow> Some (Inl err)
      | Inr template_content \<Rightarrow>
          (case CompileTemplate engine template_content of
             Inl err \<Rightarrow> Some (Inl err)
           | Inr fmt \<Rightarrow>
               (case FetchData t template_file of
                  None \<Rightarrow> None
                | Some (Inl err) \<Rightarrow> Some (Inl err)
                | Some (Inr data) \<Rightarrow> Some (Inl ''FIXME''))))"

text \<open>The access of the engine to the fetched data: what the handler is called with.\<close>

definition context_get :: "data_context \<Rightarrow> string \<Rightarrow> string option" where
  "context_get self key = self key"

subsection \<open>Fetching and processing\<close>

text \<open>With a definer that answers, and when no query fails, every variable gets
  the first column of its query, or the empty string when the query has no row.\<close>

lemma fetched_data:
  assumes "\<And>v. v \<in> set vars \<Longrightarrow> \<exists>sql. sql_of v = Some sql \<and> (query sql = No_row \<or> (\<exists>c. query sql = Row c))"
  shows "\<exists>context. fetch_variables sql_of query vars init = Some (Inr context) \<and>
    (\<forall>v. context_get context v =
      (if v \<in> set vars then Some (case query (the (sql_of v)) of Row c \<Rightarrow> c | _ \<Rightarrow> []) else init v))"
  using assms
proof (induction vars arbitrary: init)
  case (Cons v vars)
  from Cons.prems [of v] obtain sql where sql: "sql_of v = Some sql" "query sql = No_row \<or> (\<exists>c. query sql = Row c)"
    by auto
  let ?col = "case query sql of Row c \<Rightarrow> c | _ \<Rightarrow> []"
  have step: "fetch_variables sql_of query (v # vars) init = fetch_variables sql_of query vars (init(v := Some ?col))"
    using sql by auto
  obtain ctx where "fetch_variables sql_of query vars (init(v := Some ?col)) = Some (Inr ctx)"
    "\<forall>w. context_get ctx w = (if w \<in> set vars then Some (case query (the (sql_of w)) of Row c \<Rightarrow> c | _ \<Rightarrow> [])
       else (init(v := Some ?col)) w)"
    using Cons.IH [of "init(v := Some ?col)"] Cons.prems by (force simp del: fun_upd_apply)
  then show ?case unfolding step using sql(1) by auto
qed (simp add: context_get_def)

lemma ProcessTemplate_eq:
  "ProcessTemplate fs engine t file =
     (case fs (c_str file) of
        None \<Rightarrow> Some (Inl (''Failed to open template file: '' @ file))
      | Some text \<Rightarrow>
          (case engine text of
             Inl what \<Rightarrow> Some (Inl (''Template compilation failed: '' @ what))
           | Inr fmt \<Rightarrow> (if template_definer t then None else Some (Inl ''Template definer not set.''))))"
  by (simp add: ProcessTemplate_def ReadTemplateFile_def CompileTemplate_def FetchData_def GetTemplateVariables_def
      split: option.split sum.split)

subsection \<open>Properties\<close>

text \<open>(template_never_rendered). No template is ever rendered: the answer is an error message, or, once a definer is set
  and the file can be read and compiled, the process is terminated.\<close>

theorem template_never_rendered:
  "ProcessTemplate fs engine t file =
     (case fs (c_str file) of
        None \<Rightarrow> Some (Inl (''Failed to open template file: '' @ file))
      | Some text \<Rightarrow>
          (case engine text of
             Inl what \<Rightarrow> Some (Inl (''Template compilation failed: '' @ what))
           | Inr fmt \<Rightarrow> (if template_definer t then None else Some (Inl ''Template definer not set.''))))"
  by (rule ProcessTemplate_eq)

end
