(* ===== verification/Vcard.thy ===== *)
theory Vcard
  imports Framing
begin

section \<open>vCards (\<open>whz_vcard.hpp\<close>)\<close>

text \<open>
  A card is the list of its properties in the order they were added; its text has one line for each.
  The parameters of a property come from a \<open>std::map\<close>, here the list of its entries in the order of
  the keys. A reference reader takes the text apart again.
\<close>

subsection \<open>The card\<close>

record vcard =
  properties :: "(string \<times> string) list"

definition emplace_property :: "string \<Rightarrow> string \<Rightarrow> vcard \<Rightarrow> vcard" where
  "emplace_property name value c = c\<lparr>properties := properties c @ [(name, value)]\<rparr>"

definition addProperty :: "string \<Rightarrow> string \<Rightarrow> vcard \<Rightarrow> vcard" where
  "addProperty name value c = emplace_property name value c"

definition new_vcard :: vcard where
  "new_vcard = addProperty ''VERSION'' ''4.0'' \<lparr>properties = []\<rparr>"

definition param_text :: "(string \<times> string) list \<Rightarrow> string" where
  "param_text parameters = concat (map (\<lambda>(key, v). '';'' @ key @ ''='' @ v) parameters)"

definition addProperty_params :: "string \<Rightarrow> (string \<times> string) list \<Rightarrow> string \<Rightarrow> vcard \<Rightarrow> vcard" where
  "addProperty_params name parameters value c =
     emplace_property (name @ param_text parameters @ '':'' @ value) [] c"

text \<open>The loop over the fields of an address, with its flag.\<close>

fun field_text :: "bool \<Rightarrow> string list \<Rightarrow> string" where
  "field_text first [] = []"
| "field_text first (field # fs) = (if \<not> first then '';'' else []) @ field @ field_text False fs"

definition addAddress :: "(string \<times> string) list \<Rightarrow> string list \<Rightarrow> vcard \<Rightarrow> vcard" where
  "addAddress parameters addressFields c =
     emplace_property (''ADR'' @ param_text parameters @ '':'' @ field_text True addressFields) [] c"

definition addRFC6350Field :: "string \<Rightarrow> (string \<times> string) list \<Rightarrow> string \<Rightarrow> vcard \<Rightarrow> vcard" where
  "addRFC6350Field fieldName parameters value c = addProperty_params fieldName parameters value c"

definition property_text :: "string \<times> string \<Rightarrow> string" where
  "property_text = (\<lambda>(name, value). if value \<noteq> [] then name @ '':'' @ value @ [LF] else name @ [LF])"

definition toString :: "vcard \<Rightarrow> string" where
  "toString c = ''BEGIN:VCARD'' @ [LF] @ concat (map property_text (properties c)) @ ''END:VCARD'' @ [LF]"

subsection \<open>A reader of cards\<close>

fun split_on :: "char \<Rightarrow> string \<Rightarrow> string list" where
  "split_on c [] = [[]]"
| "split_on c (x # xs) =
     (if x = c then [] # split_on c xs
      else case split_on c xs of w # ws \<Rightarrow> (x # w) # ws | [] \<Rightarrow> [[x]])"

definition before :: "char \<Rightarrow> string \<Rightarrow> string" where
  "before c s = takeWhile (\<lambda>d. d \<noteq> c) s"

definition behind :: "char \<Rightarrow> string \<Rightarrow> string option" where
  "behind c s = (case dropWhile (\<lambda>d. d \<noteq> c) s of [] \<Rightarrow> None | _ # t \<Rightarrow> Some t)"

text \<open>A content line: its name, its parameters and its value, absent if there is no colon.\<close>

type_synonym content_line = "string \<times> (string \<times> string option) list \<times> string option"

definition parse_line :: "string \<Rightarrow> content_line" where
  "parse_line l =
     (let fields = split_on (CHR '';'') (before (CHR '':'') l)
      in (hd fields, map (\<lambda>p. (before (CHR ''='') p, behind (CHR ''='') p)) (tl fields), behind (CHR '':'') l))"

definition parse_vcard :: "string \<Rightarrow> content_line list option" where
  "parse_vcard s =
     (let ls = split_on LF s; n = length ls
      in if 3 \<le> n \<and> hd ls = ''BEGIN:VCARD'' \<and> drop (n - 2) ls = [''END:VCARD'', []]
         then Some (map parse_line (take (n - 3) (tl ls))) else None)"

text \<open>The calls of a client, what is legal in them and the line each of them stands for.\<close>

datatype vcard_call =
    Property string string
  | Property_params string "(string \<times> string) list" string
  | Address "(string \<times> string) list" "string list"
  | RFC6350_field string "(string \<times> string) list" string

fun apply_call :: "vcard_call \<Rightarrow> vcard \<Rightarrow> vcard" where
  "apply_call (Property n v) = addProperty n v"
| "apply_call (Property_params n ps v) = addProperty_params n ps v"
| "apply_call (Address ps fs) = addAddress ps fs"
| "apply_call (RFC6350_field n ps v) = addRFC6350Field n ps v"

definition free_of :: "string \<Rightarrow> string \<Rightarrow> bool" where
  "free_of bad s \<longleftrightarrow> list_all (\<lambda>c. c \<notin> set bad) s"

definition legal_name :: "string \<Rightarrow> bool" where
  "legal_name n \<longleftrightarrow> free_of [CHR '':'', CHR '';'', LF] n"

definition legal_params :: "(string \<times> string) list \<Rightarrow> bool" where
  "legal_params ps \<longleftrightarrow>
     list_all (\<lambda>(k, v). free_of [CHR ''='', CHR '':'', CHR '';'', LF] k \<and> free_of [CHR '':'', CHR '';'', LF] v) ps"

fun legal_call :: "vcard_call \<Rightarrow> bool" where
  "legal_call (Property n v) \<longleftrightarrow> legal_name n \<and> free_of [LF] v"
| "legal_call (Property_params n ps v) \<longleftrightarrow> legal_name n \<and> legal_params ps \<and> free_of [LF] v"
| "legal_call (Address ps fs) \<longleftrightarrow> legal_params ps \<and> list_all (free_of [LF]) fs"
| "legal_call (RFC6350_field n ps v) \<longleftrightarrow> legal_name n \<and> legal_params ps \<and> free_of [LF] v"

fun join :: "char \<Rightarrow> string list \<Rightarrow> string" where
  "join c [] = []"
| "join c [w] = w"
| "join c (w # ws) = w @ c # join c ws"

fun call_line :: "vcard_call \<Rightarrow> content_line" where
  "call_line (Property n v) = (n, [], if v = [] then None else Some v)"
| "call_line (Property_params n ps v) = (n, map (map_prod id Some) ps, Some v)"
| "call_line (Address ps fs) = (''ADR'', map (map_prod id Some) ps, Some (join (CHR '';'') fs))"
| "call_line (RFC6350_field n ps v) = (n, map (map_prod id Some) ps, Some v)"

subsection \<open>Splitting\<close>

lemma split_on_not_Nil [simp]: "split_on c s \<noteq> []"
  by (induction s) (auto split: list.split)

lemma split_on_plain: "c \<notin> set w \<Longrightarrow> split_on c w = [w]"
  by (induction w) auto

lemma split_on_append: "c \<notin> set w \<Longrightarrow> split_on c (w @ c # s) = w # split_on c s"
  by (induction w) auto

lemma split_on_lines:
  "list_all (\<lambda>l. c \<notin> set l) ls \<Longrightarrow> split_on c (concat (map (\<lambda>l. l @ [c]) ls)) = ls @ [[]]"
  by (induction ls) (simp_all add: split_on_append)

lemma split_on_params:
  "list_all (\<lambda>p. c \<notin> set p) ps \<Longrightarrow> c \<notin> set w \<Longrightarrow> split_on c (w @ concat (map (\<lambda>p. c # p) ps)) = w # ps"
  by (induction ps arbitrary: w) (simp_all add: split_on_plain split_on_append)

lemma before_behind:
  assumes "c \<notin> set a"
  shows "before c (a @ c # b) = a" "behind c (a @ c # b) = Some b" "before c a = a" "behind c a = None"
proof -
  have all: "\<forall>d\<in>set a. d \<noteq> c" using assms by auto
  then have [simp]: "dropWhile (\<lambda>d. d \<noteq> c) a = []" by (simp add: dropWhile_eq_Nil_conv)
  show "before c (a @ c # b) = a" "behind c (a @ c # b) = Some b" "before c a = a" "behind c a = None"
    using all unfolding before_def behind_def by (simp_all add: takeWhile_eq_all_conv)
qed

lemma free_of_iff: "free_of bad s \<longleftrightarrow> set bad \<inter> set s = {}"
  by (auto simp: free_of_def list_all_iff)

lemma join_Cons: "join c (w # ws) = w @ (if ws = [] then [] else c # join c ws)"
  by (cases ws) simp_all

lemma field_text_join: "field_text True fs = join (CHR '';'') fs"
proof -
  have "field_text False fs = (if fs = [] then [] else CHR '';'' # join (CHR '';'') fs)" for fs
    by (induction "CHR '';''" fs rule: join.induct) simp_all
  then show ?thesis by (cases fs) (simp_all add: join_Cons)
qed

lemma set_join: "set (join c fs) \<subseteq> insert c (\<Union>f\<in>set fs. set f)"
  by (induction c fs rule: join.induct) auto

subsection \<open>One line for each call\<close>

text \<open>The line a call adds, without its line feed.\<close>

definition param_line :: "string \<Rightarrow> (string \<times> string) list \<Rightarrow> string \<Rightarrow> string" where
  "param_line n ps v = n @ param_text ps @ '':'' @ v"

fun raw_line :: "vcard_call \<Rightarrow> string" where
  "raw_line (Property n v) = (if v \<noteq> [] then n @ '':'' @ v else n)"
| "raw_line (Property_params n ps v) = param_line n ps v"
| "raw_line (Address ps fs) = param_line ''ADR'' ps (join (CHR '';'') fs)"
| "raw_line (RFC6350_field n ps v) = param_line n ps v"

lemma apply_call_text:
  "concat (map property_text (properties (apply_call call c))) =
   concat (map property_text (properties c)) @ raw_line call @ [LF]"
  by (cases call)
     (simp_all add: addProperty_def addProperty_params_def addAddress_def addRFC6350Field_def emplace_property_def
        property_text_def param_line_def field_text_join)

lemma apply_calls_text:
  "concat (map property_text (properties (fold apply_call calls c))) =
   concat (map property_text (properties c)) @ concat (map (\<lambda>call. raw_line call @ [LF]) calls)"
  by (induction calls arbitrary: c) (simp_all add: apply_call_text)

lemma toString_lines:
  "toString (fold apply_call calls new_vcard) =
   concat (map (\<lambda>l. l @ [LF]) (''BEGIN:VCARD'' # map raw_line (Property ''VERSION'' ''4.0'' # calls) @ [''END:VCARD'']))"
proof -
  have "concat (map property_text (properties new_vcard)) = raw_line (Property ''VERSION'' ''4.0'') @ [LF]"
    by (simp add: new_vcard_def addProperty_def emplace_property_def property_text_def)
  then show ?thesis unfolding toString_def apply_calls_text by (simp add: comp_def)
qed

lemma param_text_eq: "param_text ps = concat (map (\<lambda>p. CHR '';'' # p) (map (\<lambda>(k, v). k @ ''='' @ v) ps))"
  by (simp add: param_text_def comp_def case_prod_unfold)

lemma legal_params_free:
  assumes "legal_params ps"
  shows "free_of [LF, CHR '':''] (param_text ps)" "list_all (\<lambda>p. CHR '';'' \<notin> set p) (map (\<lambda>(k, v). k @ ''='' @ v) ps)"
  using assms by (auto simp: legal_params_def param_text_def free_of_iff list_all_iff)

lemma parse_param_line:
  assumes "legal_name n" "legal_params ps"
  shows "parse_line (param_line n ps v) = (n, map (map_prod id Some) ps, Some v)"
proof -
  have colon: "CHR '':'' \<notin> set (n @ param_text ps)"
    using assms legal_params_free(1) [OF assms(2)] by (auto simp: legal_name_def free_of_iff)
  have fields: "split_on (CHR '';'') (n @ param_text ps) = n # map (\<lambda>(k, v). k @ ''='' @ v) ps"
    unfolding param_text_eq
    by (rule split_on_params) (use assms legal_params_free(2) in \<open>auto simp: legal_name_def free_of_iff\<close>)
  have eq: "(before (CHR ''='') (k @ ''='' @ w), behind (CHR ''='') (k @ ''='' @ w)) = (k, Some w)"
    if "(k, w) \<in> set ps" for k w
    using that assms(2) by (auto simp: legal_params_def list_all_iff free_of_iff before_behind)
  have "param_line n ps v = (n @ param_text ps) @ CHR '':'' # v" by (simp add: param_line_def)
  then have "before (CHR '':'') (param_line n ps v) = n @ param_text ps" "behind (CHR '':'') (param_line n ps v) = Some v"
    using before_behind(1,2) [OF colon] by simp_all
  then show ?thesis using eq by (auto simp: parse_line_def fields)
qed

lemma parse_raw_line: "legal_call call \<Longrightarrow> parse_line (raw_line call) = call_line call"
proof (cases call)
  case (Property n v)
  assume "legal_call call"
  then show ?thesis using Property parse_param_line [of n "[]" v]
    by (auto simp: parse_line_def before_behind split_on_plain legal_name_def legal_params_def free_of_iff param_line_def
        param_text_def)
next
  case (Address ps fs)
  assume "legal_call call"
  then show ?thesis using Address parse_param_line [of "''ADR''" ps "join (CHR '';'') fs"]
    by (simp add: legal_name_def free_of_def)
qed (simp_all add: parse_param_line)

lemma raw_line_no_LF: "legal_call call \<Longrightarrow> LF \<notin> set (raw_line call)"
proof (cases call)
  case (Address ps fs)
  assume "legal_call call"
  then show ?thesis using Address set_join [of "CHR '';''" fs] legal_params_free(1) [of ps]
    by (auto simp: param_line_def free_of_iff list_all_iff)
qed (use legal_params_free(1) in \<open>auto simp: param_line_def legal_name_def free_of_iff\<close>)

lemma parse_toString:
  assumes "list_all legal_call calls"
  shows "parse_vcard (toString (fold apply_call calls new_vcard)) =
    Some ((''VERSION'', [], Some ''4.0'') # map call_line calls)"
proof -
  let ?v = "Property ''VERSION'' ''4.0''"
  have legal: "list_all legal_call (?v # calls)" using assms by (simp add: legal_name_def free_of_def)
  then have "list_all (\<lambda>l. LF \<notin> set l) (''BEGIN:VCARD'' # map raw_line (?v # calls) @ [''END:VCARD''])"
    by (auto simp: list_all_iff dest: raw_line_no_LF)
  from split_on_lines [OF this]
  have "split_on LF (toString (fold apply_call calls new_vcard)) =
      ''BEGIN:VCARD'' # map raw_line (?v # calls) @ [''END:VCARD'', []]"
    unfolding toString_lines by simp
  moreover have "map parse_line (map raw_line (?v # calls)) = map call_line (?v # calls)"
    using legal by (auto simp: list_all_iff parse_raw_line simp del: raw_line.simps call_line.simps)
  ultimately show ?thesis by (simp add: parse_vcard_def Let_def)
qed

interpretation card_text: text_codec "\<lambda>calls. toString (fold apply_call calls new_vcard)" parse_vcard
    "\<lambda>calls. (''VERSION'', [], Some ''4.0'') # map call_line calls" "list_all legal_call"
  by unfold_locales (rule parse_toString)

subsection \<open>Properties\<close>

text \<open>C29 (vcard_roundtrip). A card built by any calls with legal names and values reads back as the version line
  followed by one line for each call, in their order, with its name, parameters and value; a property
  added with an empty value has no value, not an empty one.\<close>

theorem vcard_roundtrip:
  assumes "list_all legal_call calls"
  shows "parse_vcard (toString (fold apply_call calls new_vcard)) =
    Some ((''VERSION'', [], Some ''4.0'') # map call_line calls)"
  by (rule card_text.dec_enc) fact

theorem vcard_roundtrip_witness:
  "let calls = [Property ''FN'' ''John Doe'', Property_params ''EMAIL'' [(''TYPE'', ''work'')] ''john@example.com'',
     Address [(''TYPE'', ''home'')] [[], [], ''123 Main St''], RFC6350_field ''URL'' [] []]
   in list_all legal_call calls \<and>
     parse_vcard (toString (fold apply_call calls new_vcard)) =
       Some ((''VERSION'', [], Some ''4.0'') # map call_line calls)"
  unfolding Let_def
  by (intro conjI vcard_roundtrip) (simp_all add: legal_name_def legal_params_def free_of_def)

end
