(* ===== verification/Utils.thy ===== *)
theory Utils
  imports Prelude
begin

section \<open>String utilities (\<open>whz_utils.hpp\<close>)\<close>

text \<open>
  \<open>sanitize_utf8_string\<close> decodes its input with the codecvt facet of the standard library, whose
  answer to ill-formed input differs between versions: the decoder is a parameter (\<open>None\<close> when it
  throws \<open>range_error\<close>), the encoder is UTF-8. Code points are naturals. The two conversions between
  strings and UTF-8 strings go through 32-bit wide characters, with the sign extension of \<open>char\<close>.
\<close>

unbundle bit_operations_syntax

subsection \<open>Sanitizing\<close>

definition is_printable :: "nat \<Rightarrow> bool" where
  "is_printable c \<longleftrightarrow> 0x20 \<le> c \<and> c \<le> 0x7E \<or> 0xA0 \<le> c \<and> c \<le> 0x10FFFF"

definition to_bytes :: "nat \<Rightarrow> string" where
  "to_bytes c =
     (if c < 0x80 then [char_of c]
      else if c < 0x800 then [char_of (0xC0 + c div 64), char_of (0x80 + c mod 64)]
      else if c < 0x10000
      then [char_of (0xE0 + c div 4096), char_of (0x80 + c div 64 mod 64), char_of (0x80 + c mod 64)]
      else [char_of (0xF0 + c div 262144), char_of (0x80 + c div 4096 mod 64), char_of (0x80 + c div 64 mod 64),
            char_of (0x80 + c mod 64)])"

fun hex_string :: "nat \<Rightarrow> string" where
  "hex_string n = (let d = (\<lambda>k. char_of (if k < 10 then 48 + k else 87 + k))
     in if n < 16 then [d n] else hex_string (n div 16) @ [d (n mod 16)])"

declare hex_string.simps [simp del]

text \<open>\<open>setw(4) << setfill('0') << hex\<close>\<close>

definition escape :: "nat \<Rightarrow> string" where
  "escape c = [CHR 0x5C, CHR ''u''] @ replicate (4 - length (hex_string c)) (CHR ''0'') @ hex_string c"

definition sanitize_char :: "nat \<Rightarrow> string" where
  "sanitize_char c = (if is_printable c then to_bytes c else escape c)"

definition sanitize_utf8_string :: "(string \<Rightarrow> nat list option) \<Rightarrow> string \<Rightarrow> string" where
  "sanitize_utf8_string from_bytes input =
     concat (map sanitize_char (case from_bytes input of None \<Rightarrow> [0xFFFD] | Some utf32 \<Rightarrow> utf32))"

subsection \<open>Wide characters\<close>

definition widen :: "char \<Rightarrow> u32" where
  "widen c = word_of_int (char_int c)"

definition stringToU8String :: "string \<Rightarrow> u8 list" where
  "stringToU8String str = map ucast (map widen str)"

definition u8StringToString :: "u8 list \<Rightarrow> string" where
  "u8StringToString u8str = map (\<lambda>w. char_of (unat (ucast w :: u8))) (map (ucast :: u8 \<Rightarrow> u32) u8str)"

subsection \<open>Printable bytes\<close>

text \<open>A byte that is no control character.\<close>

definition clean_byte :: "char \<Rightarrow> bool" where
  "clean_byte c \<longleftrightarrow> 32 \<le> (of_char c :: nat) \<and> (of_char c :: nat) \<noteq> 127"

lemma clean_char_of: "32 \<le> (n :: nat) \<Longrightarrow> n < 256 \<Longrightarrow> n \<noteq> 127 \<Longrightarrow> clean_byte (char_of n)"
  by (simp add: clean_byte_def)

lemma to_bytes_clean: "is_printable c \<Longrightarrow> list_all clean_byte (to_bytes c)"
  by (auto simp: to_bytes_def is_printable_def intro!: clean_char_of)

lemma hex_string_clean: "list_all clean_byte (hex_string n)"
proof (induction n rule: hex_string.induct)
  case (1 n)
  have "clean_byte (char_of (if k < 10 then 48 + k else 87 + k))" if "k < 16" for k :: nat
    using that by (auto intro!: clean_char_of)
  then show ?case using 1 by (subst hex_string.simps) (auto simp: Let_def)
qed

lemma sanitize_char_clean: "list_all clean_byte (sanitize_char c)"
  using hex_string_clean [of c] to_bytes_clean [of c]
  by (auto simp: sanitize_char_def escape_def clean_byte_def list_all_iff)

subsection \<open>Properties\<close>

text \<open>(sanitized_is_clean). The sanitized text never contains a control character, whatever the input and the decoder;
  text made of printable code points comes through unchanged.\<close>

theorem sanitized_is_clean:
  "list_all clean_byte (sanitize_utf8_string from_bytes input) \<and>
   (from_bytes (concat (map to_bytes cs)) = Some cs \<and> list_all is_printable cs \<longrightarrow>
     sanitize_utf8_string from_bytes (concat (map to_bytes cs)) = concat (map to_bytes cs))"
proof (intro conjI impI)
  show "list_all clean_byte (sanitize_utf8_string from_bytes input)"
    using sanitize_char_clean by (auto simp: sanitize_utf8_string_def list_all_iff)
next
  assume "from_bytes (concat (map to_bytes cs)) = Some cs \<and> list_all is_printable cs"
  then show "sanitize_utf8_string from_bytes (concat (map to_bytes cs)) = concat (map to_bytes cs)"
    by (simp add: sanitize_utf8_string_def sanitize_char_def list_all_iff cong: map_cong)
qed

theorem sanitized_is_clean_witness:
  "sanitize_utf8_string (\<lambda>s. Some (map of_char s)) (concat (map to_bytes [72, 105])) = concat (map to_bytes [72, 105])"
  by (rule sanitized_is_clean [THEN conjunct2, THEN mp]) (simp add: to_bytes_def is_printable_def)

lemma narrow_widen: "(ucast (widen c) :: u8) = byte_of c"
proof -
  have "(word_of_int (take_bit 32 i) :: u8) = word_of_int i" for i
    by transfer (simp add: take_bit_take_bit)
  then have "(ucast (word_of_int i :: u32) :: u8) = word_of_int i" for i by (simp add: unsigned_of_int)
  moreover have "(word_of_int (char_int c) :: u8) = of_char c"
  proof -
    have "(word_of_int (int n - 256) :: u8) = word_of_int (int n)" for n
    proof -
      have "(int n - 256) mod 256 = int n mod 256" by simp
      then show ?thesis by transfer (simp add: take_bit_eq_mod)
    qed
    then have "(word_of_int (char_int c) :: u8) = word_of_nat (of_char c)"
      unfolding char_int_nat Let_def by (simp del: of_nat_of_char)
    then show ?thesis by (simp only: of_nat_of_char)
  qed
  ultimately show ?thesis by (simp add: widen_def byte_of_def)
qed

text \<open>(u8_strings_keep_bytes). The conversions between strings and UTF-8 strings keep every byte, and undo each other.\<close>

theorem u8_strings_keep_bytes:
  "stringToU8String s = map byte_of s" "u8StringToString (stringToU8String s) = s" "stringToU8String (u8StringToString u) = u"
proof -
  show a: "stringToU8String s = map byte_of s" for s by (simp add: stringToU8String_def narrow_widen)
  have w: "(ucast (ucast (w :: u8) :: u32) :: u8) = w" for w
    by (rule bit_word_eqI) (simp add: bit_simps)
  have u: "unat (byte_of c) = of_char c" for c
  proof -
    have "(of_char c :: nat) < 2 ^ 8" using nat_of_char_less_256 [of c] by simp
    then have "take_bit 8 (of_char c :: nat) = of_char c" by (rule take_bit_nat_eq_self)
    moreover have "byte_of c = word_of_nat (of_char c)" by (simp only: byte_of_def of_nat_of_char)
    ultimately show ?thesis by (simp add: unsigned_of_nat del: of_nat_of_char)
  qed
  then have c: "char_of (unat (byte_of c)) = c" for c by simp
  have d: "byte_of (char_of (unat w)) = w" for w
  proof -
    have "unat w < 256" using unsigned_less [of w] by simp
    then have "unat (byte_of (char_of (unat w))) = unat w" unfolding u by simp
    then show ?thesis by (simp only: unsigned_word_eqI)
  qed
  show "u8StringToString (stringToU8String s) = s" unfolding a u8StringToString_def by (simp add: w c comp_def)
  show "stringToU8String (u8StringToString u) = u" unfolding a u8StringToString_def by (simp add: w d comp_def)
qed

end
