(* ===== verification/Base64.thy ===== *)
theory Base64
  imports Framing
begin

section \<open>Base64 text (\<open>base64Encode\<close> in \<open>whz_qrcode_generator.hpp\<close>)\<close>

unbundle bit_operations_syntax

text \<open>
  The encoder of the pictures that are embedded in a page. The index of the loop is replaced by the
  rest of the data from the index on; the value of three bytes is a 32-bit word, as in the code. A
  reference decoder is the specification.
\<close>

subsection \<open>The encoder\<close>

definition base64_chars :: string where
  "base64_chars = ''ABCDEFGHIJKLMNOPQRSTUVWXYZabcdefghijklmnopqrstuvwxyz0123456789+/''"

definition base64_char :: "u32 \<Rightarrow> char" where
  "base64_char w = base64_chars ! unat (w AND 0x3F)"

text \<open>One round of the loop, on the bytes from index \<open>i\<close> on.\<close>

definition base64_value :: "u8 \<Rightarrow> u8 list \<Rightarrow> u32" where
  "base64_value d rest =
     (let v0 = push_bit 16 (ucast d);
          v1 = (case rest of b # _ \<Rightarrow> v0 OR push_bit 8 (ucast b) | [] \<Rightarrow> v0)
      in case rest of _ # c # _ \<Rightarrow> v1 OR ucast c | _ \<Rightarrow> v1)"

fun base64Encode :: "u8 list \<Rightarrow> string" where
  "base64Encode [] = []"
| "base64Encode (d # rest) =
     (let v = base64_value d rest
      in [base64_char (drop_bit 18 v), base64_char (drop_bit 12 v),
          (if 1 \<le> length rest then base64_char (drop_bit 6 v) else CHR ''=''),
          (if 2 \<le> length rest then base64_char v else CHR ''='')] @ base64Encode (drop 2 rest))"

text \<open>A reference decoder, with the alphabet as the standard describes it.\<close>

definition sextet :: "char \<Rightarrow> nat option" where
  "sextet c =
     (let n = of_char c :: nat
      in if 65 \<le> n \<and> n \<le> 90 then Some (n - 65)
         else if 97 \<le> n \<and> n \<le> 122 then Some (n - 97 + 26)
         else if 48 \<le> n \<and> n \<le> 57 then Some (n - 48 + 52)
         else if n = 43 then Some 62
         else if n = 47 then Some 63
         else None)"

fun base64_decode :: "string \<Rightarrow> u8 list option" where
  "base64_decode [] = Some []"
| "base64_decode (p # q # r # s # rest) =
     (case (sextet p, sextet q) of
        (Some a, Some b) \<Rightarrow>
          (if r = CHR ''='' \<and> s = CHR ''='' \<and> rest = [] then Some [word_of_nat (a * 4 + b div 16)]
           else case sextet r of
                  None \<Rightarrow> None
                | Some c \<Rightarrow>
                    (if s = CHR ''='' \<and> rest = []
                     then Some [word_of_nat (a * 4 + b div 16), word_of_nat (b mod 16 * 16 + c div 4)]
                     else case sextet s of
                            None \<Rightarrow> None
                          | Some d \<Rightarrow>
                              map_option (\<lambda>t. word_of_nat (a * 4 + b div 16) # word_of_nat (b mod 16 * 16 + c div 4)
                                  # word_of_nat (c mod 4 * 64 + d) # t) (base64_decode rest)))
      | _ \<Rightarrow> None)"
| "base64_decode _ = None"

lemma base64_chars_facts: "length base64_chars = 64" "CHR ''='' \<notin> set base64_chars"
  by code_simp+

lemma sextets: "map sextet base64_chars = map Some [0..<64]"
  by (simp add: base64_chars_def sextet_def upt_rec)

lemma unat_and_63: "unat (w AND 0x3F :: u32) = unat w mod 64"
proof -
  have "w AND 0x3F = take_bit 6 w" by (simp add: take_bit_eq_mask mask_eq_exp_minus_1)
  then have "unat (w AND 0x3F) = take_bit 6 (unat w)" by (simp only: unsigned_take_bit_eq)
  then show ?thesis by (simp add: take_bit_eq_mod)
qed

lemma sextet_base64_char: "sextet (base64_char w) = Some (unat w mod 64)"
proof -
  have "map sextet base64_chars ! (unat w mod 64) = Some (unat w mod 64)" by (simp add: sextets)
  then show ?thesis by (simp add: base64_char_def unat_and_63 base64_chars_facts)
qed

lemma base64_char_not_pad [simp]: "base64_char w \<noteq> CHR ''=''"
proof -
  have "base64_char w \<in> set base64_chars"
    unfolding base64_char_def unat_and_63 by (rule nth_mem) (simp add: base64_chars_facts)
  then show ?thesis using base64_chars_facts(2) by auto
qed

lemma nat_or_shift:
  assumes "b < 2 ^ n"
  shows "push_bit n a OR b = a * 2 ^ n + (b :: nat)"
proof -
  have "\<not> bit (push_bit n a) k \<or> \<not> bit b k" for k
    using assms by (metis bit_push_bit_iff bit_take_bit_iff not_le take_bit_nat_eq_self)
  then have "push_bit n a + b = push_bit n a OR b" by (rule disjunctive_add)
  then show ?thesis by (simp add: push_bit_eq_mult)
qed

lemma unat_byte: "unat (w :: u8) < 256"
  using unsigned_less [of w] by simp

lemma unat_wide: "unat (ucast (w :: u8) :: u32) = unat w"
proof -
  have "unat w < 2 ^ LENGTH(32)" using unat_byte [of w] by simp
  then show ?thesis unfolding unsigned_ucast_eq by (rule take_bit_nat_eq_self)
qed

lemma unat_shifted:
  assumes "n \<le> 16"
  shows "unat (push_bit n (ucast (w :: u8)) :: u32) = push_bit n (unat w)"
proof -
  have "unat w * 2 ^ n < 2 ^ 8 * 2 ^ n" using unat_byte [of w] by simp
  also have "\<dots> = 2 ^ (8 + n)" by (simp only: power_add)
  also have "\<dots> \<le> (2 :: nat) ^ LENGTH(32)" using assms by (intro power_increasing) simp_all
  finally have "push_bit n (unat w) < 2 ^ LENGTH(32)" unfolding push_bit_eq_mult .
  then show ?thesis unfolding unsigned_push_bit_eq unat_wide by (rule take_bit_nat_eq_self)
qed

lemma unat_value:
  "unat (base64_value d []) = unat d * 65536"
  "unat (base64_value d [b]) = unat d * 65536 + unat b * 256"
  "unat (base64_value d (b # c # t)) = unat d * 65536 + unat b * 256 + unat c"
proof -
  have e: "push_bit 16 (unat d) OR push_bit 8 (unat b) = unat d * 65536 + unat b * 256" for d b :: u8
  proof -
    have "push_bit 16 (unat d) = push_bit 8 (push_bit 8 (unat d))" unfolding push_bit_push_bit by simp
    then have "push_bit 16 (unat d) OR push_bit 8 (unat b) = push_bit 8 (push_bit 8 (unat d) OR unat b)"
      by (simp only: push_bit_or)
    also have "\<dots> = (unat d * 2 ^ 8 + unat b) * 2 ^ 8"
      using nat_or_shift [of "unat b" 8 "unat d"] unat_byte [of b] unfolding push_bit_eq_mult by simp
    finally show ?thesis by simp
  qed
  have f: "(unat d * 65536 + unat b * 256) OR unat c = unat d * 65536 + unat b * 256 + unat c" for d b c :: u8
  proof -
    have "unat d * 65536 + unat b * 256 = push_bit 8 (unat d * 256 + unat b)" unfolding push_bit_eq_mult by simp
    with nat_or_shift [of "unat c" 8 "unat d * 256 + unat b"] unat_byte [of c] show ?thesis by simp
  qed
  have s: "unat (push_bit 16 (ucast d) :: u32) = push_bit 16 (unat d)"
      "unat (push_bit 8 (ucast d) :: u32) = push_bit 8 (unat d)" for d :: u8
    by (simp_all only: unat_shifted)
  show "unat (base64_value d []) = unat d * 65536"
    unfolding base64_value_def Let_def list.case s by (simp add: push_bit_eq_mult)
  show "unat (base64_value d [b]) = unat d * 65536 + unat b * 256"
    unfolding base64_value_def Let_def list.case unsigned_or_eq s e ..
  show "unat (base64_value d (b # c # t)) = unat d * 65536 + unat b * 256 + unat c"
    unfolding base64_value_def Let_def list.case unsigned_or_eq s e unat_wide f ..
qed

lemma unat_drop: "unat (drop_bit n w :: u32) = unat w div 2 ^ n"
proof -
  have "unat w < 2 ^ LENGTH(32)" by (rule unsigned_less)
  then have "take_bit LENGTH(32) (unat w) = unat w" by (rule take_bit_nat_eq_self)
  with unsigned_drop_bit_eq [of n w, where ?'a = nat] have "unat (drop_bit n w) = drop_bit n (unat w)" by simp
  then show ?thesis by (simp only: drop_bit_eq_div)
qed

text \<open>The digits of a number to the base 64, and the bytes of three digits to the base 256.\<close>

lemma base64_digits:
  assumes "(b :: nat) < 64" "c < 64" "d < 64" "v = ((a * 64 + b) * 64 + c) * 64 + d"
  shows "v div 2 ^ 18 = a" "v div 2 ^ 12 mod 64 = b" "v div 2 ^ 6 mod 64 = c" "v mod 64 = d"
proof -
  have six: "v div 2 ^ 6 = (a * 64 + b) * 64 + c" using assms by simp
  have "v div 2 ^ 12 = v div 2 ^ 6 div 2 ^ 6" unfolding div_mult2_eq [symmetric] by simp
  then have twelve: "v div 2 ^ 12 = a * 64 + b" unfolding six using assms(2) by simp
  have "v div 2 ^ 18 = v div 2 ^ 12 div 2 ^ 6" unfolding div_mult2_eq [symmetric] by simp
  then show "v div 2 ^ 18 = a" unfolding twelve using assms(1) by simp
  show "v div 2 ^ 12 mod 64 = b" "v div 2 ^ 6 mod 64 = c" "v mod 64 = d"
    unfolding six twelve unfolding assms(4) using assms(1-3) by (simp_all only: mod_mult_self3 mod_less)
qed

lemma base64_bytes:
  assumes "(x :: nat) < 256" "y < 256" "z < 256" "v = x * 65536 + y * 256 + z"
  shows "v div 2 ^ 18 mod 64 * 4 + v div 2 ^ 12 mod 64 div 16 = x"
    "v div 2 ^ 12 mod 64 mod 16 * 16 + v div 2 ^ 6 mod 64 div 4 = y"
    "v div 2 ^ 6 mod 64 mod 4 * 64 + v mod 64 = z"
proof -
  have split: "\<exists>q r. k = m * q + r \<and> r < m" if "0 < m" for k m :: nat
    using that by (metis mult_div_mod_eq mod_less_divisor)
  obtain xa xb where x: "x = 4 * xa + xb" "xb < 4" using split [of 4 x] by auto
  obtain ya yb where y: "y = 16 * ya + yb" "yb < 16" using split [of 16 y] by auto
  obtain za zb where z: "z = 64 * za + zb" "zb < 64" using split [of 64 z] by auto
  have b: "xa < 64" "ya < 16" "za < 4" using assms(1-3) x y z by simp_all
  have "v = ((xa * 64 + (xb * 16 + ya)) * 64 + (yb * 4 + za)) * 64 + zb"
    unfolding assms(4) x(1) y(1) z(1) by simp
  from base64_digits [OF _ _ z(2) this] b x(2) y(2)
  have "v div 2 ^ 18 = xa" "v div 2 ^ 12 mod 64 = xb * 16 + ya" "v div 2 ^ 6 mod 64 = yb * 4 + za" "v mod 64 = zb"
    by simp_all
  then show "v div 2 ^ 18 mod 64 * 4 + v div 2 ^ 12 mod 64 div 16 = x"
    "v div 2 ^ 12 mod 64 mod 16 * 16 + v div 2 ^ 6 mod 64 div 4 = y"
    "v div 2 ^ 6 mod 64 mod 4 * 64 + v mod 64 = z"
    using b x y z by simp_all
qed

lemma decode_group:
  assumes "unat v = unat x * 65536 + unat y * 256 + unat (z :: u8)"
  shows "base64_decode [base64_char (drop_bit 18 v), base64_char (drop_bit 12 v), CHR ''='', CHR ''=''] = Some [x]"
    "base64_decode [base64_char (drop_bit 18 v), base64_char (drop_bit 12 v), base64_char (drop_bit 6 v), CHR ''=''] = Some [x, y]"
    "base64_decode (base64_char (drop_bit 18 v) # base64_char (drop_bit 12 v) # base64_char (drop_bit 6 v) # base64_char v # t)
       = map_option (\<lambda>t. x # y # z # t) (base64_decode t)"
proof -
  have B: "word_of_nat (unat v div 2 ^ 18 mod 64 * 4 + unat v div 2 ^ 12 mod 64 div 16) = x"
    "word_of_nat (unat v div 2 ^ 12 mod 64 mod 16 * 16 + unat v div 2 ^ 6 mod 64 div 4) = y"
    "word_of_nat (unat v div 2 ^ 6 mod 64 mod 4 * 64 + unat v mod 64) = z"
    unfolding base64_bytes [OF unat_byte unat_byte unat_byte assms] by simp_all
  show "base64_decode [base64_char (drop_bit 18 v), base64_char (drop_bit 12 v), CHR ''='', CHR ''=''] = Some [x]"
    using B(1) by (simp add: sextet_base64_char unat_drop)
  show "base64_decode [base64_char (drop_bit 18 v), base64_char (drop_bit 12 v), base64_char (drop_bit 6 v), CHR ''=''] = Some [x, y]"
    using B(1,2) by (simp add: sextet_base64_char unat_drop)
  show "base64_decode (base64_char (drop_bit 18 v) # base64_char (drop_bit 12 v) # base64_char (drop_bit 6 v) # base64_char v # t)
      = map_option (\<lambda>t. x # y # z # t) (base64_decode t)"
    using B by (simp add: sextet_base64_char unat_drop)
qed

lemma decode_base64Encode: "base64_decode (base64Encode data) = Some data"
proof (induction data rule: base64Encode.induct)
  case (2 d rest)
  consider "rest = []" | b where "rest = [b]" | b c t where "rest = b # c # t"
    by (metis list.exhaust)
  then show ?case
  proof cases
    case 1
    then show ?thesis using decode_group(1) [of "base64_value d []" d 0 0] unat_value(1) [of d]
      by (simp add: Let_def del: base64_decode.simps)
  next
    case (2 b)
    then show ?thesis using decode_group(2) [of "base64_value d [b]" d b 0] unat_value(2) [of d b]
      by (simp add: Let_def del: base64_decode.simps)
  next
    case (3 b c t)
    then have "base64_decode (base64Encode t) = Some t" using "2.IH" by (simp add: Let_def numeral_2_eq_2)
    then show ?thesis using 3 decode_group(3) [of "base64_value d (b # c # t)" d b c] unat_value(3) [of d b c t]
      by (simp add: Let_def numeral_2_eq_2 del: base64_decode.simps)
  qed
qed simp

lemma length_base64Encode: "length (base64Encode data) = (length data + 2) div 3 * 4"
proof (induction data rule: base64Encode.induct)
  case (2 d rest)
  consider "length rest < 2" | n where "length rest = n + 2" by (metis add.commute le_Suc_ex not_le)
  then show ?case
  proof cases
    case 1
    then show ?thesis using 2 by (auto simp: Let_def less_Suc_eq numeral_2_eq_2)
  next
    case (2 n)
    have "(n + 2 + 3) div 3 = (n + 2) div 3 + 1" by (rule div_add_self2) simp
    with 2 "2.IH" show ?thesis by (simp add: Let_def add.commute)
  qed
qed simp

interpretation base64: text_codec base64Encode base64_decode "\<lambda>data. data" "\<lambda>_. True"
  by unfold_locales (rule decode_base64Encode)

subsection \<open>Properties\<close>

text \<open>C32 (base64_roundtrip). Encoded data decodes to the data, and the length of the text is four characters for every
  three bytes begun; so different data have different texts.\<close>

theorem base64_roundtrip:
  "base64_decode (base64Encode data) = Some data \<and> length (base64Encode data) = (length data + 2) div 3 * 4 \<and>
   (base64Encode data = base64Encode other \<longleftrightarrow> data = other)"
  using base64.dec_enc [of data] base64.enc_eq_iff [of data other] by (simp add: length_base64Encode)

end
