(* ===== verification/Qrcode.thy ===== *)
theory Qrcode
  imports Base64 "HOL-Library.Signed_Division"
begin

section \<open>QR code images (\<open>whz_qrcode_generator.hpp\<close>)\<close>

text \<open>
  The generator renders a QR code as SVG text, as the rows of a PNG file, or as a base64 text of the
  same picture. The QR encoder and the PNG library are parameters: \<open>encode_text\<close> gives the code for
  a text (\<open>None\<close> when it throws), \<open>png_encode\<close> the bytes of a picture. Coordinates are \<open>int\<close>s; a
  product outside their 32 bits, a division by a zero scale and an access outside a vector would be
  undefined behaviour, and an exception leaving a \<open>noexcept\<close> function ends the process: all of
  these are \<open>None\<close>.
\<close>

record qr_code =
  getSize :: int
  getModule :: "int \<Rightarrow> int \<Rightarrow> bool"

record qr_params =
  scale :: int
  border :: int
  foregroundColor :: string
  backgroundColor :: string
  errorCorrectionLevel :: nat
  maskPattern :: int

definition default_params :: qr_params where
  "default_params =
     \<lparr>scale = 10, border = 4, foregroundColor = ''black'', backgroundColor = ''white'',
      errorCorrectionLevel = 0, maskPattern = - 1\<rparr>"

definition in_int :: "int \<Rightarrow> bool" where
  "in_int i \<longleftrightarrow> - (2 ^ 31) \<le> i \<and> i < 2 ^ 31"

subsection \<open>Pixels\<close>

definition set_dark :: "int \<Rightarrow> u8 list \<Rightarrow> u8 list option" where
  "set_dark i a = (if 0 \<le> i \<and> nat i < length a then Some (a[nat i := 0]) else None)"

definition image_size :: "qr_code \<Rightarrow> qr_params \<Rightarrow> int option" where
  "image_size qr p =
     (let n = getSize qr * scale p + 2 * border p
      in if in_int (getSize qr * scale p) \<and> in_int (2 * border p) \<and> in_int n then Some n else None)"

text \<open>The body of the inner loop of \<open>writePNG\<close>; division truncates as in C++.\<close>

definition row_pixel :: "qr_code \<Rightarrow> qr_params \<Rightarrow> int \<Rightarrow> int \<Rightarrow> u8 list \<Rightarrow> u8 list option" where
  "row_pixel qr p y x row =
     (if y \<ge> 0 then
        (if scale p = 0 then None
         else if y sdiv scale p < getSize qr \<and> x \<ge> 0 \<and> x sdiv scale p < getSize qr then
           (if getModule qr (x sdiv scale p) (y sdiv scale p) then set_dark (x + border p) row else Some row)
         else Some row)
      else Some row)"

definition png_row :: "qr_code \<Rightarrow> qr_params \<Rightarrow> int \<Rightarrow> int \<Rightarrow> u8 list option" where
  "png_row qr p n y =
     fold_opt (row_pixel qr p y) [- border p .. getSize qr * scale p + border p - 1] (replicate (nat n) 255)"

definition png_rows :: "qr_code \<Rightarrow> qr_params \<Rightarrow> u8 list list option" where
  "png_rows qr p =
     (case image_size qr p of
        None \<Rightarrow> None
      | Some n \<Rightarrow>
          (if n < 0 then None
           else fold_opt (\<lambda>y rows. map_option (\<lambda>row. rows @ [row]) (png_row qr p n y))
                  [- border p .. getSize qr * scale p + border p - 1] []))"

text \<open>The four nested loops of \<open>encodeBase64Png\<close>.\<close>

definition set_pixel :: "int \<Rightarrow> int \<Rightarrow> int \<Rightarrow> u8 list \<Rightarrow> u8 list option" where
  "set_pixel n r c img = (if in_int (r * n) then set_dark (r * n + c) img else None)"

definition module_pixels :: "qr_code \<Rightarrow> qr_params \<Rightarrow> int \<Rightarrow> int \<Rightarrow> int \<Rightarrow> u8 list \<Rightarrow> u8 list option" where
  "module_pixels qr p n y x img =
     (if getModule qr x y then
        fold_opt (\<lambda>dy. fold_opt (\<lambda>dx.
            set_pixel n (y * scale p + dy + border p) (x * scale p + dx + border p))
          [0 .. scale p - 1]) [0 .. scale p - 1] img
      else Some img)"

definition base64_image :: "qr_code \<Rightarrow> qr_params \<Rightarrow> u8 list option" where
  "base64_image qr p =
     (case image_size qr p of
        None \<Rightarrow> None
      | Some n \<Rightarrow>
          (if in_int (n * n)
           then fold_opt (\<lambda>y. fold_opt (\<lambda>x. module_pixels qr p n y x) [0 .. getSize qr - 1]) [0 .. getSize qr - 1]
                  (replicate (nat (n * n)) 255)
           else None))"

text \<open>The rows handed to the PNG library: \<open>&image[y * imageSize]\<close> for every \<open>y\<close>.\<close>

definition image_rows :: "nat \<Rightarrow> u8 list \<Rightarrow> u8 list list" where
  "image_rows n img = map (\<lambda>y. take n (drop (y * n) img)) [0..<n]"

subsection \<open>Output\<close>

text \<open>
  The PNG library: \<open>png_header\<close> stands for the calls up to \<open>png_write_info\<close> on an image of the given
  side, \<open>png_body\<close> for the rows and the end. Both say whether they succeeded (or jumped back to
  \<open>setjmp\<close>) and what they have written.
\<close>

record png_library =
  png_header :: "int \<Rightarrow> bool \<times> u8 list"
  png_body :: "int \<Rightarrow> u8 list list \<Rightarrow> bool \<times> u8 list"

text \<open>The result of a writer: the returned flag and the new content of the file, if it was opened.\<close>

definition writePNG :: "png_library \<Rightarrow> bool \<Rightarrow> qr_code \<Rightarrow> qr_params \<Rightarrow> (bool \<times> u8 list option) option" where
  "writePNG lib can_open qr p =
     (if \<not> can_open then Some (False, None)
      else case image_size qr p of
             None \<Rightarrow> None
           | Some n \<Rightarrow>
               (case png_header lib n of
                  (False, written) \<Rightarrow> Some (False, Some written)
                | (True, written) \<Rightarrow>
                    (case png_rows qr p of
                       None \<Rightarrow> None
                     | Some rows \<Rightarrow>
                         (case png_body lib n rows of (ok, bytes) \<Rightarrow> Some (ok, Some (written @ bytes))))))"

definition encodeBase64Png :: "png_library \<Rightarrow> bool \<Rightarrow> qr_code \<Rightarrow> qr_params \<Rightarrow> string option" where
  "encodeBase64Png lib can_open qr p =
     (case image_size qr p of
        None \<Rightarrow> None
      | Some n \<Rightarrow>
          (case base64_image qr p of
             None \<Rightarrow> None
           | Some img \<Rightarrow>
               (if \<not> can_open then Some []
                else case png_header lib n of
                       (False, _) \<Rightarrow> Some []
                     | (True, written) \<Rightarrow>
                         (case png_body lib n (image_rows (nat n) img) of
                            (False, _) \<Rightarrow> Some []
                          | (True, bytes) \<Rightarrow> Some (''data:image/png;base64,'' @ base64Encode (written @ bytes))))))"

definition int_string :: "int \<Rightarrow> string" where
  "int_string i = (if i < 0 then CHR ''-'' # dec_string (nat (- i)) else dec_string (nat i))"

definition svg_module :: "qr_code \<Rightarrow> int \<Rightarrow> int \<Rightarrow> int \<Rightarrow> string" where
  "svg_module qr b y x =
     (if getModule qr x y
      then (if x \<noteq> 0 \<or> y \<noteq> 0 then '' '' else []) @
           ''M'' @ int_string (x + b) @ '','' @ int_string (y + b) @ ''h1v1h-1z''
      else [])"

definition svg_path :: "qr_code \<Rightarrow> int \<Rightarrow> string" where
  "svg_path qr b = concat (map (\<lambda>y. concat (map (svg_module qr b y) [0 .. getSize qr - 1])) [0 .. getSize qr - 1])"

definition svg_text :: "qr_code \<Rightarrow> qr_params \<Rightarrow> string" where
  "svg_text qr p =
     (let side = int_string (getSize qr + border p * 2)
      in ''<svg xmlns='' @ [CHR 0x27] @ ''http://www.w3.org/2000/svg'' @ [CHR 0x27] @
         '' xmlns:xlink='' @ [CHR 0x27] @ ''http://www.w3.org/1999/xlink'' @ [CHR 0x27] @
         '' viewBox='' @ [CHR 0x27] @ ''0 0 '' @ side @ '' '' @ side @ [CHR 0x27] @
         '' stroke='' @ [CHR 0x27] @ ''none'' @ [CHR 0x27] @ ''>'' @ [LF] @
         ''<rect width='' @ [CHR 0x27] @ ''100%'' @ [CHR 0x27] @ '' height='' @ [CHR 0x27] @ ''100%'' @ [CHR 0x27] @
         '' fill='' @ [CHR 0x27] @ backgroundColor p @ [CHR 0x27] @ ''/>'' @ [LF] @
         ''<path d='' @ [CHR 0x27] @ svg_path qr (border p) @ [CHR 0x27] @
         '' fill='' @ [CHR 0x27] @ foregroundColor p @ [CHR 0x27] @ ''/>'' @ [LF] @ ''</svg>'' @ [LF])"

definition writeSVG :: "bool \<Rightarrow> qr_code \<Rightarrow> qr_params \<Rightarrow> (bool \<times> string option) option" where
  "writeSVG can_open qr p =
     (if \<not> can_open then Some (False, None)
      else if in_int (border p * 2) \<and> in_int (getSize qr + border p * 2) then Some (True, Some (svg_text qr p))
      else None)"

text \<open>
  The two public operations. The text goes to the encoder as a C string. The answer of the test for
  the parent directory is not used, but the test throws when the directory cannot be asked for
  (\<open>stat_ok\<close>), and the function is \<open>noexcept\<close>.
\<close>

definition generateQRCode ::
  "(string \<Rightarrow> nat \<Rightarrow> qr_code option) \<Rightarrow> png_library \<Rightarrow> (string \<Rightarrow> bool) \<Rightarrow> (string \<Rightarrow> bool) \<Rightarrow> string \<Rightarrow> string
     \<Rightarrow> string \<Rightarrow> qr_params \<Rightarrow> (bool \<times> u8 list option) option" where
  "generateQRCode encode_text lib stat_ok can_open input outputPath fmt p =
     (if \<not> stat_ok outputPath then None
      else case encode_text (c_str input) (errorCorrectionLevel p) of
        None \<Rightarrow> None
      | Some qr \<Rightarrow>
          (if fmt = ''png'' then writePNG lib (can_open outputPath) qr p
           else if fmt = ''svg''
           then map_option (map_prod id (map_option (map byte_of))) (writeSVG (can_open outputPath) qr p)
           else Some (False, None)))"

definition generateBase64Bitmap ::
  "(string \<Rightarrow> nat \<Rightarrow> qr_code option) \<Rightarrow> png_library \<Rightarrow> bool \<Rightarrow> string \<Rightarrow> qr_params \<Rightarrow> string option" where
  "generateBase64Bitmap encode_text lib can_open input p =
     (case encode_text (c_str input) (errorCorrectionLevel p) of
        None \<Rightarrow> None | Some qr \<Rightarrow> encodeBase64Png lib can_open qr p)"

subsection \<open>What the loops paint\<close>

text \<open>An operation on an array of \<open>n\<close> pixels that makes exactly the pixels of a set dark.\<close>

definition paints :: "nat \<Rightarrow> (u8 list \<Rightarrow> u8 list option) \<Rightarrow> nat set \<Rightarrow> bool" where
  "paints n f S \<longleftrightarrow>
     (\<forall>a. length a = n \<longrightarrow> f a = Some (map (\<lambda>k. if k \<in> S then 0 else a ! k) [0..<n]))"

lemma paints_skip: "paints n Some {}"
  by (auto simp: paints_def intro: nth_equalityI)

lemma paints_set_dark: "0 \<le> i \<Longrightarrow> nat i < n \<Longrightarrow> paints n (set_dark i) {nat i}"
  by (auto simp: paints_def set_dark_def nth_list_update intro!: nth_equalityI)

lemma paints_fold:
  "(\<And>x. x \<in> set xs \<Longrightarrow> paints n (f x) (S x)) \<Longrightarrow> paints n (fold_opt f xs) (\<Union>x\<in>set xs. S x)"
proof (induction xs)
  case Nil
  have "fold_opt f [] = Some" by (rule ext) simp
  then show ?case using paints_skip by simp
next
  case (Cons x xs)
  then have a: "paints n (f x) (S x)" "paints n (fold_opt f xs) (\<Union>x\<in>set xs. S x)" by simp_all
  show ?case unfolding paints_def
  proof (intro allI impI)
    fix a :: "u8 list" assume "length a = n"
    with a show "fold_opt f (x # xs) a = Some (map (\<lambda>k. if k \<in> (\<Union>x\<in>set (x # xs). S x) then 0 else a ! k) [0..<n])"
      by (auto simp: paints_def intro!: nth_equalityI)
  qed
qed

lemma paints_blank:
  assumes "paints n f S"
  shows "f (replicate n 255) = Some (map (\<lambda>k. if k \<in> S then 0 else 255) [0..<n])"
proof -
  have "f (replicate n 255) = Some (map (\<lambda>k. if k \<in> S then 0 else replicate n 255 ! k) [0..<n])"
    using assms unfolding paints_def by simp
  also have "map (\<lambda>k. if k \<in> S then 0 else replicate n (255 :: u8) ! k) [0..<n] = map (\<lambda>k. if k \<in> S then 0 else 255) [0..<n]"
    by (rule map_cong) auto
  finally show ?thesis .
qed

text \<open>The picture: row \<open>r\<close>, column \<open>c\<close>, with the border around the scaled modules.\<close>

definition dark_pixel :: "qr_code \<Rightarrow> qr_params \<Rightarrow> int \<Rightarrow> int \<Rightarrow> bool" where
  "dark_pixel qr p r c \<longleftrightarrow>
     (let y = (r - border p) div scale p; x = (c - border p) div scale p
      in 0 \<le> y \<and> y < getSize qr \<and> 0 \<le> x \<and> x < getSize qr \<and> getModule qr x y)"

definition params_ok :: "qr_code \<Rightarrow> qr_params \<Rightarrow> bool" where
  "params_ok qr p \<longleftrightarrow>
     0 \<le> getSize qr \<and> 0 < scale p \<and> 0 \<le> border p \<and>
     in_int ((getSize qr * scale p + 2 * border p) * (getSize qr * scale p + 2 * border p))"

lemma sdiv_nonneg: "0 \<le> (a :: int) \<Longrightarrow> 0 < b \<Longrightarrow> a sdiv b = a div b"
  by (simp add: signed_divide_int_def sgn_if)

lemma image_size_ok:
  assumes "params_ok qr p"
  shows "image_size qr p = Some (getSize qr * scale p + 2 * border p)"
proof -
  let ?m = "getSize qr * scale p" and ?n = "getSize qr * scale p + 2 * border p"
  have n: "0 \<le> ?m" "0 \<le> ?n" "?m \<le> ?n" "2 * border p \<le> ?n" using assms by (simp_all add: params_ok_def)
  have "?n \<le> ?n * ?n"
    using n(2) by (cases "?n = 0") (simp_all add: mult_le_cancel_left1)
  then have "?n < 2 ^ 31" using assms by (simp add: params_ok_def in_int_def)
  then have "in_int ?n" "in_int ?m" "in_int (2 * border p)" unfolding in_int_def using n by linarith+
  then show ?thesis using n(2) by (simp add: image_size_def)
qed

lemma image_side_nonneg: "params_ok qr p \<Longrightarrow> 0 \<le> getSize qr * scale p + 2 * border p"
  by (simp add: params_ok_def)

lemma png_row_pixels:
  assumes "params_ok qr p" "n = getSize qr * scale p + 2 * border p"
  shows "png_row qr p n (r - border p) = Some (map (\<lambda>c. if dark_pixel qr p r (int c) then 0 else 255) [0..<nat n])"
proof -
  let ?y = "r - border p"
  define S where "S x = (if dark_pixel qr p r (x + border p) then {nat (x + border p)} else {})" for x
  have s: "0 < scale p" "0 \<le> border p" using assms(1) by (simp_all add: params_ok_def)
  have "paints (nat n) (row_pixel qr p ?y x) (S x)" if "x \<in> set [- border p .. getSize qr * scale p + border p - 1]" for x
  proof -
    have x: "0 \<le> x + border p" "nat (x + border p) < nat n" using that assms(2) by auto
    have "row_pixel qr p ?y x = (if dark_pixel qr p r (x + border p) then set_dark (x + border p) else Some)"
      using s by (auto simp: fun_eq_iff row_pixel_def dark_pixel_def Let_def sdiv_nonneg pos_imp_zdiv_nonneg_iff)
    then show ?thesis using x by (simp add: S_def paints_set_dark paints_skip)
  qed
  then have "paints (nat n) (fold_opt (row_pixel qr p ?y) [- border p .. getSize qr * scale p + border p - 1])
      (\<Union>x\<in>set [- border p .. getSize qr * scale p + border p - 1]. S x)" by (rule paints_fold)
  from paints_blank [OF this] have "png_row qr p n ?y = Some (map (\<lambda>k. if k \<in> (\<Union>x\<in>set [- border p .. getSize qr * scale p + border p - 1]. S x)
      then 0 else 255) [0..<nat n])"
    by (simp add: png_row_def)
  moreover have "k \<in> (\<Union>x\<in>set [- border p .. getSize qr * scale p + border p - 1]. S x) \<longleftrightarrow> dark_pixel qr p r (int k)"
    if "k < nat n" for k
  proof
    assume "k \<in> (\<Union>x\<in>set [- border p .. getSize qr * scale p + border p - 1]. S x)"
    then show "dark_pixel qr p r (int k)" by (auto simp: S_def split: if_splits)
  next
    assume "dark_pixel qr p r (int k)"
    then show "k \<in> (\<Union>x\<in>set [- border p .. getSize qr * scale p + border p - 1]. S x)"
      using that assms(2) by (intro UN_I [of "int k - border p"]) (auto simp: S_def)
  qed
  ultimately show ?thesis by simp
qed

lemma fold_collect:
  "(\<And>y. y \<in> set ys \<Longrightarrow> g y = Some (h y)) \<Longrightarrow>
   fold_opt (\<lambda>y rows. map_option (\<lambda>row. rows @ [row]) (g y)) ys acc = Some (acc @ map h ys)"
  by (induction ys arbitrary: acc) simp_all

lemma png_rows_pixels:
  assumes "params_ok qr p" "n = getSize qr * scale p + 2 * border p"
  shows "png_rows qr p =
    Some (map (\<lambda>r. map (\<lambda>c. if dark_pixel qr p (int r) (int c) then 0 else 255) [0..<nat n]) [0..<nat n])"
proof -
  let ?ys = "[- border p .. getSize qr * scale p + border p - 1]"
  let ?row = "\<lambda>r. map (\<lambda>c. if dark_pixel qr p r (int c) then 0 else (255 :: u8)) [0..<nat n]"
  have "png_row qr p n y = Some (?row (y + border p))" for y
    using png_row_pixels [OF assms, of "y + border p"] by simp
  then have "png_rows qr p = Some (map (\<lambda>y. ?row (y + border p)) ?ys)"
    using fold_collect [of ?ys "png_row qr p n" "\<lambda>y. ?row (y + border p)" "[]"] assms image_side_nonneg [OF assms(1)]
    by (simp add: png_rows_def image_size_ok)
  moreover have "map (\<lambda>y. ?row (y + border p)) ?ys = map (\<lambda>r. ?row (int r)) [0..<nat n]"
    by (rule nth_equalityI) (simp_all add: assms(2))
  ultimately show ?thesis by simp
qed

text \<open>A pixel index determines its row and column, and a row its module and the offset in it.\<close>

lemma pixel_index:
  assumes "0 \<le> r" "r < n" "0 \<le> c" "c < (n :: int)"
  shows "0 \<le> r * n" "0 \<le> r * n + c" "r * n + c < n * n" "r * n \<le> n * n"
proof -
  have "(r + 1) * n \<le> n * n" using assms by (intro mult_right_mono) simp_all
  then have a: "r * n + n \<le> n * n" by (simp add: algebra_simps)
  have b: "0 \<le> r * n" using assms by simp
  show "0 \<le> r * n" "0 \<le> r * n + c" "r * n + c < n * n" "r * n \<le> n * n" using a b assms by linarith+
qed

lemma paints_set_pixel:
  assumes "0 \<le> r" "r < n" "0 \<le> c" "c < n" "in_int (n * n)"
  shows "paints (nat (n * n)) (set_pixel n r c) {nat (r * n + c)}"
proof -
  have "in_int (r * n)" using pixel_index [OF assms(1-4)] assms(5) unfolding in_int_def by linarith
  then have "set_pixel n r c = set_dark (r * n + c)" by (simp add: fun_eq_iff set_pixel_def)
  then show ?thesis using pixel_index [OF assms(1-4)] by (simp add: paints_set_dark nat_less_eq_zless)
qed

lemma module_pixels_paint:
  assumes "params_ok qr p" "n = getSize qr * scale p + 2 * border p"
    and "0 \<le> y" "y < getSize qr" "0 \<le> x" "x < getSize qr"
  shows "paints (nat (n * n)) (module_pixels qr p n y x)
    (if getModule qr x y then \<Union>dy\<in>set [0 .. scale p - 1]. \<Union>dx\<in>set [0 .. scale p - 1].
       {nat ((y * scale p + dy + border p) * n + (x * scale p + dx + border p))} else {})"
proof (cases "getModule qr x y")
  case True
  have s: "0 < scale p" "0 \<le> border p" using assms(1) by (simp_all add: params_ok_def)
  have in_range: "0 \<le> z * scale p + d + border p \<and> z * scale p + d + border p < n"
    if "0 \<le> z" "z < getSize qr" "0 \<le> d" "d < scale p" for z d
  proof -
    have "(z + 1) * scale p \<le> getSize qr * scale p" using that s by (intro mult_right_mono) simp_all
    then have "z * scale p + scale p \<le> getSize qr * scale p" by (simp add: algebra_simps)
    moreover have "0 \<le> z * scale p" using that s by simp
    ultimately show ?thesis using that s assms(2) by linarith
  qed
  have bound: "in_int (n * n)" using assms(1,2) by (simp add: params_ok_def)
  have "paints (nat (n * n)) (set_pixel n (y * scale p + dy + border p) (x * scale p + dx + border p))
      {nat ((y * scale p + dy + border p) * n + (x * scale p + dx + border p))}"
    if "dy \<in> set [0 .. scale p - 1]" "dx \<in> set [0 .. scale p - 1]" for dy dx
    using in_range [of y dy] in_range [of x dx] assms(3-6) that bound
    by (intro paints_set_pixel) simp_all
  then have "paints (nat (n * n)) (fold_opt (\<lambda>dy. fold_opt (\<lambda>dx.
      set_pixel n (y * scale p + dy + border p) (x * scale p + dx + border p)) [0 .. scale p - 1]) [0 .. scale p - 1])
    (\<Union>dy\<in>set [0 .. scale p - 1]. \<Union>dx\<in>set [0 .. scale p - 1].
      {nat ((y * scale p + dy + border p) * n + (x * scale p + dx + border p))})"
    by (intro paints_fold)
  moreover have "module_pixels qr p n y x = fold_opt (\<lambda>dy. fold_opt (\<lambda>dx.
      set_pixel n (y * scale p + dy + border p) (x * scale p + dx + border p)) [0 .. scale p - 1]) [0 .. scale p - 1]"
    using True by (simp add: module_pixels_def fun_eq_iff)
  ultimately show ?thesis using True by simp
next
  case False
  then have "module_pixels qr p n y x = Some" by (simp add: module_pixels_def fun_eq_iff)
  with False show ?thesis by (simp add: paints_skip)
qed

lemma dark_pixel_cell:
  assumes "0 < scale p"
  shows "dark_pixel qr p r c \<longleftrightarrow>
    (\<exists>y x dy dx. 0 \<le> y \<and> y < getSize qr \<and> 0 \<le> x \<and> x < getSize qr \<and> getModule qr x y \<and>
       0 \<le> dy \<and> dy < scale p \<and> 0 \<le> dx \<and> dx < scale p \<and>
       r = y * scale p + dy + border p \<and> c = x * scale p + dx + border p)" (is "_ \<longleftrightarrow> ?rhs")
proof
  assume "dark_pixel qr p r c"
  then show ?rhs using assms
    by (intro exI [of _ "(r - border p) div scale p"] exI [of _ "(c - border p) div scale p"]
          exI [of _ "(r - border p) mod scale p"] exI [of _ "(c - border p) mod scale p"])
       (simp add: dark_pixel_def Let_def)
next
  assume ?rhs
  then obtain y x dy dx where *: "0 \<le> y" "y < getSize qr" "0 \<le> x" "x < getSize qr" "getModule qr x y"
      "0 \<le> dy" "dy < scale p" "0 \<le> dx" "dx < scale p"
      "r = y * scale p + dy + border p" "c = x * scale p + dx + border p" by blast
  then have "(r - border p) div scale p = y" "(c - border p) div scale p = x" using assms by simp_all
  with * show "dark_pixel qr p r c" by (simp add: dark_pixel_def)
qed

text \<open>The border keeps every module inside the picture.\<close>

lemma cell_in_range:
  assumes "params_ok qr p" "0 \<le> z" "z < getSize qr" "0 \<le> d" "d < scale p"
  shows "0 \<le> z * scale p + d + border p" "z * scale p + d + border p < getSize qr * scale p + 2 * border p"
proof -
  have s: "0 < scale p" "0 \<le> border p" using assms(1) by (simp_all add: params_ok_def)
  have "(z + 1) * scale p \<le> getSize qr * scale p" using assms s by (intro mult_right_mono) simp_all
  then have "z * scale p + scale p \<le> getSize qr * scale p" by (simp add: algebra_simps)
  moreover have "0 \<le> z * scale p" using assms s by simp
  ultimately show "0 \<le> z * scale p + d + border p"
    "z * scale p + d + border p < getSize qr * scale p + 2 * border p" using assms s by linarith+
qed

lemma index_div_mod:
  assumes "0 \<le> r" "0 \<le> c" "c < (n :: int)"
  shows "int (nat (r * n + c)) div n = r" "int (nat (r * n + c)) mod n = c"
  using assms by (simp_all add: add.commute [of "r * n"])

lemma base64_image_pixels:
  assumes "params_ok qr p" "n = getSize qr * scale p + 2 * border p"
  shows "base64_image qr p =
    Some (map (\<lambda>k. if dark_pixel qr p (int k div n) (int k mod n) then 0 else 255) [0..<nat (n * n)])"
proof -
  let ?I = "set [0 .. getSize qr - 1]" and ?D = "set [0 .. scale p - 1]"
  define cell where "cell y x dy dx = nat ((y * scale p + dy + border p) * n + (x * scale p + dx + border p))" for y x dy dx
  define S where "S = (\<Union>y\<in>?I. \<Union>x\<in>?I. if getModule qr x y then \<Union>dy\<in>?D. \<Union>dx\<in>?D. {cell y x dy dx} else {})"
  have s: "0 < scale p" using assms(1) by (simp add: params_ok_def)
  have "paints (nat (n * n))
      (fold_opt (\<lambda>y. fold_opt (\<lambda>x. module_pixels qr p n y x) [0 .. getSize qr - 1]) [0 .. getSize qr - 1]) S"
    unfolding S_def cell_def using assms by (intro paints_fold module_pixels_paint) simp_all
  from paints_blank [OF this]
  have "base64_image qr p = Some (map (\<lambda>k. if k \<in> S then 0 else 255) [0..<nat (n * n)])"
    using assms by (simp add: base64_image_def image_size_ok params_ok_def)
  moreover have "k \<in> S \<longleftrightarrow> dark_pixel qr p (int k div n) (int k mod n)" if "k < nat (n * n)" for k
  proof
    assume "k \<in> S"
    then obtain y x dy dx where *: "0 \<le> y" "y < getSize qr" "0 \<le> x" "x < getSize qr" "getModule qr x y"
        "0 \<le> dy" "dy < scale p" "0 \<le> dx" "dx < scale p" "k = cell y x dy dx"
      by (auto simp: S_def split: if_splits)
    note y = cell_in_range [OF assms(1) *(1,2,6,7)] and x = cell_in_range [OF assms(1) *(3,4,8,9)]
    have "int k div n = y * scale p + dy + border p" "int k mod n = x * scale p + dx + border p"
      unfolding *(10) cell_def using index_div_mod [OF y(1) x(1), of n] x(2) assms(2) by simp_all
    with * show "dark_pixel qr p (int k div n) (int k mod n)" unfolding dark_pixel_cell [OF s] by blast
  next
    assume "dark_pixel qr p (int k div n) (int k mod n)"
    then obtain y x dy dx where *: "0 \<le> y" "y < getSize qr" "0 \<le> x" "x < getSize qr" "getModule qr x y"
        "0 \<le> dy" "dy < scale p" "0 \<le> dx" "dx < scale p"
        "int k div n = y * scale p + dy + border p" "int k mod n = x * scale p + dx + border p"
      unfolding dark_pixel_cell [OF s] by blast
    have "k = cell y x dy dx" unfolding cell_def *(10) [symmetric] *(11) [symmetric] by simp
    then have "k \<in> (\<Union>dy\<in>?D. \<Union>dx\<in>?D. {cell y x dy dx})"
      using * by (intro UN_I [of dy] UN_I [of dx]) simp_all
    with * show "k \<in> S" unfolding S_def by (intro UN_I [of y] UN_I [of x]) simp_all
  qed
  ultimately show ?thesis by simp
qed

lemma image_rows_map:
  "image_rows n (map f [0..<n * n]) = map (\<lambda>r. map (\<lambda>c. f (r * n + c)) [0..<n]) [0..<n]"
proof -
  have "take n (drop (r * n) (map f [0..<n * n])) = map (\<lambda>c. f (r * n + c)) [0..<n]" if "r < n" for r
  proof -
    have "Suc r * n \<le> n * n" using that by (intro mult_le_mono1) simp
    then have "r * n + n \<le> n * n" by simp
    moreover from this have "r * n \<le> n * n" by linarith
    ultimately show ?thesis by (intro nth_equalityI) (simp_all add: nth_drop)
  qed
  then show ?thesis by (simp add: image_rows_def)
qed

lemma image_rows_pixels:
  assumes "params_ok qr p" "n = getSize qr * scale p + 2 * border p"
  shows "map_option (image_rows (nat n)) (base64_image qr p) = png_rows qr p"
proof -
  have n: "0 \<le> n" using image_side_nonneg assms by simp
  have "int (r * nat n + c) div n = int r" "int (r * nat n + c) mod n = int c" if "c < nat n" for r c
    using that n index_div_mod [of "int r" "int c" n] by (simp_all add: nat_int_add)
  then show ?thesis
    unfolding base64_image_pixels [OF assms] png_rows_pixels [OF assms]
    using n by (simp add: nat_mult_distrib image_rows_map)
qed

subsection \<open>Properties\<close>

text \<open>C28 (png_same_picture). For parameters whose picture fits an \<open>int\<close> the two ways to render a
  picture stay in their arrays and give the same one: the rows written to the file have pixel 0 exactly
  at the dark modules, scaled and shifted by the border, and the embedded text is the base64 form of
  the bytes in that file.\<close>

theorem png_same_picture:
  assumes "params_ok qr p" "n = nat (getSize qr * scale p + 2 * border p)"
  shows "png_rows qr p =
      Some (map (\<lambda>r. map (\<lambda>c. if dark_pixel qr p (int r) (int c) then 0 else 255) [0..<n]) [0..<n]) \<and>
    (\<exists>ok bytes. writePNG lib True qr p = Some (ok, Some bytes) \<and>
       encodeBase64Png lib True qr p =
         Some (if ok then ''data:image/png;base64,'' @ base64Encode bytes else []))"
proof
  let ?n = "getSize qr * scale p + 2 * border p"
  show rows: "png_rows qr p =
      Some (map (\<lambda>r. map (\<lambda>c. if dark_pixel qr p (int r) (int c) then 0 else 255) [0..<n]) [0..<n])"
    using png_rows_pixels [OF assms(1) refl] assms(2) by simp
  obtain img where img: "base64_image qr p = Some img" "png_rows qr p = Some (image_rows n img)"
    using image_rows_pixels [OF assms(1) refl] assms(2) rows by (cases "base64_image qr p") auto
  obtain ok written where h: "png_header lib ?n = (ok, written)" by fastforce
  obtain ok' bytes where b: "png_body lib ?n (image_rows n img) = (ok', bytes)" by fastforce
  show "\<exists>ok bytes. writePNG lib True qr p = Some (ok, Some bytes) \<and>
       encodeBase64Png lib True qr p =
         Some (if ok then ''data:image/png;base64,'' @ base64Encode bytes else [])"
    using img h b assms by (cases ok; cases ok') (auto simp: writePNG_def encodeBase64Png_def image_size_ok)
qed

text \<open>A library that writes the rows one after the other; one module, scale 1, border 1.\<close>

definition raw_library :: png_library where
  "raw_library = \<lparr>png_header = \<lambda>n. (0 < n, []), png_body = \<lambda>n rows. (True, concat rows)\<rparr>"

theorem png_same_picture_witness:
  "let qr = \<lparr>getSize = 1, getModule = \<lambda>x y. True\<rparr>; p = default_params\<lparr>scale := 1, border := 1\<rparr>
   in params_ok qr p \<and>
     (\<exists>ok bytes. writePNG raw_library True qr p = Some (ok, Some bytes) \<and>
        encodeBase64Png raw_library True qr p =
          Some (if ok then ''data:image/png;base64,'' @ base64Encode bytes else []))"
  using png_same_picture [of "\<lparr>getSize = 1, getModule = \<lambda>x y. True\<rparr>" "default_params\<lparr>scale := 1, border := 1\<rparr>"
      3 raw_library]
  by (simp add: params_ok_def default_params_def in_int_def)

end
