(* ===== verification/Entry_Point.thy ===== *)
theory Entry_Point
  imports Server Qlogger Localization Encryption Compression Template_Processor Vcard Utils Qrcode
begin

section \<open>The entry point (\<open>whz-core.cpp\<close>)\<close>

text \<open>
  \<open>main\<close> reads the configuration, runs through a demonstration of every component and then starts the
  server. It catches nothing, so an exception ends the process (\<open>Terminated\<close>), as \<open>std::terminate\<close>
  does; \<open>Undefined\<close> is undefined behaviour in one of the calls. Each block of \<open>main\<close> is a stage that
  ends the process or hands on its state. The libraries are the parameters of the components,
  collected in a record. The files the encryption block works on (\<open>world\<close>) and those of the
  compression block (\<open>disk\<close>) have different names and are kept apart; the object of that block has a
  logger of its own, which reads the one configuration. \<open>m_console\<close> is what \<open>main\<close>
  itself writes to the standard output, one entry for each output statement, without empty lines; what
  goes to the standard error and what the components print is left out.
\<close>

datatype main_end = Exited int | Terminated | Undefined | Serving server

record 'e libraries =
  json :: "'e json_api"
  config_exists :: "string \<Rightarrow> bool"
  catalogue :: "locale_value option \<Rightarrow> string \<Rightarrow> string"
  utf8_to_latin1 :: "string \<Rightarrow> string"
  latin1_to_utf8 :: "string \<Rightarrow> string"
  validate_utf8 :: "string \<Rightarrow> bool"
  code_points :: "string \<Rightarrow> nat list option"
  crypto :: sodium
  twister :: "u32 \<Rightarrow> nat \<Rightarrow> u8"
  random_device :: u32
  sign_keypair :: "string \<times> string"
  archives :: archivers
  open_database :: "string \<Rightarrow> string + (string \<Rightarrow> sql_result)"
  template_files :: "string \<Rightarrow> string option"
  template_engine :: "string \<Rightarrow> string + unit"
  qr_encode :: "string \<Rightarrow> nat \<Rightarrow> qr_code option"
  png :: png_library
  parent_can_be_asked :: "string \<Rightarrow> bool"
  image_can_open :: "string \<Rightarrow> bool"
  temporary_file :: bool
  network :: net

record main_state =
  m_config :: config
  m_log :: qlogger
  m_loc :: localization
  m_world :: world
  m_disk :: disk
  m_console :: "string list"

type_synonym stage = "main_state \<Rightarrow> main_end + main_state"

definition then_stage :: "main_end + main_state \<Rightarrow> stage \<Rightarrow> main_end + main_state" where
  "then_stage m f = (case m of Inl e \<Rightarrow> Inl e | Inr s \<Rightarrow> f s)"

definition log_info :: "string \<Rightarrow> stage" where
  "log_info msg s =
     (case info (m_config s) msg (m_log s) of Inl e \<Rightarrow> Inl Terminated | Inr q \<Rightarrow> Inr (s\<lparr>m_log := q\<rparr>))"

definition log_failure :: "string \<Rightarrow> stage" where
  "log_failure msg s =
     (case error (m_config s) msg (m_log s) of Inl e \<Rightarrow> Inl Terminated | Inr q \<Rightarrow> Inr (s\<lparr>m_log := q\<rparr>))"

text \<open>Output to the console.\<close>

definition cout :: "string list \<Rightarrow> main_state \<Rightarrow> main_state" where
  "cout lines s = s\<lparr>m_console := m_console s @ lines\<rparr>"

definition print_out :: "string list \<Rightarrow> stage" where
  "print_out lines s = Inr (cout lines s)"

definition valid_word :: "bool \<Rightarrow> string" where
  "valid_word b = (if b then ''Valid'' else ''Invalid'')"

subsection \<open>The blocks\<close>

text \<open>The command line parser either wants to leave with an exit code or gives the path, which may be empty.\<close>

definition read_configuration :: "'e libraries \<Rightarrow> int + string \<Rightarrow> stage" where
  "read_configuration l cli s =
     (case cli of
        Inl code \<Rightarrow> Inl (Exited code)
      | Inr config_path \<Rightarrow>
          (case read_config (json l) (config_exists l)
                  (if config_path = [] then ''whz_config.json'' else config_path) (m_config s) of
             Inl e \<Rightarrow> Inl Terminated
           | Inr (False, c) \<Rightarrow> Inl (Exited 1)
           | Inr (True, c) \<Rightarrow>
               Inr (cout ([''Before Config reading...''] @
                   (if config_path = [] then [] else [''Using the provided config file-path: '' @ config_path]) @
                   [''After successful Config reading...'']) (s\<lparr>m_config := c, m_log := new_qlogger\<rparr>))))"

definition show_localization :: "'e libraries \<Rightarrow> stage" where
  "show_localization l s =
     (let m1 = switchLocale ''en_US'' (addLocale ''path/to/locale'' ''messages'' ''de_DE''
                 (addLocale ''path/to/locale'' ''messages'' ''en_US'' (m_loc s)));
          translated_en = translate (catalogue l) ''Hello, my World!'' m1;
          m2 = switchLocale ''de_DE'' m1;
          translated_de = translate (catalogue l) ''Hallo, meine Welt!'' m2
      in case (toLatin1 (utf8_to_latin1 l) translated_en, toLatin1 (utf8_to_latin1 l) translated_de) of
           (Some en, Some de) \<Rightarrow>
             (case toUtf8 (latin1_to_utf8 l) de of
                None \<Rightarrow> Inl Undefined
              | Some utf8_from_latin1 \<Rightarrow>
                  Inr (cout [''Testing Localization Manager'', ''UTF-8: '' @ translated_en, ''Latin1: '' @ en,
                      ''UTF-8: '' @ translated_de, ''Latin1: '' @ de, ''UTF-8 from Latin1: '' @ utf8_from_latin1,
                      ''Is valid UTF-8: '' @ (if isValidUtf8 (validate_utf8 l) translated_de then ''true'' else ''false'')]
                    (s\<lparr>m_loc := m2\<rparr>)))
         | _ \<Rightarrow> Inl Undefined)"

definition show_encryption :: "'e libraries \<Rightarrow> stage" where
  "show_encryption l s =
     (case generateKeyPair (crypto l) ([], []) (new_encryption (crypto l) (m_world s)) of
        ((publicKey, secretKey), w1) \<Rightarrow>
          (case validateKeyPair (crypto l) publicKey secretKey w1 of
             None \<Rightarrow> Inl Undefined
           | Some (key_valid, w2) \<Rightarrow>
               (let (hashed_password, w3) = hashPassword (crypto l) ''secure_password123'' w2;
                    is_valid = verifyPassword (crypto l) hashed_password ''secure_password123'';
                    csrf_token = createCSRFToken (twister l) (random_device l);
                    publicKey2 = random_buf (crypto l) (draws w3) (public_bytes (crypto l))
                in case encryptFile (crypto l) ''whz_config.json'' publicKey2 (drawn w3) of
                     None \<Rightarrow> Inl Undefined
                   | Some w4 \<Rightarrow>
                       (case createSignedMessage (crypto l) ''This is a secure message.'' (snd (sign_keypair l)) of
                          None \<Rightarrow> Inl Undefined
                        | Some signed_message \<Rightarrow>
                            (case verifySignedMessage (crypto l) signed_message (fst (sign_keypair l)) w4 of
                               None \<Rightarrow> Inl Undefined
                             | Some (verified_message, w5) \<Rightarrow>
                                 Inr (cout [''Test Encryption'', ''Generated key pair.'',
                                     ''Key validation: '' @ valid_word key_valid, ''Hashed Password: '' @ hashed_password,
                                     ''Password verification: '' @ valid_word is_valid, ''CSRF Token: '' @ csrf_token,
                                     ''Encrypting file with public key...'', ''Verified Message: '' @ verified_message]
                                   (s\<lparr>m_world := w5\<rparr>)))))))"

text \<open>The calls on archives, in order; their answers are ignored, their exceptions are not.\<close>

definition archive_stage :: "(disk \<Rightarrow> outcome \<times> disk) \<Rightarrow> stage" where
  "archive_stage f s =
     (case f ((m_disk s)\<lparr>settings := m_config s\<rparr>) of
        (Returns b, d) \<Rightarrow> Inr (s\<lparr>m_disk := d\<rparr>)
      | _ \<Rightarrow> Inl Terminated)"

definition show_compression :: "'e libraries \<Rightarrow> stage" where
  "show_compression l s =
     (let a = archives l; fs = [''Baudelaire_pg36287.txt'', ''Homer-Iliad_pg6130.txt'']
      in fold (\<lambda>f m. then_stage m (archive_stage f))
           [compress a fs ''zipped_output.zip'' ''zip'' 9,
            compress a fs ''7zipped_output.7z'' ''7z'' 9,
            decompress a ''zipped_output.zip'' ''zip_output_dir'',
            decompress a ''example-archive.7z'' ''7z_output_dir'',
            compressDirectory a ''external'' ''zipped_output_dir.zip'' ''.zip'',
            compressDirectory a ''external'' ''7zipped_output_dir.7z'' ''.7z'',
            decompressToDirectory a ''zipped_output_dir.zip'' ''zip_output_dir_unzipped'',
            decompressToDirectory a ''7zipped_output_dir.zip'' ''7zip_output_dir_unzipped''] (Inr s))"

definition show_template :: "'e libraries \<Rightarrow> stage" where
  "show_template l s =
     (case Create (open_database l) ''database.db'' of
        Inl err \<Rightarrow> Inl (Exited 1)
      | Inr processor \<Rightarrow>
          (case ProcessTemplate (template_files l) (template_engine l) (SetTemplateDefiner True processor) ''template.whzt'' of
             None \<Rightarrow> Inl Terminated
           | Some (Inl err) \<Rightarrow> Inr s
           | Some (Inr text) \<Rightarrow> Inr (cout [''Rendered Template:'' @ [LF] @ text] s)))"

definition sample_vcard :: vcard where
  "sample_vcard =
     addRFC6350Field ''URL'' [(''TYPE'', ''Work'')] ''https://codecubicle.ch''
       (addAddress [(''TYPE'', ''Home'')]
          [[], [], ''Strassenweg 11'', ''Z'' @ [CHR 0xC3, CHR 0xBC] @ ''rich'', ''ZH'', ''8000'', ''Switzerland'']
         (addProperty_params ''TEL'' [(''TYPE'', ''Mobile'')] ''+4179456987''
           (addProperty_params ''EMAIL'' [(''TYPE'', ''Work'')] ''johann.doettinger@example.com''
             (addProperty ''N'' (''D'' @ [CHR 0xC3, CHR 0xB6] @ ''ttinger;Johann;;;'')
               (addProperty ''FN'' (''Johann D'' @ [CHR 0xC3, CHR 0xB6] @ ''ttinger'') new_vcard)))))"

text \<open>A text with three control characters and four Japanese letters in UTF-8.\<close>

definition unsanitized :: string where
  "unsanitized = ''Hello, '' @ [CHR 0x01, CHR 0x02, CHR 0x03] @ '' world! '' @
     [CHR 0xE3, CHR 0x81, CHR 0x93, CHR 0xE3, CHR 0x82, CHR 0x93, CHR 0xE3, CHR 0x81, CHR 0xAB,
      CHR 0xE3, CHR 0x81, CHR 0xA1, CHR 0xE3, CHR 0x81, CHR 0xAF]"

definition show_vcard :: stage where
  "show_vcard = print_out [''VCard version 4 (RFC6350):'' @ [LF] @ ''-------------------------'' @ [LF] @
     toString sample_vcard @ ''-------------------------'']"

definition show_utils :: "'e libraries \<Rightarrow> stage" where
  "show_utils l = print_out [''Testing Utils'' @ [LF] @ ''Unsanitized string: '' @ unsanitized,
     ''Sanitized same string: '' @ sanitize_utf8_string (code_points l) unsanitized]"

definition sample_params :: qr_params where
  "sample_params =
     default_params\<lparr>scale := 8, border := 2, foregroundColor := ''#0000FF'', backgroundColor := ''#FFFFFF'',
       errorCorrectionLevel := 1\<rparr>"

definition show_qr_code :: "'e libraries \<Rightarrow> stage" where
  "show_qr_code l s =
     (let input = u8StringToString (stringToU8String (toString sample_vcard))
      in case generateQRCode (qr_encode l) (png l) (parent_can_be_asked l) (image_can_open l) input ''qrcode.svg'' ''svg''
                sample_params of
           None \<Rightarrow> Inl Terminated
         | Some (ok, written) \<Rightarrow>
             then_stage (if ok then Inr s else log_failure ''Failed to generate SVG QR Code.'' s)
               (\<lambda>s1. case generateBase64Bitmap (qr_encode l) (png l) (temporary_file l) input sample_params of
                       None \<Rightarrow> Inl Terminated
                     | Some base64Png \<Rightarrow>
                         (if base64Png = [] then log_failure ''Failed to generate Base64 PNG QR Code.'' s1 else Inr s1)))"

text \<open>
  The server: address, port and the root of the documents are constants, whatever the configuration
  says. What it still prints and logs before it serves is left out.
\<close>

definition document_root :: string where
  "document_root = ''/tmp/whz''"

definition serve :: "'e libraries \<Rightarrow> stage" where
  "serve l s =
     (case new_server ''0.0.0.0'' 8080 document_root 1 of
        None \<Rightarrow> Inl Terminated
      | Some srv \<Rightarrow>
          (case listen_and_serve_http (network l) srv of
             Inl e \<Rightarrow> Inl Terminated
           | Inr None \<Rightarrow> Inl Undefined
           | Inr (Some (ec, srv1)) \<Rightarrow> Inl (Serving srv1)))"

definition stages_before :: "'e libraries \<Rightarrow> int + string \<Rightarrow> stage list" where
  "stages_before l cli =
     [print_out [''*** Start of server'', ''*** Start of CLI11''], read_configuration l cli,
      log_info ''My first logging message ma! :D'', print_out [''After 1st logging call...''],
      log_info ''Testing Localization Manager'', show_localization l,
      log_info ''Test Encryption'', show_encryption l,
      log_info ''Test File Compression'', print_out [''Test File Compression''], show_compression l,
      show_template l,
      print_out [''Testing VCard''], log_info ''Testing VCard'', show_vcard,
      print_out [''Testing Utils''], log_info ''Testing Utils'', show_utils l,
      print_out [''Testing QR Code Generator''], log_info ''Testing QR Code Generator'', show_qr_code l,
      log_info ''*** Starting WHZ Listening Server ***'', print_out [''*** Starting WHZ Listening Server ***'']]"

definition whz_main :: "'e libraries \<Rightarrow> int + string \<Rightarrow> main_state \<Rightarrow> main_end + main_state" where
  "whz_main l cli s = fold (\<lambda>f m. then_stage m f) (stages_before l cli @ [serve l]) (Inr s)"

subsection \<open>Which stages can serve\<close>

definition never_serves :: "stage \<Rightarrow> bool" where
  "never_serves f \<longleftrightarrow> (\<forall>s srv. f s \<noteq> Inl (Serving srv))"

lemma then_stage_Inl [simp]: "then_stage (Inl e) f = Inl e"
  by (simp add: then_stage_def)

lemma then_stage_Inr [simp]: "then_stage (Inr s) f = f s"
  by (simp add: then_stage_def)

lemma fold_stages_Inl [simp]: "fold (\<lambda>f m. then_stage m f) fs (Inl e) = Inl e"
  by (induction fs) simp_all

lemma fold_archives_Inl [simp]: "fold (\<lambda>f m. then_stage m (archive_stage f)) fs (Inl e) = Inl e"
  by (induction fs) simp_all

lemma then_never: "m \<noteq> Inl (Serving srv) \<Longrightarrow> never_serves f \<Longrightarrow> then_stage m f \<noteq> Inl (Serving srv)"
  by (auto simp: then_stage_def never_serves_def split: sum.split)

text \<open>When the stages end with the server running, each of those before the last was passed.\<close>

lemma stages_passed:
  "fold (\<lambda>f m. then_stage m f) (fs @ [g]) (Inr s) = Inl (Serving srv) \<Longrightarrow> list_all never_serves fs \<Longrightarrow>
   (\<forall>f\<in>set fs. \<exists>s1 s2. f s1 = Inr s2) \<and> (\<exists>s1. g s1 = Inl (Serving srv))"
proof (induction fs arbitrary: s)
  case Nil
  then show ?case by auto
next
  case (Cons f fs)
  show ?case
  proof (cases "f s")
    case (Inl e)
    then have "f s = Inl (Serving srv)" using Cons.prems(1) by simp
    then show ?thesis using Cons.prems(2) by (simp add: never_serves_def)
  next
    case (Inr s1)
    then show ?thesis using Cons.IH [of s1] Cons.prems by auto
  qed
qed

lemma log_never: "never_serves (log_info msg)" "never_serves (log_failure msg)"
  by (simp_all add: never_serves_def log_info_def log_failure_def split: sum.split)

lemma print_never: "never_serves (print_out lines)" "never_serves show_vcard" "never_serves (show_utils l)"
  by (simp_all add: never_serves_def print_out_def show_vcard_def show_utils_def)

lemma archive_stage_never: "never_serves (archive_stage f)"
  by (auto simp: never_serves_def archive_stage_def split: prod.split outcome.split)

lemma fold_archives_never:
  "m \<noteq> Inl (Serving srv) \<Longrightarrow> fold (\<lambda>f m. then_stage m (archive_stage f)) fs m \<noteq> Inl (Serving srv)"
proof (induction fs arbitrary: m)
  case (Cons f fs)
  from then_never [OF Cons.prems archive_stage_never] Cons.IH show ?case by simp
qed simp

lemma stages_never:
  "never_serves (read_configuration l cli)" "never_serves (show_localization l)" "never_serves (show_encryption l)"
  "never_serves (show_compression l)" "never_serves (show_template l)" "never_serves (show_qr_code l)"
proof -
  show "never_serves (read_configuration l cli)"
    by (auto simp: never_serves_def read_configuration_def split: sum.split prod.split bool.split)
  show "never_serves (show_localization l)"
    by (auto simp: never_serves_def show_localization_def Let_def split: option.split)
  show "never_serves (show_encryption l)"
    by (auto simp: never_serves_def show_encryption_def Let_def split: option.split prod.split)
  show "never_serves (show_compression l)"
    unfolding never_serves_def show_compression_def Let_def by (intro allI fold_archives_never) simp
  show "never_serves (show_template l)"
    by (auto simp: never_serves_def show_template_def split: option.split sum.split)
  have "never_serves (\<lambda>s1. case generateBase64Bitmap e p t input q of
       None \<Rightarrow> Inl Terminated
     | Some base64Png \<Rightarrow>
         (if base64Png = [] then log_failure ''Failed to generate Base64 PNG QR Code.'' s1 else Inr s1))" for e p t input q
    using log_never(2) by (auto simp: never_serves_def split: option.split)
  then show "never_serves (show_qr_code l)"
    using log_never(2) unfolding never_serves_def show_qr_code_def Let_def
    by (auto simp: then_stage_def split: option.split prod.split sum.split)
qed

lemma read_configuration_passed:
  assumes "read_configuration l cli s1 = Inr s2"
  shows "\<exists>config_path c c'. cli = Inr config_path \<and>
      read_config (json l) (config_exists l) (if config_path = [] then ''whz_config.json'' else config_path) c = Inr (True, c')"
proof (cases cli)
  case (Inl code)
  then show ?thesis using assms by (simp add: read_configuration_def)
next
  case (Inr path)
  let ?r = "read_config (json l) (config_exists l) (if path = [] then ''whz_config.json'' else path) (m_config s1)"
  obtain lines where "(case ?r of Inl e \<Rightarrow> Inl Terminated | Inr (False, c) \<Rightarrow> Inl (Exited 1)
      | Inr (True, c) \<Rightarrow> Inr (cout lines (s1\<lparr>m_config := c, m_log := new_qlogger\<rparr>))) = Inr s2"
    using assms unfolding read_configuration_def Inr sum.case by blast
  then obtain c where "?r = Inr (True, c)" by (auto split: sum.splits prod.splits bool.splits)
  with Inr show ?thesis by blast
qed

text \<open>The server that \<open>main\<close> hands to its pool.\<close>

abbreviation main_server :: server where
  "main_server \<equiv> one_server ''0.0.0.0'' 8080 ''/tmp/whz''"

lemma main_bind_error: "bind_error net main_server = net ''0.0.0.0'' ''8080''"
proof -
  have "digit_char 8 = CHR ''8''" "digit_char 0 = CHR ''0''" by code_simp+
  then have "dec_string 8080 = ''8080''" by (simp add: dec_string.simps)
  then show ?thesis by (simp add: bind_error_def one_server_def)
qed

lemma serve_serving:
  assumes "serve l s = Inl (Serving srv)"
  shows "network l ''0.0.0.0'' ''8080'' = None \<and> srv_open srv \<and> handlers srv = [Do_accept_http, Start_accept_http] \<and>
    srv_started srv = [] \<and> (\<exists>r. listen_and_serve_http (network l) main_server = Inr (Some (r, srv)))"
proof -
  from assms obtain r where r: "listen_and_serve_http (network l) main_server = Inr (Some (r, srv))"
    by (auto simp: serve_def document_root_def new_one_server simp del: One_nat_def split: option.splits sum.splits prod.splits)
  from listens_listening(1) [OF new_one_server this] listens_bound(1) [OF this] r show ?thesis
    unfolding main_bind_error by (auto simp: listening_def)
qed

lemma async_accept_root: "async_accept h s = Some s1 \<Longrightarrow> srv_root s1 = srv_root s"
  by (auto simp: async_accept_def split: option.splits prod.splits)

lemma listen_root: "listen_and_serve_http net s = Inr (Some (r, s1)) \<Longrightarrow> srv_root s1 = srv_root s"
  by (auto simp: listen_and_serve_http_def bind_and_listen_http_def do_accept_http_def start_accept_http_def
      dest!: async_accept_root split: option.splits if_splits)

lemma main_listens:
  assumes "whz_main l cli s = Inl (Serving srv)"
  shows "\<exists>r. listen_and_serve_http (network l) main_server = Inr (Some (r, srv))" and "srv_root srv = ''/tmp/whz''"
proof -
  have "list_all never_serves (stages_before l cli)" by (simp add: stages_before_def log_never print_never stages_never)
  from stages_passed [OF assms [unfolded whz_main_def] this] show
    *: "\<exists>r. listen_and_serve_http (network l) main_server = Inr (Some (r, srv))" using serve_serving by blast
  then show "srv_root srv = ''/tmp/whz''" by (auto dest!: listen_root simp: one_server_def)
qed

subsection \<open>Properties\<close>

text \<open>C18 (serving_requires). The program gets to serve only when the configuration was read, the database of the
  demonstration opens, the demonstration's template is missing or does not compile, and port 8080 can be
  bound on all addresses; it then accepts plain connections on its one port. In particular with a database and a
  template in place it never serves.\<close>

theorem serving_requires:
  assumes "whz_main l cli s = Inl (Serving srv)"
  shows "(\<exists>config_path c c'. cli = Inr config_path \<and>
      read_config (json l) (config_exists l) (if config_path = [] then ''whz_config.json'' else config_path) c = Inr (True, c')) \<and>
    (\<exists>d. open_database l ''database.db'' = Inr d) \<and>
    (case template_files l ''template.whzt'' of None \<Rightarrow> True | Some t \<Rightarrow> \<exists>what. template_engine l t = Inl what) \<and>
    network l ''0.0.0.0'' ''8080'' = None \<and> srv_open srv \<and> handlers srv = [Do_accept_http, Start_accept_http] \<and> srv_started srv = []"
proof -
  let ?fs = "stages_before l cli"
  have never: "list_all never_serves ?fs" by (simp add: stages_before_def log_never print_never stages_never)
  from stages_passed [OF assms [unfolded whz_main_def] never]
  have passed: "\<forall>f\<in>set ?fs. \<exists>s1 s2. f s1 = Inr s2" and served: "\<exists>s1. serve l s1 = Inl (Serving srv)" by blast+
  have mem: "read_configuration l cli \<in> set ?fs" "show_template l \<in> set ?fs"
    by (simp_all add: stages_before_def)
  have "\<exists>s1 s2. read_configuration l cli s1 = Inr s2" using passed mem(1) by blast
  then have conf: "\<exists>config_path c c'. cli = Inr config_path \<and>
      read_config (json l) (config_exists l) (if config_path = [] then ''whz_config.json'' else config_path) c = Inr (True, c')"
    using read_configuration_passed by blast
  have "\<exists>s1 s2. show_template l s1 = Inr s2" using passed mem(2) by blast
  then have "(\<exists>d. open_database l ''database.db'' = Inr d) \<and>
      (case template_files l ''template.whzt'' of None \<Rightarrow> True | Some t \<Rightarrow> \<exists>what. template_engine l t = Inl what)"
    by (auto simp: show_template_def Create_def ProcessTemplate_eq SetTemplateDefiner_def c_str_def
        split: sum.splits option.splits)
  with conf served show ?thesis using serve_serving by blast
qed

text \<open>Libraries with which the program serves: empty disks, no template.\<close>

definition sample_libraries :: "json libraries" where
  "sample_libraries =
     \<lparr>json = sample_json, config_exists = \<lambda>p. False, catalogue = \<lambda>l m. m, utf8_to_latin1 = \<lambda>s. s, latin1_to_utf8 = \<lambda>s. s,
      validate_utf8 = \<lambda>s. True, code_points = \<lambda>s. Some [], crypto = toy_sodium, twister = \<lambda>seed i. 0, random_device = 0, sign_keypair = (''A'', ''A''), archives = plain_archivers,
      open_database = \<lambda>p. Inr (\<lambda>q. No_row), template_files = Map.empty, template_engine = \<lambda>t. Inr (),
      qr_encode = \<lambda>t e. Some \<lparr>getSize = 1, getModule = \<lambda>x y. True\<rparr>, png = raw_library,
      parent_can_be_asked = \<lambda>p. True, image_can_open = \<lambda>p. True, temporary_file = True, network = open_net\<rparr>"

definition sample_start :: main_state where
  "sample_start =
     \<lparr>m_config = empty_config, m_log = new_qlogger, m_loc = new_localization,
      m_world = \<lparr>files = Map.empty, can_write = \<lambda>p. True, draws = 0, messages = []\<rparr>,
      m_disk = \<lparr>path_status = \<lambda>p. Missing, path_content = Map.empty, settings = empty_config, logger = new_qlogger\<rparr>, m_console = []\<rparr>"

lemma logging_ok:
  "log_switch LOG_INFO (m_config s) = Inr b \<Longrightarrow> \<exists>q. log_info msg s = Inr (s\<lparr>m_log := q\<rparr>)"
  "log_switch LOG_ERROR (m_config s) = Inr b \<Longrightarrow> \<exists>q. log_failure msg s = Inr (s\<lparr>m_log := q\<rparr>)"
proof -
  have [simp]: "\<exists>q. s\<lparr>m_log := x\<rparr> = s\<lparr>m_log := q\<rparr>" "\<exists>q. s = s\<lparr>m_log := q\<rparr>" for x
    by blast (rule exI [of _ "m_log s"], simp)
  show "log_switch LOG_INFO (m_config s) = Inr b \<Longrightarrow> \<exists>q. log_info msg s = Inr (s\<lparr>m_log := q\<rparr>)"
    "log_switch LOG_ERROR (m_config s) = Inr b \<Longrightarrow> \<exists>q. log_failure msg s = Inr (s\<lparr>m_log := q\<rparr>)"
    by (cases b; simp add: log_info_def log_failure_def info_def error_def log_at_def)+
qed

lemma sample_qr_code:
  assumes "log_switch LOG_ERROR (m_config s) = Inr b"
  shows "\<exists>q. show_qr_code sample_libraries s = Inr (s\<lparr>m_log := q\<rparr>)"
proof -
  let ?qr = "\<lparr>getSize = 1, getModule = \<lambda>x y. True\<rparr> :: qr_code"
  have svg: "\<exists>svg_file. generateQRCode (qr_encode sample_libraries) (png sample_libraries) (parent_can_be_asked sample_libraries)
      (image_can_open sample_libraries) input ''qrcode.svg'' ''svg'' sample_params = Some (True, svg_file)" for input
    by (simp add: sample_libraries_def generateQRCode_def writeSVG_def sample_params_def default_params_def in_int_def)
  have "params_ok ?qr sample_params" by code_simp
  then have "base64_image ?qr sample_params \<noteq> None" "image_size ?qr sample_params = Some 12"
    by (simp_all add: base64_image_pixels image_size_ok) (simp add: sample_params_def default_params_def)
  then have "encodeBase64Png raw_library True ?qr sample_params \<noteq> None"
    by (auto simp: encodeBase64Png_def raw_library_def)
  then have "generateBase64Bitmap (qr_encode sample_libraries) (png sample_libraries) (temporary_file sample_libraries) input
      sample_params \<noteq> None" for input
    by (simp add: sample_libraries_def generateBase64Bitmap_def)
  then obtain png64 where png64: "generateBase64Bitmap (qr_encode sample_libraries) (png sample_libraries)
      (temporary_file sample_libraries) (u8StringToString (stringToU8String (toString sample_vcard))) sample_params = Some png64"
    by blast
  obtain svg_file where svg_file: "generateQRCode (qr_encode sample_libraries) (png sample_libraries)
      (parent_can_be_asked sample_libraries) (image_can_open sample_libraries)
      (u8StringToString (stringToU8String (toString sample_vcard))) ''qrcode.svg'' ''svg'' sample_params = Some (True, svg_file)"
    using svg by blast
  have "show_qr_code sample_libraries s =
      (if png64 = [] then log_failure ''Failed to generate Base64 PNG QR Code.'' s else Inr s)"
    by (simp add: show_qr_code_def Let_def svg_file png64)
  moreover have "\<exists>q. s = s\<lparr>m_log := q\<rparr>" by (rule exI [of _ "m_log s"]) simp
  ultimately show ?thesis
    using logging_ok(2) [OF assms, of "''Failed to generate Base64 PNG QR Code.''"] by (cases "png64 = []") simp_all
qed

lemma sample_serve: "\<exists>srv. serve sample_libraries s = Inl (Serving srv)"
proof -
  have "network sample_libraries = open_net" by (simp add: sample_libraries_def)
  moreover from listen_http_ok [OF new_server_ok [OF new_one_server] open_net_binds] obtain srv where
    "listen_and_serve_http open_net main_server = Inr (Some (None, srv))" by blast
  ultimately show ?thesis using new_one_server by (simp add: serve_def document_root_def)
qed

lemma sample_stages:
  "\<exists>s b1 b2. fold (\<lambda>f m. then_stage m f) (take 19 (stages_before sample_libraries (Inr []))) (Inr sample_start) = Inr s \<and>
     log_switch LOG_INFO (m_config s) = Inr b1 \<and> log_switch LOG_ERROR (m_config s) = Inr b2"
proof -
  have "case fold (\<lambda>f m. then_stage m f) (take 19 (stages_before sample_libraries (Inr []))) (Inr sample_start) of
      Inl e \<Rightarrow> False
    | Inr s \<Rightarrow> (case (log_switch LOG_INFO (m_config s), log_switch LOG_ERROR (m_config s)) of (Inr b1, Inr b2) \<Rightarrow> True | _ \<Rightarrow> False)"
    by code_simp
  then show ?thesis by (auto split: sum.splits)
qed

lemma sample_main: "\<exists>srv. whz_main sample_libraries (Inr []) sample_start = Inl (Serving srv)"
proof -
  obtain s b1 b2 where s: "fold (\<lambda>f m. then_stage m f) (take 19 (stages_before sample_libraries (Inr []))) (Inr sample_start) = Inr s"
    "log_switch LOG_INFO (m_config s) = Inr b1" "log_switch LOG_ERROR (m_config s) = Inr b2"
    using sample_stages by blast
  obtain q1 where q1: "log_info ''Testing QR Code Generator'' s = Inr (s\<lparr>m_log := q1\<rparr>)"
    using logging_ok(1) [OF s(2)] by blast
  obtain q2 where q2: "show_qr_code sample_libraries (s\<lparr>m_log := q1\<rparr>) = Inr (s\<lparr>m_log := q2\<rparr>)"
    using sample_qr_code [of "s\<lparr>m_log := q1\<rparr>"] s(3) by auto
  obtain q3 where q3: "log_info ''*** Starting WHZ Listening Server ***'' (s\<lparr>m_log := q2\<rparr>) = Inr (s\<lparr>m_log := q3\<rparr>)"
    using logging_ok(1) [of "s\<lparr>m_log := q2\<rparr>"] s(2) by auto
  let ?ready = "cout [''*** Starting WHZ Listening Server ***''] (s\<lparr>m_log := q3\<rparr>)"
  obtain srv where srv: "serve sample_libraries ?ready = Inl (Serving srv)" using sample_serve by blast
  have "stages_before sample_libraries (Inr []) = take 19 (stages_before sample_libraries (Inr [])) @
      [log_info ''Testing QR Code Generator'', show_qr_code sample_libraries,
       log_info ''*** Starting WHZ Listening Server ***'', print_out [''*** Starting WHZ Listening Server ***'']]"
    by (simp add: stages_before_def)
  then have "whz_main sample_libraries (Inr []) sample_start =
      fold (\<lambda>f m. then_stage m f) ([log_info ''Testing QR Code Generator'', show_qr_code sample_libraries,
        log_info ''*** Starting WHZ Listening Server ***'', print_out [''*** Starting WHZ Listening Server ***'']] @
        [serve sample_libraries])
        (fold (\<lambda>f m. then_stage m f) (take 19 (stages_before sample_libraries (Inr []))) (Inr sample_start))"
    unfolding whz_main_def by (metis append_assoc comp_apply fold_append)
  then have "whz_main sample_libraries (Inr []) sample_start = Inl (Serving srv)"
    unfolding s(1) using q1 q2 q3 srv by (simp add: print_out_def)
  then show ?thesis by blast
qed

theorem serving_requires_witness:
  "\<exists>srv. whz_main sample_libraries (Inr []) sample_start = Inl (Serving srv) \<and>
     handlers srv = [Do_accept_http, Start_accept_http]"
  using sample_main serving_requires by blast

end
