(* ===== verification/Spec2Isabelle.thy ===== *)
theory Spec2Isabelle
  imports Server_Service Qlogger Lua_Core Routing Template_Cache Old_Resources Entry_Point
begin

text \<open>
  WorkHorz is a web server in C++20 (namespace \<open>whz\<close>, sources in \<open>src/src\<close>). This library models
  every component that has logic of its own and proves what makes each correct, or what it does
  where the code falls short of what it says. Paths below are relative to \<open>src/src\<close>.

  \<^bold>\<open>How the program is put together.\<close> \<open>main\<close> (\<open>whz-core.cpp\<close>) reads the configuration, runs a
  demonstration of the components and starts the \<open>server\<close> (\<open>whz_server\<close>). The server spreads its
  sockets over the contexts of an \<open>io_context_pool\<close> and starts, for each client it accepts, a
  \<open>connection\<close> or an \<open>ssl_connection\<close>. A connection feeds the bytes it reads to the
  \<open>request_parser\<close>, hands a complete \<open>request\<close> to the \<open>request_handler\<close>, which decodes the URL,
  reads a file below its root and fills a \<open>reply\<close>, and writes the buffers of that reply. The other
  components (logger, Lua engine, routing table, template cache and processor, resources, vCards, QR
  codes, encryption, archives, localization, string utilities) stand beside this path.

  \<^bold>\<open>The theories\<close>, in the order of their imports:
  \<^item> \<open>Prelude\<close>: bytes, strings and paths as the C++ library treats them; the exceptions.
  \<^item> \<open>Framing\<close>: the interfaces \<open>text_codec\<close> of an encoder and a reader of values and \<open>framed_codec\<close>
    of those that can follow each other on a stream; URLs, base64 and vCards are interpretations of the
    first, requests, replies and cached templates of the second.
  \<^item> \<open>Http_Common\<close>: \<open>whz_common\<close>. \<open>header\<close>, \<open>request\<close>, \<open>reply\<close>, \<open>status_type\<close>; \<open>stock_reply\<close> and
    \<open>to_buffers\<close>. A client's reader \<open>read_reply\<close> is the specification of what is sent.
  \<^item> \<open>Request_Parser\<close>: \<open>whz_request_parser\<close>. \<open>consume\<close> has one equation for each state of the
    switch; \<open>parse\<close> is the loop over the bytes.
  \<^item> \<open>Request_Grammar\<close>: the request grammar as trees, printed and denoted; \<open>parser_language\<close> says that
    the parser accepts exactly this language. The locale \<open>scan_state\<close> is the contract of a state
    that collects characters up to a delimiter; six states of the parser are interpretations of it.
  \<^item> \<open>Url_Decode\<close>: \<open>url_decode\<close> of \<open>whz_utils.hpp\<close> against a strict decoder.
  \<^item> \<open>Request_Handler\<close>: \<open>whz_request_handler\<close>, over a file system given as a function.
  \<^item> \<open>Connection\<close>: \<open>whz_connection\<close>. The completion handlers \<open>on_read\<close> and \<open>on_write\<close>, and
    \<open>conn_step\<close>, the step relation in which the socket's completions are the events. The locale
    \<open>reply_handler\<close> is what a connection needs of its handler. \<open>Connection_Stream\<close> has the abstract
    specification of a connection, a function of the stream of buffers its parser sees, and proves
    that the connection implements it; \<open>settled_handler\<close> extends the contract of the handler.
  \<^item> \<open>Ssl_Connection\<close>, \<open>Io_Context_Pool\<close> (locale \<open>round_robin\<close>), \<open>Server\<close>: the files of these names;
    \<open>server_step\<close> interleaves the completions of the outstanding accepts and the signal.
  \<^item> \<open>Running_Server\<close>: the server object together with all connections it has started, each on its
    context. \<open>site_run\<close> executes any sequence of completions; its runs project to runs of the parts.
    \<open>Server_Service\<close>: what such a server does for its clients.
  \<^item> \<open>Config\<close>: \<open>whz_config\<close>, with \<open>any_value\<close> for the types its \<open>std::any\<close> members hold, the
    string views among them dangling once the parser is gone, and the JSON library as a record of functions
    (locale \<open>param_store\<close> for the members). \<open>Qlogger\<close> (\<open>whz_quill_wrapper\<close>) and \<open>Lua_Core\<close>
    (\<open>whz_LUA_core\<close>) read it; the failures of resources and archives go through the switch of the logger.
  \<^item> \<open>Routing\<close> (\<open>http_routing\<close>), \<open>Template_Cache\<close> (\<open>whz_templateCache\<close>), \<open>Template_Processor\<close>
    (\<open>whz_templating\<close>), \<open>Resources\<close> (\<open>whz_resources\<close>, byte buffers on an explicit heap) and
    \<open>Old_Resources\<close> (\<open>Resources.hpp\<close>, \<open>Resources.cpp\<close>, the class it replaced).
  \<^item> \<open>Base64\<close> and \<open>Qrcode\<close> (\<open>whz_qrcode_generator.hpp\<close>), \<open>Vcard\<close> (\<open>whz_vcard.hpp\<close>),
    \<open>Utils\<close> (\<open>whz_utils.hpp\<close>), \<open>Localization\<close> (\<open>LocalizationManager.hpp\<close>).
  \<^item> \<open>Encryption\<close> (\<open>whz_encryption\<close>) and \<open>Compression\<close> (\<open>whz_datacompression.hpp\<close>), over libsodium,
    libzip and libarchive as records of functions; what is asked of these libraries are the predicates
    \<open>seal_law\<close>, \<open>pwhash_law\<close> and \<open>zip_law\<close>, each with an instance. Nothing is asked of libarchive.
  \<^item> \<open>Entry_Point\<close>: the control flow of \<open>main\<close> over all of these.

  \<^bold>\<open>Conventions.\<close> Objects are records and every member function is a function from the old to the new
  object. Undefined behaviour of C++ (an index out of bounds, a missing element, a double free, an
  overflow of \<open>int\<close>) is \<open>None\<close>; a thrown exception is the left side of a sum or a constructor of an
  outcome. Integers whose width matters are words (\<open>u8\<close>, \<open>u16\<close>, \<open>u32\<close>, \<open>u64\<close>). Strings are lists of
  bytes, unordered containers are maps or multisets. Code that is not in the repository is a parameter.
  No definition needs fuel: every loop is over finite data and recursive on it, with a measure where the
  recursion is not structural; a connection that may go on for ever is a step relation, and the
  running server a partial function of the list of its events.

  \<^bold>\<open>What is shown.\<close> For the path of a request: the language of the parser and its safety, the round
  trips of requests, replies and URLs, confinement to the document root, the safety and termination of
  connections, and that a connection is the function of its buffers it is specified to be. For the
  running server: its runs are runs of its parts, what a client is sent depends on its own bytes only,
  it never gets stuck until it is stopped, it holds any number of silent clients for ever, and any client
  can end its process. \<open>program_serves\<close> below composes all of this with \<open>main\<close>, from wire to wire, with the
  request handler and the root that \<open>main\<close> gives its server. For the configuration: what reading leaves in
  every parameter, and the consequences of the types it stores for logger and writing. For the other
  components: round trips (zip archives, encrypted files, vCards, base64, template file), where the members
  of an archive end up, the equality of the two picture renderers, the accounting of heap buffers, where
  the two resource classes agree and where they do not, what is found in the routing table and what is
  lost there, why the failures on archives are never logged, and the bounds of counters and tokens.
  \<open>serving_requires\<close> says when \<open>main\<close> gets to serve at all.

  \<^bold>\<open>Not modelled.\<close> Console output but for that of \<open>main\<close> itself and of the old resource class; the log
  calls of the routing table, the template cache, the Lua engine, the encryption and the server object;
  the global locale that \<open>main\<close> switches to (the digits of an escape in a URL are read as in the
  classic locale, without separators); the network and TLS libraries
  beyond their completions; handlers of different threads that overlap in time, as each runs on one
  context and shares no state of the model with those of the others; files that change while the server
  runs; the error code of a write, which no handler reads except that of TLS. \<open>whz_http_routing.hpp\<close> is an
  older copy of a modelled header; \<open>whz_request\<close>, \<open>whzClientRequest\<close>, \<open>whz_renderer\<close>,
  \<open>whz_template_parser\<close> and \<open>whz_LUA_api\<close> are classes without operations: empty, or with members that
  are declared and defined nowhere. Tests and web assets have no logic of
  the program.
\<close>

text \<open>The reply to a legal request for a percent-encoded path that opens below the root, as the client reads it.\<close>

definition file_view :: "string \<Rightarrow> (string \<times> header list \<times> string) \<times> string" where
  "file_view bytes =
     ((''HTTP/1.0 200 OK'',
       [\<lparr>hname = ''Content-Length'', hvalue = dec_string (length bytes)\<rparr>,
        \<lparr>hname = ''Content-Type'', hvalue = ''text/html''\<rparr>], bytes), [])"

lemma file_reply:
  assumes "req_uri r = pct_encode keep p" "\<not> bad_path p" "fs (c_str (root @ index_path p)) = Some bytes"
  shows "read_reply (reply_bytes (handle_request fs root r (fresh_reply st))) = Some (file_view bytes)"
proof -
  let ?rep = "\<lparr>status = ok, rep_headers = set_content_headers (length bytes) [], content = bytes\<rparr>"
  have "handle_request fs root r (fresh_reply st) = ?rep"
    using assms by (simp add: handle_request_unfold url_decode_encode fresh_reply_def set_content_headers_eq)
  moreover have "read_reply (reply_bytes ?rep) = Some (reply_view ?rep, [])"
    by (rule reply_wire.dec_enc_only, rule content_headers_ok [where hs = "[]"]) simp
  ultimately show ?thesis by (simp add: reply_view_def set_content_headers_eq crlf_def file_view_def)
qed

lemma main_serving: "whz_main l cli s = Inl (Serving srv) \<Longrightarrow> serving srv"
proof -
  assume "whz_main l cli s = Inl (Serving srv)"
  from main_listens(1) [OF this] obtain ec where
    "listen_and_serve_http (network l) main_server = Inr (Some (ec, srv))" by blast
  with new_one_server [of "''0.0.0.0''" 8080 "''/tmp/whz''"] show ?thesis unfolding serving_def by blast
qed

text \<open>(serve_file). From the wire to the wire: a client that prints a legal request for a percent-encoded path
  in fewer bytes than the buffer holds, on a new connection over a file system where the path
  opens below the root, reads back the status line 200, the length and type of the content and
  exactly the bytes of the file.\<close>

theorem serve_file:
  assumes "request_ok r" "req_uri r = pct_encode keep p" "\<not> bad_path p"
    and "fs (c_str (root @ index_path p)) = Some bytes" "length (print_request r) < buffer_size"
  shows "\<exists>c. on_read (handle_request fs root) (start (new_connection major minor st)) False (print_request r) = Some c \<and>
    read_reply (conn_sent c) =
      Some ((''HTTP/1.0 200 OK'',
             [\<lparr>hname = ''Content-Length'', hvalue = dec_string (length bytes)\<rparr>,
              \<lparr>hname = ''Content-Type'', hvalue = ''text/html''\<rparr>], bytes), [])"
  using whole_request_read [OF assms(1,5), of "handle_request fs root" major minor st]
    file_reply [where fs = fs, OF assms(2,3,4)] by (auto simp: file_view_def)

theorem serve_file_witness:
  "\<exists>c. on_read (handle_request [''/srv/a b/index.html'' \<mapsto> ''hello''] ''/srv'') (start (new_connection 0 0 ok)) False
       (print_request (sample_get ''/a%20b/'')) = Some c \<and>
    read_reply (conn_sent c) =
      Some ((''HTTP/1.0 200 OK'',
             [\<lparr>hname = ''Content-Length'', hvalue = dec_string (length ''hello'')\<rparr>,
              \<lparr>hname = ''Content-Type'', hvalue = ''text/html''\<rparr>], ''hello''), [])"
proof (rule serve_file)
  show "request_ok (sample_get ''/a%20b/'')" by code_simp
  show "req_uri (sample_get ''/a%20b/'') = pct_encode (\<lambda>c. c \<noteq> SP) ''/a b/''" by code_simp
  show "\<not> bad_path ''/a b/''" by code_simp
  show "[''/srv/a b/index.html'' \<mapsto> ''hello''] (c_str (''/srv'' @ index_path ''/a b/'')) = Some ''hello''"
    by code_simp
  show "length (print_request (sample_get ''/a%20b/'')) < buffer_size" by code_simp
qed

text \<open>C2 (program_serves). The whole program: once \<open>main\<close> serves, then whatever else happens on the server, whose
  connections share the request handler it was built with, every client on
  record speaks the plain protocol, and one whose reads delivered a legal request for a percent-encoded
  path, of any length, every read but the last filling the buffer, has been sent the status line 200,
  the length and type of the content and exactly the bytes of the file below \<open>/tmp/whz\<close>.\<close>

theorem program_serves:
  assumes "whz_main l cli s = Inl (Serving srv)"
    and "site_run (server_handler fs srv) es (open_site srv) = Some w" "k < length (site_clients w)"
    and "received (own k es) = bs @ [b]" "list_all (\<lambda>x. length x = buffer_size) bs" "print_request r = concat bs @ b"
    and "request_ok r" "req_uri r = pct_encode keep p" "\<not> bad_path p" "fs (c_str (''/tmp/whz'' @ index_path p)) = Some bytes"
  shows "\<exists>c. fst (site_clients w ! k) = Plain c \<and> read_reply (conn_sent c) = Some (file_view bytes)"
proof -
  let ?h = "handle_request fs ''/tmp/whz''"
  have srv: "serving srv" using main_serving [OF assms(1)] .
  have run: "site_run ?h es (open_site srv) = Some w"
    using assms(2) unfolding server_handler_def main_listens(2) [OF assms(1)] .
  have inv: "site_inv ?h srv w" using site_run_inv [OF srv run] .
  from main_listens(1) [OF assms(1)] obtain ec where
    listens: "listen_and_serve_http (network l) main_server = Inr (Some (ec, srv))" by blast
  have "server_reach srv (site_server w)" using inv by (simp add: site_inv_def)
  from http_only [OF new_one_server listens this]
  have "set (srv_started (site_server w)) \<subseteq> {Plain_connection}" .
  with started_length [OF inv] assms(3) have "srv_started (site_server w) ! k = Plain_connection"
    by (metis nth_mem singletonD subsetD)
  moreover have "component_run ?h (srv_started (site_server w) ! k) (fst (site_clients w ! k))"
    using inv started_length [OF inv] assms(3) by (simp add: site_inv_def list_all2_conv_all_nth)
  ultimately obtain c where c: "fst (site_clients w ! k) = Plain c"
    by (cases "fst (site_clients w ! k)") auto
  have "conn_sent c = reply_bytes (?h r (fresh_reply ok))"
    using file_settled.client_sent [OF srv run assms(3) c] answer_request [OF assms(7,6,5)] assms(4) by simp
  with c file_reply [where fs = fs, OF assms(8-10)] show ?thesis by simp
qed

theorem program_serves_witness:
  "\<exists>srv es w c. whz_main sample_libraries (Inr []) sample_start = Inl (Serving srv) \<and>
     site_run (server_handler [''/tmp/whz/a b/index.html'' \<mapsto> ''hello''] srv) es (open_site srv) = Some w \<and>
     fst (site_clients w ! 0) = Plain c \<and> read_reply (conn_sent c) = Some (file_view ''hello'')"
proof -
  let ?fs = "[''/tmp/whz/a b/index.html'' \<mapsto> ''hello'']" and ?b = "print_request (sample_get ''/a%20b/'')"
  from sample_main obtain srv where srv: "whz_main sample_libraries (Inr []) sample_start = Inl (Serving srv)" by blast
  have b: "?b \<noteq> []" "length ?b < buffer_size" by code_simp+
  from short_client [OF main_serving [OF srv] b, of "server_handler ?fs srv"] obtain es w c where
    w: "site_run (server_handler ?fs srv) es (open_site srv) = Some w" "length (site_clients w) = 1"
      "own 0 es = [(Read_done ?b, False)]" by blast
  have "\<exists>c. fst (site_clients w ! 0) = Plain c \<and> read_reply (conn_sent c) = Some (file_view ''hello'')"
  proof (rule program_serves [OF srv w(1)])
    show "0 < length (site_clients w)" "received (own 0 es) = [] @ [?b]" using w by simp_all
    show "request_ok (sample_get ''/a%20b/'')" by code_simp
    show "req_uri (sample_get ''/a%20b/'') = pct_encode (\<lambda>c. c \<noteq> SP) ''/a b/''" by code_simp
    show "\<not> bad_path ''/a b/''" by code_simp
    show "?fs (c_str (''/tmp/whz'' @ index_path ''/a b/'')) = Some ''hello''" by code_simp
  qed simp_all
  with srv w(1) show ?thesis by blast
qed

end
